theory Spec2Isabelle
  imports Main "HOL-Library.Word"
begin

section \<open>The xeniface IOCTL handlers: data model\<close>

text \<open>
  The development embeds the grant-table, store-watch and event-channel handlers of
  \<^verbatim>\<open>src/xeniface/ioctls.c\<close> (and the grant-table handlers of
  \<^verbatim>\<open>src/xeniface/ioctl_gnttab.c\<close>, which are the same code reformatted).

  Pointers are addresses (\<open>nat\<close>, \<open>NULL = 0\<close>). \<open>ULONG\<close> and \<open>NTSTATUS\<close> are 32-bit
  words, so that \<open>In->NumberPages * PAGE_SIZE\<close> wraps as it does in C. Loop counters
  that are bounded by the page count are natural numbers.
\<close>

type_synonym ULONG = "32 word"
type_synonym NTSTATUS = "32 word"

definition NULL :: nat where
  "NULL = 0"

text \<open>The status codes of \<^verbatim>\<open>ntstatus.h\<close> that the handlers use, and \<^verbatim>\<open>NT_SUCCESS\<close>
  (\<^verbatim>\<open>((NTSTATUS)(Status)) >= 0\<close>, a signed comparison).\<close>

definition STATUS_SUCCESS :: NTSTATUS where
  "STATUS_SUCCESS = 0x00000000"

definition STATUS_PENDING :: NTSTATUS where
  "STATUS_PENDING = 0x00000103"

definition STATUS_UNSUCCESSFUL :: NTSTATUS where
  "STATUS_UNSUCCESSFUL = 0xC0000001"

definition STATUS_INVALID_PARAMETER :: NTSTATUS where
  "STATUS_INVALID_PARAMETER = 0xC000000D"

definition STATUS_NO_MEMORY :: NTSTATUS where
  "STATUS_NO_MEMORY = 0xC0000017"

definition STATUS_INVALID_BUFFER_SIZE :: NTSTATUS where
  "STATUS_INVALID_BUFFER_SIZE = 0xC0000206"

definition STATUS_NOT_FOUND :: NTSTATUS where
  "STATUS_NOT_FOUND = 0xC0000225"

definition STATUS_CANCELLED :: NTSTATUS where
  "STATUS_CANCELLED = 0xC0000120"

definition NT_SUCCESS :: "NTSTATUS \<Rightarrow> bool" where
  "NT_SUCCESS Status = (0 \<le> sint Status)"

text \<open>\<^verbatim>\<open>PAGE_SIZE\<close> is the kernel's page size macro, \<^verbatim>\<open>0x1000\<close> on x86 and x64. In
  \<^verbatim>\<open>In->NumberPages * PAGE_SIZE\<close> the operand \<^verbatim>\<open>NumberPages\<close> is a \<^verbatim>\<open>ULONG\<close>, so the
  product is a 32-bit unsigned value.\<close>

definition PAGE_SIZE :: ULONG where
  "PAGE_SIZE = 0x1000"

text \<open>The flag bits of \<^verbatim>\<open>XENIFACE_GNTTAB_PAGE_FLAGS\<close>. The handlers only test single
  bits (\<^verbatim>\<open>Flags & XENIFACE_GNTTAB_USE_NOTIFY_OFFSET\<close>), so a flags value is the set of
  the bits that are on.\<close>

datatype XENIFACE_GNTTAB_PAGE_FLAGS =
    XENIFACE_GNTTAB_READONLY
  | XENIFACE_GNTTAB_USE_NOTIFY_OFFSET
  | XENIFACE_GNTTAB_USE_NOTIFY_PORT

datatype XENIFACE_CONTEXT_TYPE = XENIFACE_CONTEXT_GRANT | XENIFACE_CONTEXT_MAP

text \<open>The request id is a number that the caller chooses. Its C type is declared in
  \<^verbatim>\<open>xeniface_ioctls.h\<close>, which is not among the sources; the handlers only copy and
  compare it, so nothing below depends on its width.\<close>

type_synonym REQUEST_ID = "64 word"

record XENIFACE_CONTEXT_ID =
  Type :: XENIFACE_CONTEXT_TYPE
  Process :: nat
  RequestId :: REQUEST_ID

text \<open>Every context structure is reached through a pointer; \<open>This\<close> is that address.
  The field \<^verbatim>\<open>Id\<close> of the contexts is \<open>Id'\<close> here and a local variable \<^verbatim>\<open>Id\<close> of the
  source is \<open>LocalId\<close>, because \<open>Id\<close> is the identity relation of HOL.\<close>

record kernel_object =
  This :: nat

record gnttab_context = kernel_object +
  Id' :: XENIFACE_CONTEXT_ID
  RemoteDomain :: "16 word"
  NumberPages :: ULONG
  Flags :: "XENIFACE_GNTTAB_PAGE_FLAGS set"
  NotifyOffset :: ULONG
  NotifyPort :: ULONG
  KernelVa :: nat
  UserVa :: nat
  Mdl :: nat

text \<open>\<open>Grants\<close> is the pointer to the array of grant entries, \<open>GrantsArray\<close> the array
  it points to (\<^verbatim>\<open>Context->Grants[Page]\<close> is \<open>GrantsArray Context ! Page\<close>).\<close>

record XENIFACE_GRANT_CONTEXT = gnttab_context +
  Grants :: nat
  GrantsArray :: "nat list"

record XENIFACE_MAP_CONTEXT = gnttab_context +
  Address :: nat

text \<open>The input blocks. \<open>In_References\<close> is the variable-length tail of the map request.\<close>

record XENIFACE_GNTTAB_PERMIT_FOREIGN_ACCESS_IN =
  In_RequestId :: REQUEST_ID
  In_RemoteDomain :: "16 word"
  In_NumberPages :: ULONG
  In_Flags :: "XENIFACE_GNTTAB_PAGE_FLAGS set"
  In_NotifyOffset :: ULONG
  In_NotifyPort :: ULONG

record XENIFACE_GNTTAB_MAP_FOREIGN_PAGES_IN = XENIFACE_GNTTAB_PERMIT_FOREIGN_ACCESS_IN +
  In_References :: "ULONG list"

text \<open>The sizes of the message structures of \<^verbatim>\<open>xeniface_ioctls.h\<close>, which the handlers
  compare the buffer lengths with. The header is not part of the sources at hand, so the
  sizes are parameters. A length comparison is done in \<^verbatim>\<open>size_t\<close>; the sums involved stay
  far below \<open>2 ^ 32\<close> for every page count that passes validation, so they are computed
  on natural numbers.\<close>

record abi =
  sizeof_PERMIT_FOREIGN_ACCESS_IN :: nat
  sizeof_GET_GRANT_RESULT_IN :: nat
  sizeof_GET_GRANT_RESULT_OUT :: nat
  sizeof_REVOKE_FOREIGN_ACCESS_IN :: nat
  sizeof_MAP_FOREIGN_PAGES_IN :: nat
  sizeof_GET_MAP_RESULT_IN :: nat
  sizeof_GET_MAP_RESULT_OUT :: nat
  sizeof_UNMAP_FOREIGN_PAGES_IN :: nat
  sizeof_STORE_REMOVE_WATCH_IN :: nat

definition sizeof_ULONG :: nat where
  "sizeof_ULONG = 4"

subsection \<open>The kernel and the bus, as seen by one request\<close>

text \<open>What a pool allocation is for, with the size the source computes from the page
  count: the number of entries of the grant array, and the byte count of the shared
  buffer as the 32-bit product \<^verbatim>\<open>Context->NumberPages * PAGE_SIZE\<close>.\<close>

datatype pool_request =
    Pool_GRANT_CONTEXT
  | Pool_MAP_CONTEXT
  | Pool_Grants nat
  | Pool_KernelVa ULONG

text \<open>The answers of the kernel and of the XENBUS interfaces are inputs of the model:
  an allocation returns an address or \<open>NULL\<close>, a bus call returns a status (and the value
  it stores through its out-parameter). \<open>MmMapLockedPagesSpecifyCache\<close> either raises
  (\<open>Inl\<close> the exception code) or returns an address.\<close>

record kernel =
  PsGetCurrentProcess :: nat
  ExAllocatePoolWithTag :: "pool_request \<Rightarrow> nat"
  IoAllocateMdl :: "nat \<Rightarrow> ULONG \<Rightarrow> nat"
  MmMapLockedPagesSpecifyCache :: "nat \<Rightarrow> NTSTATUS + nat"
  MmMapIoSpace :: "nat \<Rightarrow> ULONG \<Rightarrow> nat"
  GNTTAB_PermitForeignAccess :: "nat \<Rightarrow> NTSTATUS \<times> nat"
  GNTTAB_RevokeForeignAccess :: "nat \<Rightarrow> NTSTATUS"
  GNTTAB_GetReference :: "nat \<Rightarrow> ULONG"
  GNTTAB_MapForeignPages :: "ULONG list \<Rightarrow> NTSTATUS \<times> nat"
  GNTTAB_UnmapForeignPages :: "nat \<Rightarrow> NTSTATUS"
  STORE_WatchRemove :: "nat \<Rightarrow> NTSTATUS"

datatype spin_lock = StoreWatchLock | EvtchnLock

text \<open>The calls a handler makes that change something outside the driver's own lists,
  in the order it makes them.\<close>

datatype event =
    Ev_ExAllocatePoolWithTag pool_request nat
  | Ev_ExFreePoolWithTag nat
  | Ev_IoAllocateMdl nat ULONG nat
  | Ev_IoFreeMdl nat
  | Ev_MmMapLockedPages nat "NTSTATUS + nat"
  | Ev_MmUnmapLockedPages nat nat
  | Ev_MmMapIoSpace nat ULONG nat
  | Ev_MmUnmapIoSpace nat ULONG
  | Ev_PermitForeignAccess nat NTSTATUS nat
  | Ev_RevokeForeignAccess nat NTSTATUS
  | Ev_MapForeignPages "ULONG list" NTSTATUS nat
  | Ev_UnmapForeignPages nat NTSTATUS
  | Ev_NotifyOffsetCleared nat ULONG
  | Ev_EvtchnSend nat
  | Ev_IoCompleteRequest nat NTSTATUS
  | Ev_StoreWatchRemove nat NTSTATUS
  | Ev_ObDereferenceObject nat
  | Ev_KeAcquireSpinLock spin_lock
  | Ev_KeReleaseSpinLock spin_lock
  | Ev_SetInactive nat
  | Ev_EvtchnClose nat
  | Ev_KeFlushQueuedDpcs
  | Ev_KeStackAttachProcess nat
  | Ev_KeUnstackDetachProcess
  | Ev_IoFreeWorkItem

text \<open>A handler returns a status, or stops the system when an assertion fails.

  Modelled from the spec: the macro \<^verbatim>\<open>ASSERT\<close> (\<^verbatim>\<open>assert.h\<close>, not among the sources) is
  taken as the spec describes a failed teardown, "treated as a fatal invariant violation
  (process/driver abort)": the asserted expression is evaluated, and the handler stops
  with \<open>BugCheck\<close> when it is false.\<close>

datatype outcome = Return NTSTATUS | BugCheck

subsection \<open>The device extension\<close>

record XENIFACE_STORE_CONTEXT = kernel_object +
  FileObject :: nat
  Event :: nat
  Watch :: nat

record XENIFACE_EVTCHN_CONTEXT = kernel_object +
  EvtchnFileObject :: nat
  EvtchnEvent :: nat
  Channel :: nat
  LocalPort :: ULONG
  Active :: bool

datatype pending_context =
    GrantContext XENIFACE_GRANT_CONTEXT
  | MapContext XENIFACE_MAP_CONTEXT

text \<open>A queued IRP with \<^verbatim>\<open>Irp->Tail.Overlay.DriverContext[0]\<close>, the context it parks.
  The three lists are the entries in list order, head first.\<close>

type_synonym pending_irp = "nat \<times> pending_context"

record XENIFACE_FDO =
  IrpQueue :: "pending_irp list"
  StoreWatchList :: "XENIFACE_STORE_CONTEXT list"
  EvtchnList :: "XENIFACE_EVTCHN_CONTEXT list"
  trace :: "event list"

definition log :: "event \<Rightarrow> XENIFACE_FDO \<Rightarrow> XENIFACE_FDO" where
  "log e Fdo = Fdo\<lparr>trace := trace Fdo @ [e]\<rparr>"

section \<open>The Correlation Queue\<close>

text \<open>\<open>context_Id\<close> reads \<^verbatim>\<open>Context->Id\<close>, the field that
  \<^verbatim>\<open>Irp->Tail.Overlay.DriverContext[0]\<close> points to.\<close>

definition context_Id :: "pending_context \<Rightarrow> XENIFACE_CONTEXT_ID" where
  "context_Id c = (case c of GrantContext g \<Rightarrow> Id' g | MapContext m \<Rightarrow> Id' m)"

text \<open>Modelled from the spec: the queue callbacks of \<^verbatim>\<open>irp_queue.c\<close> are not among the
  sources. Section 4.1 of the spec: "\<open>insert(op, id)\<close> fails if an operation with the same
  id (client, number, kind) is already registered; \<open>peek(id)\<close> returns the operation
  without removing it; \<open>remove(id)\<close> atomically removes and returns the operation or
  fails with not-found". Section 4.2 reports a duplicate id as invalid-parameter.\<close>

definition CsqPeekNextIrp :: "pending_irp list \<Rightarrow> XENIFACE_CONTEXT_ID \<Rightarrow> pending_irp option" where
  "CsqPeekNextIrp Queue PeekContext = find (\<lambda>Irp. context_Id (snd Irp) = PeekContext) Queue"

definition IoCsqInsertIrpEx ::
  "pending_irp list \<Rightarrow> pending_irp \<Rightarrow> NTSTATUS \<times> pending_irp list" where
  "IoCsqInsertIrpEx Queue Irp =
     (if CsqPeekNextIrp Queue (context_Id (snd Irp)) \<noteq> None
      then (STATUS_INVALID_PARAMETER, Queue)
      else (STATUS_SUCCESS, Queue @ [Irp]))"

definition IoCsqRemoveNextIrp ::
  "pending_irp list \<Rightarrow> XENIFACE_CONTEXT_ID \<Rightarrow> pending_irp option \<times> pending_irp list" where
  "IoCsqRemoveNextIrp Queue PeekContext =
     (case CsqPeekNextIrp Queue PeekContext of
        None \<Rightarrow> (None, Queue)
      | Some Irp \<Rightarrow> (Some Irp, remove1 Irp Queue))"

definition FindGnttabIrp :: "XENIFACE_FDO \<Rightarrow> XENIFACE_CONTEXT_ID \<Rightarrow> pending_irp option" where
  "FindGnttabIrp Fdo LocalId = CsqPeekNextIrp (IrpQueue Fdo) LocalId"

section \<open>The event-channel list, as far as the grant teardown uses it\<close>

text \<open>\<^verbatim>\<open>EvtchnFindChannel\<close> walks the list from the head and returns the first context
  with the port (and the file object, when one is given; \<open>NULL\<close> matches every owner).\<close>

fun EvtchnFindChannel ::
  "XENIFACE_EVTCHN_CONTEXT list \<Rightarrow> ULONG \<Rightarrow> nat \<Rightarrow> XENIFACE_EVTCHN_CONTEXT option" where
  "EvtchnFindChannel [] Port FileObject' = None"
| "EvtchnFindChannel (Context # Nodes) Port FileObject' =
     (if LocalPort Context \<noteq> Port then EvtchnFindChannel Nodes Port FileObject'
      else if FileObject' \<noteq> NULL \<and> EvtchnFileObject Context \<noteq> FileObject'
        then EvtchnFindChannel Nodes Port FileObject'
      else Some Context)"

definition EvtchnNotify :: "XENIFACE_FDO \<Rightarrow> ULONG \<Rightarrow> nat \<Rightarrow> NTSTATUS \<times> XENIFACE_FDO" where
  "EvtchnNotify Fdo Port FileObject' =
     (let Fdo1 = log (Ev_KeAcquireSpinLock EvtchnLock) Fdo in
      case EvtchnFindChannel (EvtchnList Fdo1) Port FileObject' of
        None \<Rightarrow> (STATUS_NOT_FOUND, log (Ev_KeReleaseSpinLock EvtchnLock) Fdo1)
      | Some Context \<Rightarrow>
          (STATUS_SUCCESS,
           log (Ev_KeReleaseSpinLock EvtchnLock) (log (Ev_EvtchnSend (Channel Context)) Fdo1)))"

section \<open>Grant Context Manager\<close>

text \<open>The parameter check that both \<^verbatim>\<open>IoctlGnttabPermitForeignAccess\<close> and
  \<^verbatim>\<open>IoctlGnttabMapForeignPages\<close> make before touching anything (the condition of
  \<^verbatim>\<open>goto fail2\<close>). The product is the 32-bit one.\<close>

definition gnttab_parameters_invalid ::
  "ULONG \<Rightarrow> XENIFACE_GNTTAB_PAGE_FLAGS set \<Rightarrow> ULONG \<Rightarrow> bool" where
  "gnttab_parameters_invalid NumberPages' Flags' NotifyOffset' =
     (NumberPages' = 0 \<or> NumberPages' > 1024 * 1024 \<or>
      (XENIFACE_GNTTAB_USE_NOTIFY_OFFSET \<in> Flags' \<and> NotifyOffset' \<ge> NumberPages' * PAGE_SIZE))"

text \<open>The sharing loop: \<^verbatim>\<open>for (Page = 0; Page < Context->NumberPages; Page++)\<close>. The bus
  stores the entry in \<^verbatim>\<open>Context->Grants[Page]\<close>; a failing status leaves the loop with
  \<^verbatim>\<open>goto fail8\<close> (\<open>Some status\<close>), with \<open>Page\<close> the index of the rejected page.\<close>

function share_pages ::
  "kernel \<Rightarrow> nat \<Rightarrow> nat \<Rightarrow> nat list \<Rightarrow> event list
     \<Rightarrow> NTSTATUS option \<times> nat \<times> nat list \<times> event list" where
  "share_pages K n Page Gs tr =
     (if Page < n then
        (let (status, Entry) = GNTTAB_PermitForeignAccess K Page;
             Gs' = Gs[Page := Entry];
             tr' = tr @ [Ev_PermitForeignAccess Page status Entry]
         in if \<not> NT_SUCCESS status then (Some status, Page, Gs', tr')
            else share_pages K n (Page + 1) Gs' tr')
      else (None, Page, Gs, tr))"
  by pat_completeness auto
termination
  by (relation "measure (\<lambda>(K, n, Page, Gs, tr). n - Page)") auto

declare share_pages.simps [simp del]

text \<open>The unwinding loop of \<^verbatim>\<open>fail8\<close>:
  \<^verbatim>\<open>while (Page > 0) { ASSERT(NT_SUCCESS(Revoke(Grants[Page - 1]))); --Page; }\<close>.
  The result is \<open>False\<close> when an assertion failed.\<close>

fun revoke_shared :: "kernel \<Rightarrow> nat list \<Rightarrow> nat \<Rightarrow> event list \<Rightarrow> bool \<times> event list" where
  "revoke_shared K Gs 0 tr = (True, tr)"
| "revoke_shared K Gs (Suc Page) tr =
     (let status = GNTTAB_RevokeForeignAccess K (Gs ! Page);
          tr' = tr @ [Ev_RevokeForeignAccess (Gs ! Page) status]
      in if NT_SUCCESS status then revoke_shared K Gs Page tr' else (False, tr'))"

text \<open>The labels \<^verbatim>\<open>fail4\<close> to \<^verbatim>\<open>fail11\<close> of \<^verbatim>\<open>IoctlGnttabPermitForeignAccess\<close>; each
  falls through to the next lower one. \<^verbatim>\<open>fail5\<close> is \<^verbatim>\<open>fail4\<close>, and \<^verbatim>\<open>fail9\<close>,
  \<^verbatim>\<open>fail10\<close> are \<^verbatim>\<open>fail8\<close>.\<close>

definition Permit_fail4 ::
  "NTSTATUS \<Rightarrow> XENIFACE_FDO \<Rightarrow> XENIFACE_GRANT_CONTEXT \<Rightarrow> outcome \<times> XENIFACE_FDO" where
  "Permit_fail4 status Fdo Context = (Return status, log (Ev_ExFreePoolWithTag (This Context)) Fdo)"

definition Permit_fail6 ::
  "NTSTATUS \<Rightarrow> XENIFACE_FDO \<Rightarrow> XENIFACE_GRANT_CONTEXT \<Rightarrow> outcome \<times> XENIFACE_FDO" where
  "Permit_fail6 status Fdo Context =
     Permit_fail4 status (log (Ev_ExFreePoolWithTag (Grants Context)) Fdo) Context"

definition Permit_fail7 ::
  "NTSTATUS \<Rightarrow> XENIFACE_FDO \<Rightarrow> XENIFACE_GRANT_CONTEXT \<Rightarrow> outcome \<times> XENIFACE_FDO" where
  "Permit_fail7 status Fdo Context =
     Permit_fail6 status (log (Ev_ExFreePoolWithTag (KernelVa Context)) Fdo) Context"

definition Permit_fail8 ::
  "kernel \<Rightarrow> NTSTATUS \<Rightarrow> XENIFACE_FDO \<Rightarrow> XENIFACE_GRANT_CONTEXT \<Rightarrow> nat
     \<Rightarrow> outcome \<times> XENIFACE_FDO" where
  "Permit_fail8 K status Fdo Context Page =
     (case revoke_shared K (GrantsArray Context) Page (trace Fdo) of
        (False, tr) \<Rightarrow> (BugCheck, Fdo\<lparr>trace := tr\<rparr>)
      | (True, tr) \<Rightarrow>
          Permit_fail7 status (log (Ev_IoFreeMdl (Mdl Context)) (Fdo\<lparr>trace := tr\<rparr>)) Context)"

definition Permit_fail11 ::
  "kernel \<Rightarrow> NTSTATUS \<Rightarrow> XENIFACE_FDO \<Rightarrow> XENIFACE_GRANT_CONTEXT \<Rightarrow> nat
     \<Rightarrow> outcome \<times> XENIFACE_FDO" where
  "Permit_fail11 K status Fdo Context Page =
     Permit_fail8 K status
       (log (Ev_MmUnmapLockedPages (UserVa Context) (Mdl Context)) Fdo) Context Page"

text \<open>The second half of \<^verbatim>\<open>IoctlGnttabPermitForeignAccess\<close>, from \<^verbatim>\<open>// perform sharing\<close>
  on: share every page, map the buffer into user mode, queue the IRP.\<close>

definition Permit_share_and_queue ::
  "kernel \<Rightarrow> XENIFACE_FDO \<Rightarrow> XENIFACE_GRANT_CONTEXT \<Rightarrow> nat \<Rightarrow> outcome \<times> XENIFACE_FDO" where
  "Permit_share_and_queue K Fdo Context Irp =
     (case share_pages K (unat (NumberPages Context)) 0 (GrantsArray Context) (trace Fdo) of
        (Some status, Page, Gs, tr) \<Rightarrow>
          Permit_fail8 K status (Fdo\<lparr>trace := tr\<rparr>) (Context\<lparr>GrantsArray := Gs\<rparr>) Page
      | (None, Page, Gs, tr) \<Rightarrow>
          (let Context1 = Context\<lparr>GrantsArray := Gs\<rparr>;
               Mapped = MmMapLockedPagesSpecifyCache K (Mdl Context1);
               Fdo1 = log (Ev_MmMapLockedPages (Mdl Context1) Mapped) (Fdo\<lparr>trace := tr\<rparr>)
           in case Mapped of
                Inl ExceptionCode \<Rightarrow> Permit_fail8 K ExceptionCode Fdo1 Context1 Page
              | Inr Va \<Rightarrow>
                  (let Context2 = Context1\<lparr>UserVa := Va\<rparr> in
                   if Va = NULL then Permit_fail8 K STATUS_UNSUCCESSFUL Fdo1 Context2 Page
                   else
                     (case IoCsqInsertIrpEx (IrpQueue Fdo1) (Irp, GrantContext Context2) of
                        (status, Queue) \<Rightarrow>
                          if \<not> NT_SUCCESS status
                          then Permit_fail11 K status Fdo1 Context2 Page
                          else (Return STATUS_PENDING, Fdo1\<lparr>IrpQueue := Queue\<rparr>)))))"

text \<open>\<^verbatim>\<open>IoctlGnttabPermitForeignAccess\<close>. The contents of the buffers are not part of the
  model, so the \<^verbatim>\<open>RtlZeroMemory\<close> calls, \<^verbatim>\<open>MmBuildMdlForNonPagedPool\<close> and the debug
  output leave no trace. The assertion after \<^verbatim>\<open>MmBuildMdlForNonPagedPool\<close> compares the
  byte count of the MDL with the length that \<^verbatim>\<open>IoAllocateMdl\<close> has just been given; an
  MDL has the length it was allocated for, so the assertion holds. The bus call of the
  sharing loop gets the frame number of the page from the MDL; its answer is a function
  of the page index here.\<close>

definition IoctlGnttabPermitForeignAccess ::
  "abi \<Rightarrow> kernel \<Rightarrow> XENIFACE_FDO \<Rightarrow> XENIFACE_GNTTAB_PERMIT_FOREIGN_ACCESS_IN
     \<Rightarrow> ULONG \<Rightarrow> ULONG \<Rightarrow> nat \<Rightarrow> outcome \<times> XENIFACE_FDO" where
  "IoctlGnttabPermitForeignAccess A K Fdo In InLen OutLen Irp =
     (if unat InLen \<noteq> sizeof_PERMIT_FOREIGN_ACCESS_IN A \<or> OutLen \<noteq> 0
        then (Return STATUS_INVALID_BUFFER_SIZE, Fdo)
      else if gnttab_parameters_invalid (In_NumberPages In) (In_Flags In) (In_NotifyOffset In)
        then (Return STATUS_INVALID_PARAMETER, Fdo)
      else
        (let P = ExAllocatePoolWithTag K Pool_GRANT_CONTEXT;
             Fdo1 = log (Ev_ExAllocatePoolWithTag Pool_GRANT_CONTEXT P) Fdo
         in if P = NULL then (Return STATUS_NO_MEMORY, Fdo1)
         else
          (let Context = \<lparr>This = P,
                 Id' = \<lparr>Type = XENIFACE_CONTEXT_GRANT, Process = PsGetCurrentProcess K,
                       RequestId = In_RequestId In\<rparr>,
                 RemoteDomain = In_RemoteDomain In, NumberPages = In_NumberPages In,
                 Flags = In_Flags In, NotifyOffset = In_NotifyOffset In,
                 NotifyPort = In_NotifyPort In,
                 KernelVa = NULL, UserVa = NULL, Mdl = NULL, Grants = NULL, GrantsArray = []\<rparr>
           in if FindGnttabIrp Fdo1 (Id' Context) \<noteq> None
              then Permit_fail4 STATUS_INVALID_PARAMETER Fdo1 Context
           else
            (let G = ExAllocatePoolWithTag K (Pool_Grants (unat (NumberPages Context)));
                 Fdo2 = log (Ev_ExAllocatePoolWithTag (Pool_Grants (unat (NumberPages Context))) G) Fdo1;
                 Context1 = Context\<lparr>Grants := G\<rparr>
             in if G = NULL then Permit_fail4 STATUS_NO_MEMORY Fdo2 Context1
             else
              (let Context2 = Context1\<lparr>GrantsArray := replicate (unat (NumberPages Context1)) NULL\<rparr>;
                   Bytes = NumberPages Context2 * PAGE_SIZE;
                   Va = ExAllocatePoolWithTag K (Pool_KernelVa Bytes);
                   Fdo3 = log (Ev_ExAllocatePoolWithTag (Pool_KernelVa Bytes) Va) Fdo2;
                   Context3 = Context2\<lparr>KernelVa := Va\<rparr>
               in if Va = NULL then Permit_fail6 STATUS_NO_MEMORY Fdo3 Context3
               else
                (let M = IoAllocateMdl K (KernelVa Context3) Bytes;
                     Fdo4 = log (Ev_IoAllocateMdl (KernelVa Context3) Bytes M) Fdo3;
                     Context4 = Context3\<lparr>Mdl := M\<rparr>
                 in if M = NULL then Permit_fail7 STATUS_NO_MEMORY Fdo4 Context4
                    else Permit_share_and_queue K Fdo4 Context4 Irp))))))"

text \<open>\<^verbatim>\<open>CONTAINING_RECORD(ContextId, XENIFACE_GRANT_CONTEXT, Id)\<close> is an unchecked cast.
  On a context of the other kind the C code would read a map context as a grant
  context; the model stops there (\<open>None\<close>). The queue only returns contexts of the kind
  asked for.\<close>

definition as_GRANT_CONTEXT :: "pending_context \<Rightarrow> XENIFACE_GRANT_CONTEXT option" where
  "as_GRANT_CONTEXT c = (case c of GrantContext g \<Rightarrow> Some g | MapContext m \<Rightarrow> None)"

definition as_MAP_CONTEXT :: "pending_context \<Rightarrow> XENIFACE_MAP_CONTEXT option" where
  "as_MAP_CONTEXT c = (case c of MapContext m \<Rightarrow> Some m | GrantContext g \<Rightarrow> None)"

text \<open>\<^verbatim>\<open>IoctlGnttabGetGrantResult\<close>: the result is the status, the output block
  (\<^verbatim>\<open>Out->Address\<close>, \<^verbatim>\<open>Out->References\<close>) when there is one, \<^verbatim>\<open>*Info\<close>, and the
  device extension, which the handler only reads (it peeks at the queue).\<close>

definition IoctlGnttabGetGrantResult ::
  "abi \<Rightarrow> kernel \<Rightarrow> XENIFACE_FDO \<Rightarrow> REQUEST_ID \<Rightarrow> ULONG \<Rightarrow> ULONG
     \<Rightarrow> outcome \<times> (nat \<times> ULONG list) option \<times> ULONG \<times> XENIFACE_FDO" where
  "IoctlGnttabGetGrantResult A K Fdo In_RequestId' InLen OutLen =
     (if unat InLen \<noteq> sizeof_GET_GRANT_RESULT_IN A
        then (Return STATUS_INVALID_BUFFER_SIZE, None, 0, Fdo)
      else
        (let LocalId = \<lparr>Type = XENIFACE_CONTEXT_GRANT, Process = PsGetCurrentProcess K,
                    RequestId = In_RequestId'\<rparr>
         in case CsqPeekNextIrp (IrpQueue Fdo) LocalId of
              None \<Rightarrow> (Return STATUS_NOT_FOUND, None, 0, Fdo)
            | Some Irp \<Rightarrow>
                (case as_GRANT_CONTEXT (snd Irp) of
                   None \<Rightarrow> (BugCheck, None, 0, Fdo)
                 | Some Context \<Rightarrow>
                     if unat OutLen \<noteq> sizeof_GET_GRANT_RESULT_OUT A
                                        + sizeof_ULONG * unat (NumberPages Context)
                     then (Return STATUS_INVALID_BUFFER_SIZE, None, 0, Fdo)
                     else (Return STATUS_SUCCESS,
                           Some (UserVa Context,
                                 map (\<lambda>Page. GNTTAB_GetReference K (GrantsArray Context ! Page))
                                     [0 ..< unat (NumberPages Context)]),
                           OutLen, Fdo))))"

text \<open>The loop of \<^verbatim>\<open>GnttabFreeGrant\<close>:
  \<^verbatim>\<open>for (Page = 0; Page < Context->NumberPages; Page++) { status = Revoke(Grants[Page]);
  ASSERT(NT_SUCCESS(status)); }\<close>.\<close>

function stop_sharing ::
  "kernel \<Rightarrow> nat \<Rightarrow> nat \<Rightarrow> nat list \<Rightarrow> event list \<Rightarrow> bool \<times> event list" where
  "stop_sharing K n Page Gs tr =
     (if Page < n then
        (let status = GNTTAB_RevokeForeignAccess K (Gs ! Page);
             tr' = tr @ [Ev_RevokeForeignAccess (Gs ! Page) status]
         in if NT_SUCCESS status then stop_sharing K n (Page + 1) Gs tr' else (False, tr'))
      else (True, tr))"
  by pat_completeness auto
termination
  by (relation "measure (\<lambda>(K, n, Page, Gs, tr). n - Page)") auto

declare stop_sharing.simps [simp del]

text \<open>The notification that both teardown functions start with.\<close>

definition gnttab_notify ::
  "XENIFACE_FDO \<Rightarrow> 'a gnttab_context_scheme \<Rightarrow> XENIFACE_FDO" where
  "gnttab_notify Fdo Context =
     (let Fdo1 = (if XENIFACE_GNTTAB_USE_NOTIFY_OFFSET \<in> Flags Context
                  then log (Ev_NotifyOffsetCleared (KernelVa Context) (NotifyOffset Context)) Fdo
                  else Fdo)
      in if XENIFACE_GNTTAB_USE_NOTIFY_PORT \<in> Flags Context
         then snd (EvtchnNotify Fdo1 (NotifyPort Context) NULL)
         else Fdo1)"

definition GnttabFreeGrant ::
  "kernel \<Rightarrow> XENIFACE_FDO \<Rightarrow> XENIFACE_GRANT_CONTEXT \<Rightarrow> bool \<times> XENIFACE_FDO" where
  "GnttabFreeGrant K Fdo Context =
     (let Fdo1 = gnttab_notify Fdo Context;
          Fdo2 = log (Ev_MmUnmapLockedPages (UserVa Context) (Mdl Context)) Fdo1
      in case stop_sharing K (unat (NumberPages Context)) 0 (GrantsArray Context) (trace Fdo2) of
           (False, tr) \<Rightarrow> (False, Fdo2\<lparr>trace := tr\<rparr>)
         | (True, tr) \<Rightarrow>
             (True,
              log (Ev_ExFreePoolWithTag (This Context))
               (log (Ev_ExFreePoolWithTag (Grants Context))
                 (log (Ev_ExFreePoolWithTag (KernelVa Context))
                   (log (Ev_IoFreeMdl (Mdl Context)) (Fdo2\<lparr>trace := tr\<rparr>))))))"

definition IoctlGnttabRevokeForeignAccess ::
  "abi \<Rightarrow> kernel \<Rightarrow> XENIFACE_FDO \<Rightarrow> REQUEST_ID \<Rightarrow> ULONG \<Rightarrow> ULONG \<Rightarrow> outcome \<times> XENIFACE_FDO" where
  "IoctlGnttabRevokeForeignAccess A K Fdo In_RequestId' InLen OutLen =
     (if unat InLen \<noteq> sizeof_REVOKE_FOREIGN_ACCESS_IN A
        then (Return STATUS_INVALID_BUFFER_SIZE, Fdo)
      else
        (let LocalId = \<lparr>Type = XENIFACE_CONTEXT_GRANT, Process = PsGetCurrentProcess K,
                    RequestId = In_RequestId'\<rparr>
         in case IoCsqRemoveNextIrp (IrpQueue Fdo) LocalId of
              (None, Queue) \<Rightarrow> (Return STATUS_NOT_FOUND, Fdo)
            | (Some PendingIrp, Queue) \<Rightarrow>
                (case as_GRANT_CONTEXT (snd PendingIrp) of
                   None \<Rightarrow> (BugCheck, Fdo\<lparr>IrpQueue := Queue\<rparr>)
                 | Some Context \<Rightarrow>
                     (case GnttabFreeGrant K (Fdo\<lparr>IrpQueue := Queue\<rparr>) Context of
                        (False, Fdo1) \<Rightarrow> (BugCheck, Fdo1)
                      | (True, Fdo1) \<Rightarrow>
                          (Return STATUS_SUCCESS,
                           log (Ev_IoCompleteRequest (fst PendingIrp) STATUS_SUCCESS) Fdo1)))))"

section \<open>Map Context Manager\<close>

text \<open>The labels \<^verbatim>\<open>fail5\<close> to \<^verbatim>\<open>fail11\<close> of \<^verbatim>\<open>IoctlGnttabMapForeignPages\<close>
  (\<^verbatim>\<open>fail6\<close> is \<^verbatim>\<open>fail5\<close>, \<^verbatim>\<open>fail10\<close> is \<^verbatim>\<open>fail9\<close>).\<close>

definition Map_fail5 ::
  "NTSTATUS \<Rightarrow> XENIFACE_FDO \<Rightarrow> XENIFACE_MAP_CONTEXT \<Rightarrow> outcome \<times> XENIFACE_FDO" where
  "Map_fail5 status Fdo Context = (Return status, log (Ev_ExFreePoolWithTag (This Context)) Fdo)"

definition Map_fail7 ::
  "kernel \<Rightarrow> NTSTATUS \<Rightarrow> XENIFACE_FDO \<Rightarrow> XENIFACE_MAP_CONTEXT \<Rightarrow> outcome \<times> XENIFACE_FDO" where
  "Map_fail7 K status Fdo Context =
     (let s = GNTTAB_UnmapForeignPages K (Address Context);
          Fdo1 = log (Ev_UnmapForeignPages (Address Context) s) Fdo
      in if NT_SUCCESS s then Map_fail5 status Fdo1 Context else (BugCheck, Fdo1))"

definition Map_fail8 ::
  "kernel \<Rightarrow> NTSTATUS \<Rightarrow> XENIFACE_FDO \<Rightarrow> XENIFACE_MAP_CONTEXT \<Rightarrow> outcome \<times> XENIFACE_FDO" where
  "Map_fail8 K status Fdo Context =
     Map_fail7 K status
       (log (Ev_MmUnmapIoSpace (KernelVa Context) (NumberPages Context * PAGE_SIZE)) Fdo) Context"

definition Map_fail9 ::
  "kernel \<Rightarrow> NTSTATUS \<Rightarrow> XENIFACE_FDO \<Rightarrow> XENIFACE_MAP_CONTEXT \<Rightarrow> outcome \<times> XENIFACE_FDO" where
  "Map_fail9 K status Fdo Context =
     Map_fail8 K status (log (Ev_IoFreeMdl (Mdl Context)) Fdo) Context"

definition Map_fail11 ::
  "kernel \<Rightarrow> NTSTATUS \<Rightarrow> XENIFACE_FDO \<Rightarrow> XENIFACE_MAP_CONTEXT \<Rightarrow> outcome \<times> XENIFACE_FDO" where
  "Map_fail11 K status Fdo Context =
     Map_fail9 K status (log (Ev_MmUnmapLockedPages (UserVa Context) (Mdl Context)) Fdo) Context"

text \<open>The second half of \<^verbatim>\<open>IoctlGnttabMapForeignPages\<close>, from the bus call on.\<close>

definition Map_map_and_queue ::
  "kernel \<Rightarrow> XENIFACE_FDO \<Rightarrow> XENIFACE_MAP_CONTEXT \<Rightarrow> ULONG list \<Rightarrow> nat
     \<Rightarrow> outcome \<times> XENIFACE_FDO" where
  "Map_map_and_queue K Fdo Context References Irp =
     (let (status, Addr) = GNTTAB_MapForeignPages K References;
          Fdo1 = log (Ev_MapForeignPages References status Addr) Fdo;
          Context1 = Context\<lparr>Address := Addr\<rparr>
      in if \<not> NT_SUCCESS status then Map_fail5 status Fdo1 Context1
      else
       (let Bytes = NumberPages Context1 * PAGE_SIZE;
            Va = MmMapIoSpace K (Address Context1) Bytes;
            Fdo2 = log (Ev_MmMapIoSpace (Address Context1) Bytes Va) Fdo1;
            Context2 = Context1\<lparr>KernelVa := Va\<rparr>
        in if Va = NULL then Map_fail7 K STATUS_NO_MEMORY Fdo2 Context2
        else
         (let M = IoAllocateMdl K (KernelVa Context2) Bytes;
              Fdo3 = log (Ev_IoAllocateMdl (KernelVa Context2) Bytes M) Fdo2;
              Context3 = Context2\<lparr>Mdl := M\<rparr>
          in if M = NULL then Map_fail8 K STATUS_NO_MEMORY Fdo3 Context3
          else
           (let Mapped = MmMapLockedPagesSpecifyCache K (Mdl Context3);
                Fdo4 = log (Ev_MmMapLockedPages (Mdl Context3) Mapped) Fdo3
            in case Mapped of
                 Inl ExceptionCode \<Rightarrow> Map_fail9 K ExceptionCode Fdo4 Context3
               | Inr UVa \<Rightarrow>
                   (let Context4 = Context3\<lparr>UserVa := UVa\<rparr> in
                    if UVa = NULL then Map_fail9 K STATUS_UNSUCCESSFUL Fdo4 Context4
                    else
                      (case IoCsqInsertIrpEx (IrpQueue Fdo4) (Irp, MapContext Context4) of
                         (status', Queue) \<Rightarrow>
                           if \<not> NT_SUCCESS status'
                           then Map_fail11 K status' Fdo4 Context4
                           else (Return STATUS_PENDING, Fdo4\<lparr>IrpQueue := Queue\<rparr>)))))))"

definition IoctlGnttabMapForeignPages ::
  "abi \<Rightarrow> kernel \<Rightarrow> XENIFACE_FDO \<Rightarrow> XENIFACE_GNTTAB_MAP_FOREIGN_PAGES_IN
     \<Rightarrow> ULONG \<Rightarrow> ULONG \<Rightarrow> nat \<Rightarrow> outcome \<times> XENIFACE_FDO" where
  "IoctlGnttabMapForeignPages A K Fdo In InLen OutLen Irp =
     (if unat InLen < sizeof_MAP_FOREIGN_PAGES_IN A \<or> OutLen \<noteq> 0
        then (Return STATUS_INVALID_BUFFER_SIZE, Fdo)
      else if gnttab_parameters_invalid (In_NumberPages In) (In_Flags In) (In_NotifyOffset In)
        then (Return STATUS_INVALID_PARAMETER, Fdo)
      else if unat InLen \<noteq> sizeof_MAP_FOREIGN_PAGES_IN A + sizeof_ULONG * unat (In_NumberPages In)
        then (Return STATUS_INVALID_BUFFER_SIZE, Fdo)
      else
        (let P = ExAllocatePoolWithTag K Pool_MAP_CONTEXT;
             Fdo1 = log (Ev_ExAllocatePoolWithTag Pool_MAP_CONTEXT P) Fdo
         in if P = NULL then (Return STATUS_NO_MEMORY, Fdo1)
         else
          (let Context = \<lparr>This = P,
                 Id' = \<lparr>Type = XENIFACE_CONTEXT_MAP, Process = PsGetCurrentProcess K,
                       RequestId = In_RequestId In\<rparr>,
                 RemoteDomain = In_RemoteDomain In, NumberPages = In_NumberPages In,
                 Flags = In_Flags In, NotifyOffset = In_NotifyOffset In,
                 NotifyPort = In_NotifyPort In,
                 KernelVa = NULL, UserVa = NULL, Mdl = NULL, Address = NULL\<rparr>
           in if FindGnttabIrp Fdo1 (Id' Context) \<noteq> None
              then Map_fail5 STATUS_INVALID_PARAMETER Fdo1 Context
              else Map_map_and_queue K Fdo1 Context
                     (take (unat (NumberPages Context)) (In_References In)) Irp)))"

definition IoctlGnttabGetMapResult ::
  "abi \<Rightarrow> kernel \<Rightarrow> XENIFACE_FDO \<Rightarrow> REQUEST_ID \<Rightarrow> ULONG \<Rightarrow> ULONG
     \<Rightarrow> outcome \<times> nat option \<times> ULONG \<times> XENIFACE_FDO" where
  "IoctlGnttabGetMapResult A K Fdo In_RequestId' InLen OutLen =
     (if unat InLen \<noteq> sizeof_GET_MAP_RESULT_IN A \<or> unat OutLen \<noteq> sizeof_GET_MAP_RESULT_OUT A
        then (Return STATUS_INVALID_BUFFER_SIZE, None, 0, Fdo)
      else
        (let LocalId = \<lparr>Type = XENIFACE_CONTEXT_MAP, Process = PsGetCurrentProcess K,
                    RequestId = In_RequestId'\<rparr>
         in case CsqPeekNextIrp (IrpQueue Fdo) LocalId of
              None \<Rightarrow> (Return STATUS_NOT_FOUND, None, 0, Fdo)
            | Some Irp \<Rightarrow>
                (case as_MAP_CONTEXT (snd Irp) of
                   None \<Rightarrow> (BugCheck, None, 0, Fdo)
                 | Some Context \<Rightarrow>
                     (Return STATUS_SUCCESS, Some (UserVa Context), OutLen, Fdo))))"

definition GnttabFreeMap ::
  "kernel \<Rightarrow> XENIFACE_FDO \<Rightarrow> XENIFACE_MAP_CONTEXT \<Rightarrow> bool \<times> XENIFACE_FDO" where
  "GnttabFreeMap K Fdo Context =
     (let Fdo1 = gnttab_notify Fdo Context;
          Fdo2 = log (Ev_MmUnmapLockedPages (UserVa Context) (Mdl Context)) Fdo1;
          Fdo3 = log (Ev_IoFreeMdl (Mdl Context)) Fdo2;
          Fdo4 = log (Ev_MmUnmapIoSpace (KernelVa Context) (NumberPages Context * PAGE_SIZE)) Fdo3;
          status = GNTTAB_UnmapForeignPages K (Address Context);
          Fdo5 = log (Ev_UnmapForeignPages (Address Context) status) Fdo4
      in if NT_SUCCESS status then (True, log (Ev_ExFreePoolWithTag (This Context)) Fdo5)
         else (False, Fdo5))"

text \<open>\<^verbatim>\<open>IoctlGnttabUnmapForeignPages\<close>. \<open>In_RequestId'\<close> is what the handler reads at
  \<^verbatim>\<open>In->RequestId\<close>, whatever the length of the input block is. The size check is the
  source's: \<^verbatim>\<open>InLen != sizeof(XENIFACE_GNTTAB_UNMAP_FOREIGN_PAGES_IN) && OutLen != 0\<close>.\<close>

definition IoctlGnttabUnmapForeignPages ::
  "abi \<Rightarrow> kernel \<Rightarrow> XENIFACE_FDO \<Rightarrow> REQUEST_ID \<Rightarrow> ULONG \<Rightarrow> ULONG \<Rightarrow> outcome \<times> XENIFACE_FDO" where
  "IoctlGnttabUnmapForeignPages A K Fdo In_RequestId' InLen OutLen =
     (if unat InLen \<noteq> sizeof_UNMAP_FOREIGN_PAGES_IN A \<and> OutLen \<noteq> 0
        then (Return STATUS_INVALID_BUFFER_SIZE, Fdo)
      else
        (let LocalId = \<lparr>Type = XENIFACE_CONTEXT_MAP, Process = PsGetCurrentProcess K,
                    RequestId = In_RequestId'\<rparr>
         in case IoCsqRemoveNextIrp (IrpQueue Fdo) LocalId of
              (None, Queue) \<Rightarrow> (Return STATUS_NOT_FOUND, Fdo)
            | (Some PendingIrp, Queue) \<Rightarrow>
                (case as_MAP_CONTEXT (snd PendingIrp) of
                   None \<Rightarrow> (BugCheck, Fdo\<lparr>IrpQueue := Queue\<rparr>)
                 | Some Context \<Rightarrow>
                     (case GnttabFreeMap K (Fdo\<lparr>IrpQueue := Queue\<rparr>) Context of
                        (False, Fdo1) \<Rightarrow> (BugCheck, Fdo1)
                      | (True, Fdo1) \<Rightarrow>
                          (Return STATUS_SUCCESS,
                           log (Ev_IoCompleteRequest (fst PendingIrp) STATUS_SUCCESS) Fdo1)))))"

section \<open>Completing a cancelled operation\<close>


section \<open>Store watches and event channels\<close>

text \<open>The watch list and the channel list are circular doubly-linked lists with a head
  in the device extension. Every walk in the source has the shape
  \<^verbatim>\<open>Node = Head.Flink; while (Node->Flink != Head.Flink) { Context = CONTAINING_RECORD(Node);
  Node = Node->Flink; ... }\<close>: the successor is read before the body may unlink the
  current entry, and \<^verbatim>\<open>Node->Flink == Head.Flink\<close> holds exactly when \<open>Node\<close> is the head
  again, so the body runs once for each entry, in list order. The walks are recursions
  over the entries still to visit; \<^verbatim>\<open>RemoveEntryList\<close> takes the entry out of the list.
  The loops over the linked entries themselves, and the proof that they do the same,
  follow in the section on the lists as linked structures.\<close>

definition RemoveEntryList :: "'a \<Rightarrow> 'a list \<Rightarrow> 'a list" where
  "RemoveEntryList Entry List = remove1 Entry List"

definition InsertTailList :: "'a list \<Rightarrow> 'a \<Rightarrow> 'a list" where
  "InsertTailList List Entry = List @ [Entry]"

definition StoreFreeWatch ::
  "kernel \<Rightarrow> XENIFACE_FDO \<Rightarrow> XENIFACE_STORE_CONTEXT \<Rightarrow> bool \<times> XENIFACE_FDO" where
  "StoreFreeWatch K Fdo Context =
     (let status = STORE_WatchRemove K (Watch Context);
          Fdo1 = log (Ev_StoreWatchRemove (Watch Context) status) Fdo
      in if NT_SUCCESS status
         then (True, log (Ev_ExFreePoolWithTag (This Context))
                       (log (Ev_ObDereferenceObject (Event Context)) Fdo1))
         else (False, Fdo1))"

text \<open>The loop of \<^verbatim>\<open>IoctlStoreRemoveWatch\<close>. The local variable \<open>Context\<close> starts as
  \<open>NULL\<close> (\<open>None\<close>) and is assigned at every entry visited; a matching entry is unlinked
  and ends the loop. The result is the value of \<open>Context\<close> after the loop, and the list.\<close>

fun RemoveWatch_walk ::
  "nat \<Rightarrow> nat \<Rightarrow> XENIFACE_STORE_CONTEXT list \<Rightarrow> XENIFACE_STORE_CONTEXT option
     \<Rightarrow> XENIFACE_STORE_CONTEXT list
     \<Rightarrow> XENIFACE_STORE_CONTEXT option \<times> XENIFACE_STORE_CONTEXT list" where
  "RemoveWatch_walk In_Context FileObject' [] Context List = (Context, List)"
| "RemoveWatch_walk In_Context FileObject' (Node # Nodes) Context List =
     (if This Node \<noteq> In_Context \<or> FileObject Node \<noteq> FileObject'
      then RemoveWatch_walk In_Context FileObject' Nodes (Some Node) List
      else (Some Node, RemoveEntryList Node List))"

definition IoctlStoreRemoveWatch ::
  "abi \<Rightarrow> kernel \<Rightarrow> XENIFACE_FDO \<Rightarrow> nat \<Rightarrow> ULONG \<Rightarrow> ULONG \<Rightarrow> nat \<Rightarrow> outcome \<times> XENIFACE_FDO" where
  "IoctlStoreRemoveWatch A K Fdo In_Context InLen OutLen FileObject' =
     (if unat InLen \<noteq> sizeof_STORE_REMOVE_WATCH_IN A \<or> OutLen \<noteq> 0
        then (Return STATUS_INVALID_BUFFER_SIZE, Fdo)
      else
        (let Fdo1 = log (Ev_KeAcquireSpinLock StoreWatchLock) Fdo;
             (Context, List) = RemoveWatch_walk In_Context FileObject'
                                 (StoreWatchList Fdo1) None (StoreWatchList Fdo1);
             Fdo2 = log (Ev_KeReleaseSpinLock StoreWatchLock) (Fdo1\<lparr>StoreWatchList := List\<rparr>)
         in case Context of
              None \<Rightarrow> (Return STATUS_NOT_FOUND, Fdo2)
            | Some Context' \<Rightarrow>
                if This Context' \<noteq> In_Context then (Return STATUS_NOT_FOUND, Fdo2)
                else (case StoreFreeWatch K Fdo2 Context' of
                        (False, Fdo3) \<Rightarrow> (BugCheck, Fdo3)
                      | (True, Fdo3) \<Rightarrow> (Return STATUS_SUCCESS, Fdo3))))"

text \<open>\<^verbatim>\<open>EvtchnFree\<close>: mark inactive, close the channel, flush the DPCs, drop the event
  reference, free the context.\<close>

definition EvtchnFree :: "XENIFACE_FDO \<Rightarrow> XENIFACE_EVTCHN_CONTEXT \<Rightarrow> XENIFACE_FDO" where
  "EvtchnFree Fdo Context =
     log (Ev_ExFreePoolWithTag (This Context))
      (log (Ev_ObDereferenceObject (EvtchnEvent Context))
        (log Ev_KeFlushQueuedDpcs
          (log (Ev_EvtchnClose (Channel Context))
            (log (Ev_SetInactive (This Context)) Fdo))))"

text \<open>The three loops of \<^verbatim>\<open>XenIfaceCleanup\<close>: the watches (unlinked and freed inside the
  walk), the channels (moved to the local list \<open>ToFree\<close>), and the walk over \<open>ToFree\<close>.\<close>

fun Cleanup_watches ::
  "kernel \<Rightarrow> nat \<Rightarrow> XENIFACE_STORE_CONTEXT list \<Rightarrow> XENIFACE_FDO \<Rightarrow> bool \<times> XENIFACE_FDO" where
  "Cleanup_watches K FileObject' [] Fdo = (True, Fdo)"
| "Cleanup_watches K FileObject' (StoreContext # Nodes) Fdo =
     (if FileObject StoreContext \<noteq> FileObject' then Cleanup_watches K FileObject' Nodes Fdo
      else
        (case StoreFreeWatch K
                (Fdo\<lparr>StoreWatchList := RemoveEntryList StoreContext (StoreWatchList Fdo)\<rparr>)
                StoreContext of
           (False, Fdo1) \<Rightarrow> (False, Fdo1)
         | (True, Fdo1) \<Rightarrow> Cleanup_watches K FileObject' Nodes Fdo1))"

fun Cleanup_detach ::
  "nat \<Rightarrow> XENIFACE_EVTCHN_CONTEXT list \<Rightarrow> XENIFACE_EVTCHN_CONTEXT list
     \<Rightarrow> XENIFACE_EVTCHN_CONTEXT list
     \<Rightarrow> XENIFACE_EVTCHN_CONTEXT list \<times> XENIFACE_EVTCHN_CONTEXT list" where
  "Cleanup_detach FileObject' [] ToFree List = (ToFree, List)"
| "Cleanup_detach FileObject' (EvtchnContext # Nodes) ToFree List =
     (if EvtchnFileObject EvtchnContext \<noteq> FileObject'
      then Cleanup_detach FileObject' Nodes ToFree List
      else Cleanup_detach FileObject' Nodes
             (InsertTailList ToFree EvtchnContext) (RemoveEntryList EvtchnContext List))"

fun Cleanup_free ::
  "XENIFACE_EVTCHN_CONTEXT list \<Rightarrow> XENIFACE_FDO \<Rightarrow> XENIFACE_FDO" where
  "Cleanup_free [] Fdo = Fdo"
| "Cleanup_free (EvtchnContext # Nodes) Fdo = Cleanup_free Nodes (EvtchnFree Fdo EvtchnContext)"

definition XenIfaceCleanup ::
  "kernel \<Rightarrow> XENIFACE_FDO \<Rightarrow> nat \<Rightarrow> bool \<times> XENIFACE_FDO" where
  "XenIfaceCleanup K Fdo FileObject' =
     (let Fdo1 = log (Ev_KeAcquireSpinLock StoreWatchLock) Fdo in
      case Cleanup_watches K FileObject' (StoreWatchList Fdo1) Fdo1 of
        (False, Fdo2) \<Rightarrow> (False, Fdo2)
      | (True, Fdo2) \<Rightarrow>
          (let Fdo3 = log (Ev_KeReleaseSpinLock StoreWatchLock) Fdo2;
               Fdo4 = log (Ev_KeAcquireSpinLock EvtchnLock) Fdo3;
               (ToFree, List) = Cleanup_detach FileObject' (EvtchnList Fdo4) [] (EvtchnList Fdo4);
               Fdo5 = log (Ev_KeReleaseSpinLock EvtchnLock) (Fdo4\<lparr>EvtchnList := List\<rparr>)
           in (True, Cleanup_free ToFree Fdo5)))"

section \<open>The lists as linked structures\<close>

text \<open>The recursions of the last section take for granted that a walk visits every entry
  once, in list order, and that unlinking the current entry does not disturb the walk. In
  the source a list is a ring of \<^verbatim>\<open>LIST_ENTRY\<close> structures behind a list head, and every
  walk is written
  \<^verbatim>\<open>Node = ListHead.Flink; while (Node->Flink != ListHead.Flink) { Context = ...; Node = Node->Flink; ... }\<close>.
  This section has the loops as they are written, over a memory of list entries. The
  section on the walks on the linked lists below proves that on a well-formed ring each
  loop returns, visits the entries that the recursion over the list visits, in the same
  order, and leaves the ring of the list that the recursion returns.

  An entry is named by the address of the context that contains it:
  \<^verbatim>\<open>CONTAINING_RECORD(Node, ..., Entry)\<close> and \<^verbatim>\<open>&Context->Entry\<close> undo each other, and the
  two addresses are identified here. \<open>Object\<close> reads the context at an address.\<close>

record LIST_ENTRY =
  Flink :: nat
  Blink :: nat

type_synonym memory = "nat \<Rightarrow> LIST_ENTRY"

text \<open>\<^verbatim>\<open>InitializeListHead\<close>, \<^verbatim>\<open>RemoveEntryList\<close> and \<^verbatim>\<open>InsertTailList\<close>, the inline
  functions of \<^verbatim>\<open>wdm.h\<close>, on the memory: the assignments in the order in which the
  header makes them.\<close>

definition InitializeListHead_links :: "memory \<Rightarrow> nat \<Rightarrow> memory" where
  "InitializeListHead_links M ListHead = M(ListHead := \<lparr>Flink = ListHead, Blink = ListHead\<rparr>)"

definition RemoveEntryList_links :: "memory \<Rightarrow> nat \<Rightarrow> memory" where
  "RemoveEntryList_links M Entry =
     (let Flink' = Flink (M Entry);
          Blink' = Blink (M Entry);
          M1 = M(Blink' := (M Blink')\<lparr>Flink := Flink'\<rparr>)
      in M1(Flink' := (M1 Flink')\<lparr>Blink := Blink'\<rparr>))"

definition InsertTailList_links :: "memory \<Rightarrow> nat \<Rightarrow> nat \<Rightarrow> memory" where
  "InsertTailList_links M ListHead Entry =
     (let Blink' = Blink (M ListHead);
          M1 = M(Entry := \<lparr>Flink = ListHead, Blink = Blink'\<rparr>);
          M2 = M1(Blink' := (M1 Blink')\<lparr>Flink := Entry\<rparr>)
      in M2(ListHead := (M2 ListHead)\<lparr>Blink := Entry\<rparr>))"

text \<open>The memory holds a ring: from \<open>a\<close> the forward links lead through the entries
  \<open>xs\<close> to \<open>b\<close>, and the backward links lead back. A list head with the entries \<open>xs\<close>
  is such a ring from the head to the head, through pairwise different addresses. The
  memory represents a list of contexts when it holds the list of their addresses and
  every address holds its context.\<close>

fun chain :: "memory \<Rightarrow> nat \<Rightarrow> nat list \<Rightarrow> nat \<Rightarrow> bool" where
  "chain M a [] b = (Flink (M a) = b \<and> Blink (M b) = a)"
| "chain M a (x # xs) b = (Flink (M a) = x \<and> Blink (M x) = a \<and> chain M x xs b)"

definition is_list :: "memory \<Rightarrow> nat \<Rightarrow> nat list \<Rightarrow> bool" where
  "is_list M ListHead Entries = (distinct (ListHead # Entries) \<and> chain M ListHead Entries ListHead)"

definition represents ::
  "memory \<Rightarrow> nat \<Rightarrow> (nat \<Rightarrow> 'a kernel_object_scheme) \<Rightarrow> 'a kernel_object_scheme list \<Rightarrow> bool" where
  "represents M ListHead Object Contexts =
     (is_list M ListHead (map This Contexts) \<and> list_all (\<lambda>c. Object (This c) = c) Contexts)"

text \<open>The loops. On a memory that does not hold a ring a walk need not end, so they are
  partial functions; \<open>None\<close> is a walk that does not return.

  The first loop of \<^verbatim>\<open>XenIfaceCleanup\<close>; \<open>Freed\<close> collects the contexts that are
  handed to \<^verbatim>\<open>StoreFreeWatch\<close>, in the order of the calls.\<close>

partial_function (option) Cleanup_store_walk ::
  "(nat \<Rightarrow> XENIFACE_STORE_CONTEXT) \<Rightarrow> nat \<Rightarrow> nat \<Rightarrow> memory \<Rightarrow> nat \<Rightarrow> nat list
     \<Rightarrow> (memory \<times> nat list) option" where
  "Cleanup_store_walk Object FileObject' ListHead M Node Freed =
     (if Flink (M Node) = Flink (M ListHead) then Some (M, Freed)
      else
        (let StoreContext = Node;
             Node' = Flink (M Node)
         in if FileObject (Object StoreContext) \<noteq> FileObject'
            then Cleanup_store_walk Object FileObject' ListHead M Node' Freed
            else Cleanup_store_walk Object FileObject' ListHead
                   (RemoveEntryList_links M StoreContext) Node' (Freed @ [StoreContext])))"

text \<open>The second loop of \<^verbatim>\<open>XenIfaceCleanup\<close>, which moves the channels of the file object
  to the local list \<open>ToFree\<close>.\<close>

partial_function (option) Cleanup_evtchn_walk ::
  "(nat \<Rightarrow> XENIFACE_EVTCHN_CONTEXT) \<Rightarrow> nat \<Rightarrow> nat \<Rightarrow> nat \<Rightarrow> memory \<Rightarrow> nat \<Rightarrow> memory option" where
  "Cleanup_evtchn_walk Object FileObject' ListHead ToFree M Node =
     (if Flink (M Node) = Flink (M ListHead) then Some M
      else
        (let EvtchnContext = Node;
             Node' = Flink (M Node)
         in if EvtchnFileObject (Object EvtchnContext) \<noteq> FileObject'
            then Cleanup_evtchn_walk Object FileObject' ListHead ToFree M Node'
            else Cleanup_evtchn_walk Object FileObject' ListHead ToFree
                   (InsertTailList_links (RemoveEntryList_links M EvtchnContext) ToFree EvtchnContext)
                   Node'))"

text \<open>The third loop of \<^verbatim>\<open>XenIfaceCleanup\<close>, over \<open>ToFree\<close>; \<open>Freed\<close> collects the
  contexts that are handed to \<^verbatim>\<open>EvtchnFree\<close>.\<close>

partial_function (option) Cleanup_free_walk ::
  "nat \<Rightarrow> memory \<Rightarrow> nat \<Rightarrow> nat list \<Rightarrow> (memory \<times> nat list) option" where
  "Cleanup_free_walk ToFree M Node Freed =
     (if Flink (M Node) = Flink (M ToFree) then Some (M, Freed)
      else
        (let EvtchnContext = Node;
             Node' = Flink (M Node)
         in Cleanup_free_walk ToFree (RemoveEntryList_links M EvtchnContext) Node'
              (Freed @ [EvtchnContext])))"

text \<open>The loop of \<^verbatim>\<open>IoctlStoreRemoveWatch\<close>; the result is the value of the local
  variable \<open>Context\<close> after the loop (it starts as \<open>NULL\<close>), and the memory.\<close>

partial_function (option) RemoveWatch_links_walk ::
  "(nat \<Rightarrow> XENIFACE_STORE_CONTEXT) \<Rightarrow> nat \<Rightarrow> nat \<Rightarrow> nat \<Rightarrow> memory \<Rightarrow> nat \<Rightarrow> nat
     \<Rightarrow> (nat \<times> memory) option" where
  "RemoveWatch_links_walk Object In_Context FileObject' ListHead M Node Context =
     (if Flink (M Node) = Flink (M ListHead) then Some (Context, M)
      else
        (let Context' = Node;
             Node' = Flink (M Node)
         in if Context' \<noteq> In_Context \<or> FileObject (Object Context') \<noteq> FileObject'
            then RemoveWatch_links_walk Object In_Context FileObject' ListHead M Node' Context'
            else Some (Context', RemoveEntryList_links M Context')))"

text \<open>The loop of \<^verbatim>\<open>EvtchnFindChannel\<close>; the result is \<open>Found\<close>.\<close>

partial_function (option) EvtchnFindChannel_walk ::
  "(nat \<Rightarrow> XENIFACE_EVTCHN_CONTEXT) \<Rightarrow> ULONG \<Rightarrow> nat \<Rightarrow> nat \<Rightarrow> memory \<Rightarrow> nat \<Rightarrow> nat option" where
  "EvtchnFindChannel_walk Object Port FileObject' ListHead M Node =
     (if Flink (M Node) = Flink (M ListHead) then Some NULL
      else
        (let Context = Node;
             Node' = Flink (M Node)
         in if LocalPort (Object Context) \<noteq> Port
              then EvtchnFindChannel_walk Object Port FileObject' ListHead M Node'
            else if FileObject' \<noteq> NULL \<and> EvtchnFileObject (Object Context) \<noteq> FileObject'
              then EvtchnFindChannel_walk Object Port FileObject' ListHead M Node'
            else Some Context))"

text \<open>The three loops of \<^verbatim>\<open>XenIfaceCleanup\<close> in sequence, with
  \<^verbatim>\<open>InitializeListHead(&ToFree)\<close> between the first and the second.\<close>

definition XenIfaceCleanup_walks ::
  "(nat \<Rightarrow> XENIFACE_STORE_CONTEXT) \<Rightarrow> (nat \<Rightarrow> XENIFACE_EVTCHN_CONTEXT) \<Rightarrow> nat
     \<Rightarrow> nat \<Rightarrow> nat \<Rightarrow> nat \<Rightarrow> memory \<Rightarrow> (memory \<times> nat list \<times> nat list) option" where
  "XenIfaceCleanup_walks StoreObject EvtchnObject FileObject' StoreHead EvtchnHead ToFree M =
     (case Cleanup_store_walk StoreObject FileObject' StoreHead M (Flink (M StoreHead)) [] of
        None \<Rightarrow> None
      | Some (M1, Watches) \<Rightarrow>
          (let M2 = InitializeListHead_links M1 ToFree in
           case Cleanup_evtchn_walk EvtchnObject FileObject' EvtchnHead ToFree M2
                  (Flink (M2 EvtchnHead)) of
             None \<Rightarrow> None
           | Some M3 \<Rightarrow>
               (case Cleanup_free_walk ToFree M3 (Flink (M3 ToFree)) [] of
                  None \<Rightarrow> None
                | Some (M4, Channels) \<Rightarrow> Some (M4, Watches, Channels))))"

section \<open>Describing what a handler did\<close>

text \<open>Names for the pieces of a trace, used to state what the handlers do: the bus
  calls of the sharing loop for the pages \<open>a\<close> to \<open>b - 1\<close>, the entries the bus
  returned for the pages below \<open>k\<close>, the revocations of a list of entries in that
  order, and the grant array after the sharing loop has stored the entries of the pages
  \<open>a\<close> to \<open>b - 1\<close>.\<close>

definition permit_events :: "kernel \<Rightarrow> nat \<Rightarrow> nat \<Rightarrow> event list" where
  "permit_events K a b =
     map (\<lambda>Page. Ev_PermitForeignAccess Page (fst (GNTTAB_PermitForeignAccess K Page))
                    (snd (GNTTAB_PermitForeignAccess K Page))) [a ..< b]"

definition granted_entries :: "kernel \<Rightarrow> nat \<Rightarrow> nat list" where
  "granted_entries K k = map (\<lambda>Page. snd (GNTTAB_PermitForeignAccess K Page)) [0 ..< k]"

definition revoke_events :: "kernel \<Rightarrow> nat list \<Rightarrow> event list" where
  "revoke_events K entries =
     map (\<lambda>entry. Ev_RevokeForeignAccess entry (GNTTAB_RevokeForeignAccess K entry)) entries"

definition store_entries :: "kernel \<Rightarrow> nat \<Rightarrow> nat \<Rightarrow> nat list \<Rightarrow> nat list" where
  "store_entries K a b Gs = fold (\<lambda>Page gs. gs[Page := snd (GNTTAB_PermitForeignAccess K Page)]) [a ..< b] Gs"


text \<open>The context as \<^verbatim>\<open>IoctlGnttabPermitForeignAccess\<close> has filled it in when it enters
  the sharing loop, the allocations it has made until then, and the releases of
  \<^verbatim>\<open>fail8\<close> to \<^verbatim>\<open>fail4\<close> after the revocations.\<close>

definition Permit_Context ::
  "kernel \<Rightarrow> XENIFACE_GNTTAB_PERMIT_FOREIGN_ACCESS_IN \<Rightarrow> XENIFACE_GRANT_CONTEXT" where
  "Permit_Context K In =
     (let Bytes = In_NumberPages In * PAGE_SIZE;
          Va = ExAllocatePoolWithTag K (Pool_KernelVa Bytes)
      in \<lparr>This = ExAllocatePoolWithTag K Pool_GRANT_CONTEXT,
          Id' = \<lparr>Type = XENIFACE_CONTEXT_GRANT, Process = PsGetCurrentProcess K,
                RequestId = In_RequestId In\<rparr>,
          RemoteDomain = In_RemoteDomain In, NumberPages = In_NumberPages In,
          Flags = In_Flags In, NotifyOffset = In_NotifyOffset In,
          NotifyPort = In_NotifyPort In,
          KernelVa = Va, UserVa = NULL, Mdl = IoAllocateMdl K Va Bytes,
          Grants = ExAllocatePoolWithTag K (Pool_Grants (unat (In_NumberPages In))),
          GrantsArray = replicate (unat (In_NumberPages In)) NULL\<rparr>)"

definition Permit_allocations :: "kernel \<Rightarrow> ULONG \<Rightarrow> event list" where
  "Permit_allocations K n =
     (let Bytes = n * PAGE_SIZE;
          Va = ExAllocatePoolWithTag K (Pool_KernelVa Bytes)
      in [Ev_ExAllocatePoolWithTag Pool_GRANT_CONTEXT (ExAllocatePoolWithTag K Pool_GRANT_CONTEXT),
          Ev_ExAllocatePoolWithTag (Pool_Grants (unat n)) (ExAllocatePoolWithTag K (Pool_Grants (unat n))),
          Ev_ExAllocatePoolWithTag (Pool_KernelVa Bytes) Va,
          Ev_IoAllocateMdl Va Bytes (IoAllocateMdl K Va Bytes)])"

definition Permit_releases :: "XENIFACE_GRANT_CONTEXT \<Rightarrow> event list" where
  "Permit_releases Context =
     [Ev_IoFreeMdl (Mdl Context), Ev_ExFreePoolWithTag (KernelVa Context),
      Ev_ExFreePoolWithTag (Grants Context), Ev_ExFreePoolWithTag (This Context)]"

text \<open>The request gets as far as the sharing loop: the buffer lengths are right, the
  parameters pass the check, the four allocations succeed and no operation with the
  same id is queued.\<close>

definition Permit_reaches_sharing ::
  "abi \<Rightarrow> kernel \<Rightarrow> XENIFACE_FDO \<Rightarrow> XENIFACE_GNTTAB_PERMIT_FOREIGN_ACCESS_IN \<Rightarrow> ULONG \<Rightarrow> ULONG \<Rightarrow> bool" where
  "Permit_reaches_sharing A K Fdo In InLen OutLen =
     (unat InLen = sizeof_PERMIT_FOREIGN_ACCESS_IN A \<and> OutLen = 0 \<and>
      \<not> gnttab_parameters_invalid (In_NumberPages In) (In_Flags In) (In_NotifyOffset In) \<and>
      This (Permit_Context K In) \<noteq> NULL \<and>
      CsqPeekNextIrp (IrpQueue Fdo) (Id' (Permit_Context K In)) = None \<and>
      Grants (Permit_Context K In) \<noteq> NULL \<and>
      KernelVa (Permit_Context K In) \<noteq> NULL \<and>
      Mdl (Permit_Context K In) \<noteq> NULL)"


text \<open>The events of one \<^verbatim>\<open>StoreFreeWatch\<close> whose \<^verbatim>\<open>WatchRemove\<close> succeeds, and of one
  \<^verbatim>\<open>EvtchnFree\<close>.\<close>

definition StoreFreeWatch_events :: "kernel \<Rightarrow> XENIFACE_STORE_CONTEXT \<Rightarrow> event list" where
  "StoreFreeWatch_events K Context =
     [Ev_StoreWatchRemove (Watch Context) (STORE_WatchRemove K (Watch Context)),
      Ev_ObDereferenceObject (Event Context), Ev_ExFreePoolWithTag (This Context)]"

definition EvtchnFree_events :: "XENIFACE_EVTCHN_CONTEXT \<Rightarrow> event list" where
  "EvtchnFree_events Context =
     [Ev_SetInactive (This Context), Ev_EvtchnClose (Channel Context), Ev_KeFlushQueuedDpcs,
      Ev_ObDereferenceObject (EvtchnEvent Context), Ev_ExFreePoolWithTag (This Context)]"

text \<open>The entries the bus has granted in a trace (the \<^verbatim>\<open>PermitForeignAccess\<close> calls that
  succeeded) and the entries the handler has asked the bus to revoke, each in the order
  of the calls; the foreign mappings the bus has made and those the handler has asked it
  to undo.\<close>

definition shared_entry :: "event \<Rightarrow> nat list" where
  "shared_entry e = (case e of
       Ev_PermitForeignAccess Page status Entry \<Rightarrow> if NT_SUCCESS status then [Entry] else []
     | _ \<Rightarrow> [])"

definition revoked_entry :: "event \<Rightarrow> nat list" where
  "revoked_entry e = (case e of Ev_RevokeForeignAccess Entry status \<Rightarrow> [Entry] | _ \<Rightarrow> [])"

definition mapped_address :: "event \<Rightarrow> nat list" where
  "mapped_address e = (case e of
       Ev_MapForeignPages References status Addr \<Rightarrow> if NT_SUCCESS status then [Addr] else []
     | _ \<Rightarrow> [])"

definition unmapped_address :: "event \<Rightarrow> nat list" where
  "unmapped_address e = (case e of Ev_UnmapForeignPages Addr status \<Rightarrow> [Addr] | _ \<Rightarrow> [])"

definition pages_shared :: "event list \<Rightarrow> nat list" where
  "pages_shared tr = concat (map shared_entry tr)"

definition pages_revoked :: "event list \<Rightarrow> nat list" where
  "pages_revoked tr = concat (map revoked_entry tr)"

definition foreign_mapped :: "event list \<Rightarrow> nat list" where
  "foreign_mapped tr = concat (map mapped_address tr)"

definition foreign_unmapped :: "event list \<Rightarrow> nat list" where
  "foreign_unmapped tr = concat (map unmapped_address tr)"

text \<open>The events a handler has added to the trace.\<close>

definition events_since :: "XENIFACE_FDO \<Rightarrow> XENIFACE_FDO \<Rightarrow> event list" where
  "events_since Fdo Fdo' = drop (length (trace Fdo)) (trace Fdo')"

section \<open>Sample inputs\<close>

text \<open>Concrete values on which the handlers are run below: message sizes, a kernel and
  a bus that grant every request (grant entries at \<open>9000 + Page\<close>), a bus that rejects
  the share of page 2, and an empty device extension.\<close>

definition sample_abi :: abi where
  "sample_abi = \<lparr>sizeof_PERMIT_FOREIGN_ACCESS_IN = 32, sizeof_GET_GRANT_RESULT_IN = 8,
     sizeof_GET_GRANT_RESULT_OUT = 16, sizeof_REVOKE_FOREIGN_ACCESS_IN = 8,
     sizeof_MAP_FOREIGN_PAGES_IN = 36, sizeof_GET_MAP_RESULT_IN = 8,
     sizeof_GET_MAP_RESULT_OUT = 8, sizeof_UNMAP_FOREIGN_PAGES_IN = 8,
     sizeof_STORE_REMOVE_WATCH_IN = 8\<rparr>"

definition sample_kernel :: kernel where
  "sample_kernel = \<lparr>PsGetCurrentProcess = 1000,
     ExAllocatePoolWithTag = (\<lambda>r. case r of Pool_GRANT_CONTEXT \<Rightarrow> 8000 | Pool_MAP_CONTEXT \<Rightarrow> 8100
                                     | Pool_Grants n \<Rightarrow> 8200 | Pool_KernelVa b \<Rightarrow> 8300),
     IoAllocateMdl = (\<lambda>va len. 8400),
     MmMapLockedPagesSpecifyCache = (\<lambda>mdl. Inr 8500),
     MmMapIoSpace = (\<lambda>pa len. 8600),
     GNTTAB_PermitForeignAccess = (\<lambda>Page. (STATUS_SUCCESS, 9000 + Page)),
     GNTTAB_RevokeForeignAccess = (\<lambda>entry. STATUS_SUCCESS),
     GNTTAB_GetReference = (\<lambda>entry. of_nat (entry - 9000) + 16),
     GNTTAB_MapForeignPages = (\<lambda>refs. (STATUS_SUCCESS, 7000)),
     GNTTAB_UnmapForeignPages = (\<lambda>pa. STATUS_SUCCESS),
     STORE_WatchRemove = (\<lambda>watch. STATUS_SUCCESS)\<rparr>"

definition rejecting_kernel :: kernel where
  "rejecting_kernel = sample_kernel\<lparr>GNTTAB_PermitForeignAccess :=
     (\<lambda>Page. if Page = 2 then (STATUS_UNSUCCESSFUL, NULL) else (STATUS_SUCCESS, 9000 + Page))\<rparr>"

definition empty_Fdo :: XENIFACE_FDO where
  "empty_Fdo = \<lparr>IrpQueue = [], StoreWatchList = [], EvtchnList = [], trace = []\<rparr>"

definition sample_request :: "ULONG \<Rightarrow> XENIFACE_GNTTAB_PAGE_FLAGS set \<Rightarrow> ULONG
    \<Rightarrow> XENIFACE_GNTTAB_PERMIT_FOREIGN_ACCESS_IN" where
  "sample_request n fl off = \<lparr>In_RequestId = 77, In_RemoteDomain = 1, In_NumberPages = n,
     In_Flags = fl, In_NotifyOffset = off, In_NotifyPort = 0\<rparr>"

definition sample_map_request :: "ULONG \<Rightarrow> XENIFACE_GNTTAB_PAGE_FLAGS set \<Rightarrow> ULONG
    \<Rightarrow> ULONG list \<Rightarrow> XENIFACE_GNTTAB_MAP_FOREIGN_PAGES_IN" where
  "sample_map_request n fl off refs = \<lparr>In_RequestId = 77, In_RemoteDomain = 1,
     In_NumberPages = n, In_Flags = fl, In_NotifyOffset = off, In_NotifyPort = 0,
     In_References = refs\<rparr>"

text \<open>The device extension after a three-page \<^verbatim>\<open>IoctlGnttabPermitForeignAccess\<close> of the
  current process with request id 77 has been queued, and the context it has queued.\<close>

definition granted_Fdo :: XENIFACE_FDO where
  "granted_Fdo = snd (IoctlGnttabPermitForeignAccess sample_abi sample_kernel empty_Fdo
      (sample_request 3 {} 0) 32 0 500)"

definition sample_grant_context :: XENIFACE_GRANT_CONTEXT where
  "sample_grant_context = \<lparr>This = 8000,
           Id' = \<lparr>Type = XENIFACE_CONTEXT_GRANT, Process = 1000, RequestId = 77\<rparr>,
           RemoteDomain = 1, NumberPages = 3, Flags = {}, NotifyOffset = 0,
           NotifyPort = 0, KernelVa = 8300, UserVa = 8500, Mdl = 8400,
           Grants = 8200, GrantsArray = [9000, 9001, 9002]\<rparr>"

text \<open>The device extension after \<^verbatim>\<open>IoctlGnttabRevokeForeignAccess\<close> for that grant.\<close>

definition revoked_Fdo :: XENIFACE_FDO where
  "revoked_Fdo = snd (IoctlGnttabRevokeForeignAccess sample_abi sample_kernel granted_Fdo 77 8 0)"

text \<open>A kernel whose pool cannot serve the shared buffer, the device extension after a
  one-page \<^verbatim>\<open>IoctlGnttabMapForeignPages\<close> of the current process with request id 77
  has been queued, and a device extension with one store watch, owned by file object 11.\<close>

definition exhausted_kernel :: kernel where
  "exhausted_kernel = sample_kernel\<lparr>ExAllocatePoolWithTag :=
     (\<lambda>r. case r of Pool_KernelVa b \<Rightarrow> NULL | _ \<Rightarrow> ExAllocatePoolWithTag sample_kernel r)\<rparr>"

definition pending_map_Fdo :: XENIFACE_FDO where
  "pending_map_Fdo = snd (IoctlGnttabMapForeignPages sample_abi sample_kernel empty_Fdo
      (sample_map_request 1 {} 0 [5]) 40 0 600)"

definition watch_Fdo :: XENIFACE_FDO where
  "watch_Fdo = empty_Fdo\<lparr>StoreWatchList :=
     [\<lparr>This = 5000, FileObject = 11, Event = 5100, Watch = 5200\<rparr>]\<rparr>"

text \<open>A device extension with three watches and two channels, of which file object 11
  owns two watches and one channel, and what \<^verbatim>\<open>XenIfaceCleanup\<close> leaves of it for file
  object 11.\<close>

definition owned_watch_Fdo :: XENIFACE_FDO where
  "owned_watch_Fdo = empty_Fdo\<lparr>
     StoreWatchList :=
       [\<lparr>This = 5000, FileObject = 11, Event = 5100, Watch = 5200\<rparr>,
        \<lparr>This = 5001, FileObject = 12, Event = 5101, Watch = 5201\<rparr>,
        \<lparr>This = 5002, FileObject = 11, Event = 5102, Watch = 5202\<rparr>],
     EvtchnList :=
       [\<lparr>This = 6000, EvtchnFileObject = 12, EvtchnEvent = 6100, Channel = 6200, LocalPort = 3,
          Active = True\<rparr>,
        \<lparr>This = 6001, EvtchnFileObject = 11, EvtchnEvent = 6101, Channel = 6201, LocalPort = 4,
          Active = True\<rparr>]\<rparr>"

definition cleaned_Fdo :: XENIFACE_FDO where
  "cleaned_Fdo = \<lparr>IrpQueue = [],
     StoreWatchList = [\<lparr>This = 5001, FileObject = 12, Event = 5101, Watch = 5201\<rparr>],
     EvtchnList = [\<lparr>This = 6000, EvtchnFileObject = 12, EvtchnEvent = 6100, Channel = 6200,
                     LocalPort = 3, Active = True\<rparr>],
     trace =
       [Ev_KeAcquireSpinLock StoreWatchLock,
        Ev_StoreWatchRemove 5200 STATUS_SUCCESS, Ev_ObDereferenceObject 5100,
        Ev_ExFreePoolWithTag 5000,
        Ev_StoreWatchRemove 5202 STATUS_SUCCESS, Ev_ObDereferenceObject 5102,
        Ev_ExFreePoolWithTag 5002,
        Ev_KeReleaseSpinLock StoreWatchLock,
        Ev_KeAcquireSpinLock EvtchnLock, Ev_KeReleaseSpinLock EvtchnLock,
        Ev_SetInactive 6001, Ev_EvtchnClose 6201, Ev_KeFlushQueuedDpcs,
        Ev_ObDereferenceObject 6101, Ev_ExFreePoolWithTag 6001]\<rparr>"

text \<open>A memory that holds the two lists of that device extension, the watch list behind
  the head at 100 and the channel list behind the head at 200, with the contexts at
  their addresses; and a memory that holds the list of the one watch at 5000.\<close>

definition sample_memory :: memory where
  "sample_memory = (\<lambda>a. \<lparr>Flink = NULL, Blink = NULL\<rparr>)
     (100 := \<lparr>Flink = 5000, Blink = 5002\<rparr>,
      5000 := \<lparr>Flink = 5001, Blink = 100\<rparr>,
      5001 := \<lparr>Flink = 5002, Blink = 5000\<rparr>,
      5002 := \<lparr>Flink = 100, Blink = 5001\<rparr>,
      200 := \<lparr>Flink = 6000, Blink = 6001\<rparr>,
      6000 := \<lparr>Flink = 6001, Blink = 200\<rparr>,
      6001 := \<lparr>Flink = 200, Blink = 6000\<rparr>)"

definition sample_watches :: "nat \<Rightarrow> XENIFACE_STORE_CONTEXT" where
  "sample_watches = (\<lambda>a. \<lparr>This = a, FileObject = NULL, Event = NULL, Watch = NULL\<rparr>)
     (5000 := \<lparr>This = 5000, FileObject = 11, Event = 5100, Watch = 5200\<rparr>,
      5001 := \<lparr>This = 5001, FileObject = 12, Event = 5101, Watch = 5201\<rparr>,
      5002 := \<lparr>This = 5002, FileObject = 11, Event = 5102, Watch = 5202\<rparr>)"

definition sample_channels :: "nat \<Rightarrow> XENIFACE_EVTCHN_CONTEXT" where
  "sample_channels = (\<lambda>a. \<lparr>This = a, EvtchnFileObject = NULL, EvtchnEvent = NULL, Channel = NULL,
                             LocalPort = 0, Active = False\<rparr>)
     (6000 := \<lparr>This = 6000, EvtchnFileObject = 12, EvtchnEvent = 6100, Channel = 6200,
                LocalPort = 3, Active = True\<rparr>,
      6001 := \<lparr>This = 6001, EvtchnFileObject = 11, EvtchnEvent = 6101, Channel = 6201,
                LocalPort = 4, Active = True\<rparr>)"

definition single_watch_memory :: memory where
  "single_watch_memory = (\<lambda>a. \<lparr>Flink = NULL, Blink = NULL\<rparr>)
     (100 := \<lparr>Flink = 5000, Blink = 5000\<rparr>,
      5000 := \<lparr>Flink = 100, Blink = 100\<rparr>)"

text \<open>A kernel whose pool cannot serve the context structure of a grant, a kernel that
  cannot map the foreign pages into the system address space, the device extension after
  a four-page \<^verbatim>\<open>IoctlGnttabPermitForeignAccess\<close> whose third page the bus has rejected,
  the context that the one-page map has queued, and the device extension after a map
  that failed at \<^verbatim>\<open>MmMapIoSpace\<close>.\<close>

definition starved_kernel :: kernel where
  "starved_kernel = sample_kernel\<lparr>ExAllocatePoolWithTag :=
     (\<lambda>r. case r of Pool_GRANT_CONTEXT \<Rightarrow> NULL | _ \<Rightarrow> ExAllocatePoolWithTag sample_kernel r)\<rparr>"





section \<open>The loops\<close>

lemma store_entries_same [simp]: "store_entries K a a Gs = Gs"
  by (simp add: store_entries_def)

lemma store_entries_step: "a < b \<Longrightarrow>
   store_entries K a b Gs = store_entries K (Suc a) b (Gs[a := snd (GNTTAB_PermitForeignAccess K a)])"
  by (simp add: store_entries_def upt_conv_Cons)

lemma permit_events_same [simp]: "permit_events K a a = []"
  by (simp add: permit_events_def)

lemma permit_events_step: "a < b \<Longrightarrow>
   permit_events K a b = Ev_PermitForeignAccess a (fst (GNTTAB_PermitForeignAccess K a))
                    (snd (GNTTAB_PermitForeignAccess K a)) # permit_events K (Suc a) b"
  by (simp add: permit_events_def upt_conv_Cons)

lemma length_store_entries [simp]: "length (store_entries K a b Gs) = length Gs"
proof -
  have "\<And>Gs. length (fold (\<lambda>Page gs. gs[Page := snd (GNTTAB_PermitForeignAccess K Page)]) ps Gs) = length Gs" for ps
    by (induction ps) auto
  then show ?thesis by (simp add: store_entries_def)
qed

text \<open>What the sharing loop returns, whichever way it ends.\<close>

lemma share_pages_result:
  "share_pages K n Page Gs tr = (r, P, Gs', tr') \<Longrightarrow> Page \<le> n \<Longrightarrow>
     Page \<le> P \<and> P \<le> n \<and> (\<forall>p. Page \<le> p \<and> p < P \<longrightarrow> NT_SUCCESS (fst (GNTTAB_PermitForeignAccess K p))) \<and>
     (case r of
        None \<Rightarrow> P = n \<and> Gs' = store_entries K Page n Gs \<and> tr' = tr @ permit_events K Page n
      | Some status \<Rightarrow> P < n \<and> status = fst (GNTTAB_PermitForeignAccess K P) \<and> \<not> NT_SUCCESS status \<and>
          Gs' = store_entries K Page (Suc P) Gs \<and> tr' = tr @ permit_events K Page (Suc P))"
proof (induction K n Page Gs tr rule: share_pages.induct)
  case (1 K n Page Gs tr)
  show ?case
  proof (cases "Page < n")
    case False
    with "1.prems" show ?thesis by (auto simp: share_pages.simps [of K n Page])
  next
    case True
    obtain status Entry where pe: "GNTTAB_PermitForeignAccess K Page = (status, Entry)"
      by (cases "GNTTAB_PermitForeignAccess K Page")
    show ?thesis
    proof (cases "NT_SUCCESS status")
      case False
      with True pe "1.prems" show ?thesis
        by (auto simp: share_pages.simps [of K n Page] permit_events_step store_entries_step)
    next
      case ok: True
      from True pe ok "1.prems" have rec: "share_pages K n (Page + 1) (Gs[Page := Entry])
            (tr @ [Ev_PermitForeignAccess Page status Entry]) = (r, P, Gs', tr')"
        by (simp add: share_pages.simps [of K n Page])
      from "1.IH" [OF True refl pe [symmetric] refl refl _ rec] True ok
      have ih: "Page + 1 \<le> P \<and> P \<le> n \<and> (\<forall>p. Page + 1 \<le> p \<and> p < P \<longrightarrow> NT_SUCCESS (fst (GNTTAB_PermitForeignAccess K p))) \<and>
     (case r of
        None \<Rightarrow> P = n \<and> Gs' = store_entries K (Page + 1) n (Gs[Page := Entry]) \<and> tr' = (tr @ [Ev_PermitForeignAccess Page status Entry]) @ permit_events K (Page + 1) n
      | Some status' \<Rightarrow> P < n \<and> status' = fst (GNTTAB_PermitForeignAccess K P) \<and> \<not> NT_SUCCESS status' \<and>
          Gs' = store_entries K (Page + 1) (Suc P) (Gs[Page := Entry]) \<and> tr' = (tr @ [Ev_PermitForeignAccess Page status Entry]) @ permit_events K (Page + 1) (Suc P))"
        by simp
      have succ: "\<forall>p. Page \<le> p \<and> p < P \<longrightarrow> NT_SUCCESS (fst (GNTTAB_PermitForeignAccess K p))"
      proof (intro allI impI)
        fix p assume "Page \<le> p \<and> p < P"
        then show "NT_SUCCESS (fst (GNTTAB_PermitForeignAccess K p))"
          using ih pe ok by (cases "p = Page") auto
      qed
      from ih succ True pe show ?thesis
        by (cases r) (auto simp: permit_events_step [of Page] store_entries_step [of Page])
    qed
  qed
qed

lemma store_entries_snoc: "a \<le> b \<Longrightarrow>
   store_entries K a (Suc b) Gs = (store_entries K a b Gs)[b := snd (GNTTAB_PermitForeignAccess K b)]"
  by (simp add: store_entries_def)

lemma store_entries_take:
  "k \<le> length Gs \<Longrightarrow> take k (store_entries K 0 k Gs) = granted_entries K k"
proof (induction k)
  case 0
  then show ?case by (simp add: granted_entries_def)
next
  case (Suc k)
  then have "take k (store_entries K 0 k Gs) = granted_entries K k" and lt: "k < length Gs"
    by simp_all
  then show ?case
    by (simp add: store_entries_snoc take_Suc_conv_app_nth granted_entries_def)
qed

lemma revoke_events_Nil [simp]: "revoke_events K [] = []"
  by (simp add: revoke_events_def)

lemma revoke_events_append [simp]:
  "revoke_events K (xs @ ys) = revoke_events K xs @ revoke_events K ys"
  by (simp add: revoke_events_def)

lemma revoke_shared_result:
  "Page \<le> length Gs \<Longrightarrow>
     fst (revoke_shared K Gs Page tr) = (\<forall>p < Page. NT_SUCCESS (GNTTAB_RevokeForeignAccess K (Gs ! p))) \<and>
     (fst (revoke_shared K Gs Page tr) \<longrightarrow>
        snd (revoke_shared K Gs Page tr) = tr @ revoke_events K (rev (take Page Gs)))"
proof (induction Page arbitrary: tr)
  case 0
  then show ?case by simp
next
  case (Suc Page)
  then have lt: "Page < length Gs" by simp
  show ?case
  proof (cases "NT_SUCCESS (GNTTAB_RevokeForeignAccess K (Gs ! Page))")
    case False
    then show ?thesis by (auto simp: Let_def)
  next
    case True
    from lt have IH: "fst (revoke_shared K Gs Page tr') = (\<forall>p < Page. NT_SUCCESS (GNTTAB_RevokeForeignAccess K (Gs ! p))) \<and>
     (fst (revoke_shared K Gs Page tr') \<longrightarrow>
        snd (revoke_shared K Gs Page tr') = tr' @ revoke_events K (rev (take Page Gs)))" for tr'
      using Suc.IH [of tr'] by simp
    from True lt show ?thesis
      using IH [of "tr @ [Ev_RevokeForeignAccess (Gs ! Page) (GNTTAB_RevokeForeignAccess K (Gs ! Page))]"]
      by (auto simp: Let_def less_Suc_eq take_Suc_conv_app_nth revoke_events_def)
  qed
qed

lemma stop_sharing_result:
  "n \<le> length Gs \<Longrightarrow> Page \<le> n \<Longrightarrow>
     fst (stop_sharing K n Page Gs tr) =
       (\<forall>p. Page \<le> p \<and> p < n \<longrightarrow> NT_SUCCESS (GNTTAB_RevokeForeignAccess K (Gs ! p))) \<and>
     (fst (stop_sharing K n Page Gs tr) \<longrightarrow>
        snd (stop_sharing K n Page Gs tr) = tr @ revoke_events K (drop Page (take n Gs)))"
proof (induction K n Page Gs tr rule: stop_sharing.induct)
  case (1 K n Page Gs tr)
  show ?case
  proof (cases "Page < n")
    case False
    then have "stop_sharing K n Page Gs tr = (True, tr)"
      by (subst stop_sharing.simps) simp
    with False "1.prems" show ?thesis by auto
  next
    case lt: True
    let ?s = "GNTTAB_RevokeForeignAccess K (Gs ! Page)"
    let ?tr = "tr @ [Ev_RevokeForeignAccess (Gs ! Page) ?s]"
    show ?thesis
    proof (cases "NT_SUCCESS ?s")
      case False
      with lt have "stop_sharing K n Page Gs tr = (False, ?tr)"
        by (subst stop_sharing.simps) (simp add: Let_def)
      with False lt show ?thesis by auto
    next
      case True
      with lt have unfold: "stop_sharing K n Page Gs tr = stop_sharing K n (Page + 1) Gs ?tr"
        by (subst stop_sharing.simps) (simp add: Let_def)
      have split: "drop Page (take n Gs) = Gs ! Page # drop (Page + 1) (take n Gs)"
        using lt "1.prems" Cons_nth_drop_Suc [of Page "take n Gs"] by simp
      have all: "(\<forall>p. Page \<le> p \<and> p < n \<longrightarrow> NT_SUCCESS (GNTTAB_RevokeForeignAccess K (Gs ! p))) =
            (\<forall>p. Page + 1 \<le> p \<and> p < n \<longrightarrow> NT_SUCCESS (GNTTAB_RevokeForeignAccess K (Gs ! p)))"
      proof
        assume "\<forall>p. Page \<le> p \<and> p < n \<longrightarrow> NT_SUCCESS (GNTTAB_RevokeForeignAccess K (Gs ! p))"
        then show "\<forall>p. Page + 1 \<le> p \<and> p < n \<longrightarrow> NT_SUCCESS (GNTTAB_RevokeForeignAccess K (Gs ! p))"
          by simp
      next
        assume r: "\<forall>p. Page + 1 \<le> p \<and> p < n \<longrightarrow> NT_SUCCESS (GNTTAB_RevokeForeignAccess K (Gs ! p))"
        show "\<forall>p. Page \<le> p \<and> p < n \<longrightarrow> NT_SUCCESS (GNTTAB_RevokeForeignAccess K (Gs ! p))"
        proof (intro allI impI)
          fix p assume "Page \<le> p \<and> p < n"
          then show "NT_SUCCESS (GNTTAB_RevokeForeignAccess K (Gs ! p))"
            using r True by (cases "p = Page") auto
        qed
      qed
      from lt "1.prems" have le: "Page + 1 \<le> n" by simp
      note IH = "1.IH" [OF lt refl refl True "1.prems"(1) le]
      show ?thesis
        unfolding unfold all split using IH by (simp add: revoke_events_def)
    qed
  qed
qed

lemma Permit_to_sharing:
  "Permit_reaches_sharing A K Fdo In InLen OutLen \<Longrightarrow>
   IoctlGnttabPermitForeignAccess A K Fdo In InLen OutLen Irp =
     Permit_share_and_queue K (Fdo\<lparr>trace := trace Fdo @ Permit_allocations K (In_NumberPages In)\<rparr>)
       (Permit_Context K In) Irp"
  by (simp add: Permit_reaches_sharing_def IoctlGnttabPermitForeignAccess_def Permit_Context_def
      Permit_allocations_def Let_def log_def FindGnttabIrp_def)

lemma take_store_entries_Suc:
  "k < length Gs \<Longrightarrow> take k (store_entries K 0 (Suc k) Gs) = granted_entries K k"
  by (simp add: store_entries_snoc store_entries_take)

lemma share_pages_rejected:
  assumes k: "k < n"
    and accepted: "\<forall>p<k. NT_SUCCESS (fst (GNTTAB_PermitForeignAccess K p))"
    and rejected: "\<not> NT_SUCCESS (fst (GNTTAB_PermitForeignAccess K k))"
  shows "share_pages K n 0 Gs tr =
     (Some (fst (GNTTAB_PermitForeignAccess K k)), k, store_entries K 0 (Suc k) Gs,
      tr @ permit_events K 0 (Suc k))"
proof -
  obtain r P Gs' tr' where run: "share_pages K n 0 Gs tr = (r, P, Gs', tr')"
    by (cases "share_pages K n 0 Gs tr") auto
  note res = share_pages_result [OF run]
  from res k rejected have "r \<noteq> None" by (cases r) auto
  then obtain status where r: "r = Some status" by auto
  with res have P: "P < n" "\<not> NT_SUCCESS (fst (GNTTAB_PermitForeignAccess K P))"
     and all: "\<forall>p. p < P \<longrightarrow> NT_SUCCESS (fst (GNTTAB_PermitForeignAccess K p))" by auto
  from P accepted have "\<not> P < k" by auto
  moreover from all rejected have "\<not> k < P" by auto
  ultimately have "P = k" by simp
  with run r res show ?thesis by auto
qed

section \<open>The path to a pending grant\<close>

lemma share_pages_accepted:
  assumes "\<forall>p<n. NT_SUCCESS (fst (GNTTAB_PermitForeignAccess K p))"
  shows "share_pages K n 0 Gs tr = (None, n, store_entries K 0 n Gs, tr @ permit_events K 0 n)"
proof -
  obtain r P Gs' tr' where run: "share_pages K n 0 Gs tr = (r, P, Gs', tr')"
    by (cases "share_pages K n 0 Gs tr") auto
  note res = share_pages_result [OF run]
  from res assms have "r = None" by (cases r) auto
  with run res show ?thesis by auto
qed

lemma store_entries_all:
  "store_entries K 0 (length Gs) Gs = granted_entries K (length Gs)"
  using store_entries_take [of "length Gs" Gs K] by simp

lemma PermitForeignAccess_pending:
  assumes reach: "Permit_reaches_sharing A K Fdo In InLen OutLen"
    and accepted: "\<forall>p < unat (In_NumberPages In). NT_SUCCESS (fst (GNTTAB_PermitForeignAccess K p))"
    and mapped: "MmMapLockedPagesSpecifyCache K (Mdl (Permit_Context K In)) = Inr Va" "Va \<noteq> NULL"
  shows "IoctlGnttabPermitForeignAccess A K Fdo In InLen OutLen Irp =
     (Return STATUS_PENDING,
      Fdo\<lparr>IrpQueue := IrpQueue Fdo @
             [(Irp, GrantContext ((Permit_Context K In)
                 \<lparr>UserVa := Va, GrantsArray := granted_entries K (unat (In_NumberPages In))\<rparr>))],
          trace := trace Fdo @ Permit_allocations K (In_NumberPages In)
                 @ permit_events K 0 (unat (In_NumberPages In))
                 @ [Ev_MmMapLockedPages (Mdl (Permit_Context K In)) (Inr Va)]\<rparr>)"
proof -
  let ?n = "unat (In_NumberPages In)"
  have GA: "GrantsArray (Permit_Context K In) = replicate ?n NULL"
    "NumberPages (Permit_Context K In) = In_NumberPages In"
    by (simp_all add: Permit_Context_def Let_def)
  have share: "share_pages K ?n 0 (replicate ?n NULL) tr =
      (None, ?n, granted_entries K ?n, tr @ permit_events K 0 ?n)" for tr
    using share_pages_accepted [OF accepted, of "replicate ?n NULL" tr]
      store_entries_all [of K "replicate ?n NULL"] by simp
  from reach have fresh: "CsqPeekNextIrp (IrpQueue Fdo) (Id' (Permit_Context K In)) = None"
    by (simp add: Permit_reaches_sharing_def)
  show ?thesis
    unfolding Permit_to_sharing [OF reach] Permit_share_and_queue_def
    using mapped fresh
    by (simp add: GA share Let_def log_def IoCsqInsertIrpEx_def context_Id_def NT_SUCCESS_def
        STATUS_SUCCESS_def)
qed

lemma sample_reaches_sharing:
  "Permit_reaches_sharing sample_abi sample_kernel empty_Fdo (sample_request 3 {} 0) 32 0"
  by (simp add: Permit_reaches_sharing_def sample_abi_def sample_kernel_def
        empty_Fdo_def sample_request_def gnttab_parameters_invalid_def PAGE_SIZE_def Permit_Context_def
        CsqPeekNextIrp_def NULL_def Let_def)

lemma sample_kernel_accepts:
  "\<forall>p<n. NT_SUCCESS (fst (GNTTAB_PermitForeignAccess sample_kernel p))"
  by (simp add: sample_kernel_def NT_SUCCESS_def STATUS_SUCCESS_def)

lemma upt_3: "[0 ..< (3::nat)] = [0, 1, 2]"
  by (simp add: upt_conv_Cons)

lemma granted_Fdo_eq:
  "granted_Fdo = \<lparr>IrpQueue = [(500, GrantContext sample_grant_context)],
     StoreWatchList = [], EvtchnList = [],
     trace =
       [Ev_ExAllocatePoolWithTag Pool_GRANT_CONTEXT 8000,
        Ev_ExAllocatePoolWithTag (Pool_Grants 3) 8200,
        Ev_ExAllocatePoolWithTag (Pool_KernelVa 12288) 8300,
        Ev_IoAllocateMdl 8300 12288 8400,
        Ev_PermitForeignAccess 0 STATUS_SUCCESS 9000,
        Ev_PermitForeignAccess 1 STATUS_SUCCESS 9001,
        Ev_PermitForeignAccess 2 STATUS_SUCCESS 9002,
        Ev_MmMapLockedPages 8400 (Inr 8500)]\<rparr>"
proof -
  have mapped: "MmMapLockedPagesSpecifyCache sample_kernel
       (Mdl (Permit_Context sample_kernel (sample_request 3 {} 0))) = Inr 8500" "8500 \<noteq> NULL"
    by (simp_all add: sample_kernel_def NULL_def)
  have n: "unat (In_NumberPages (sample_request 3 {} 0)) = 3"
    by (simp add: sample_request_def)
  show ?thesis
    unfolding granted_Fdo_def
      PermitForeignAccess_pending [OF sample_reaches_sharing sample_kernel_accepts mapped]
    by (simp add: n Permit_Context_def Permit_allocations_def permit_events_def granted_entries_def
        upt_3 sample_kernel_def sample_request_def sample_grant_context_def empty_Fdo_def
        PAGE_SIZE_def Let_def)
qed


lemma CsqPeekNextIrp_None_iff:
  "CsqPeekNextIrp Queue PeekContext = None \<longleftrightarrow> (\<forall>Irp \<in> set Queue. context_Id (snd Irp) \<noteq> PeekContext)"
  unfolding CsqPeekNextIrp_def find_None_iff by blast

lemma events_since_append [simp]:
  "trace Fdo' = trace Fdo @ evs \<Longrightarrow> events_since Fdo Fdo' = evs"
  by (simp add: events_since_def)

lemma events_since_same [simp]: "events_since Fdo Fdo = []"
  by (simp add: events_since_def)

section \<open>The walks of the cleanup\<close>

lemma StoreFreeWatch_ok:
  "NT_SUCCESS (STORE_WatchRemove K (Watch Context)) \<Longrightarrow>
   StoreFreeWatch K Fdo Context = (True, Fdo\<lparr>trace := trace Fdo @ StoreFreeWatch_events K Context\<rparr>)"
  by (simp add: StoreFreeWatch_def StoreFreeWatch_events_def log_def Let_def)

lemma EvtchnFree_trace:
  "EvtchnFree Fdo Context = Fdo\<lparr>trace := trace Fdo @ EvtchnFree_events Context\<rparr>"
  by (simp add: EvtchnFree_def EvtchnFree_events_def log_def)

lemma Cleanup_watches_result:
  assumes "StoreWatchList Fdo = kept @ Nodes"
    and "\<forall>c \<in> set kept. FileObject c \<noteq> FO"
    and "\<forall>c \<in> set Nodes. FileObject c = FO \<longrightarrow> NT_SUCCESS (STORE_WatchRemove K (Watch c))"
  shows "Cleanup_watches K FO Nodes Fdo =
     (True, Fdo\<lparr>StoreWatchList := kept @ filter (\<lambda>c. FileObject c \<noteq> FO) Nodes,
               trace := trace Fdo @ concat (map (StoreFreeWatch_events K)
                                              (filter (\<lambda>c. FileObject c = FO) Nodes))\<rparr>)"
  using assms
proof (induction Nodes arbitrary: Fdo kept)
  case Nil
  then show ?case by simp
next
  case (Cons c Nodes)
  show ?case
  proof (cases "FileObject c = FO")
    case False
    from Cons.prems False have "StoreWatchList Fdo = (kept @ [c]) @ Nodes"
      "\<forall>c \<in> set (kept @ [c]). FileObject c \<noteq> FO"
      "\<forall>c \<in> set Nodes. FileObject c = FO \<longrightarrow> NT_SUCCESS (STORE_WatchRemove K (Watch c))"
      by simp_all
    from Cons.IH [OF this] False show ?thesis by simp
  next
    case True
    let ?Fdo1 = "Fdo\<lparr>StoreWatchList := kept @ Nodes,
                     trace := trace Fdo @ StoreFreeWatch_events K c\<rparr>"
    from True Cons.prems have notin: "c \<notin> set kept" by auto
    then have rm: "RemoveEntryList c (StoreWatchList Fdo) = kept @ Nodes"
      using Cons.prems(1) by (simp add: RemoveEntryList_def remove1_append)
    from True Cons.prems have ok: "NT_SUCCESS (STORE_WatchRemove K (Watch c))" by simp
    have step: "StoreFreeWatch K (Fdo\<lparr>StoreWatchList := RemoveEntryList c (StoreWatchList Fdo)\<rparr>) c
        = (True, ?Fdo1)"
      by (simp add: StoreFreeWatch_ok [OF ok] rm)
    have "StoreWatchList ?Fdo1 = kept @ Nodes" by simp
    from Cons.IH [OF this Cons.prems(2)] Cons.prems(3) True step show ?thesis by simp
  qed
qed

lemma Cleanup_detach_result:
  assumes "List = kept @ Nodes" and "\<forall>c \<in> set kept. EvtchnFileObject c \<noteq> FO"
  shows "Cleanup_detach FO Nodes ToFree List =
     (ToFree @ filter (\<lambda>c. EvtchnFileObject c = FO) Nodes,
      kept @ filter (\<lambda>c. EvtchnFileObject c \<noteq> FO) Nodes)"
  using assms
proof (induction Nodes arbitrary: List kept ToFree)
  case Nil
  then show ?case by simp
next
  case (Cons c Nodes)
  show ?case
  proof (cases "EvtchnFileObject c = FO")
    case False
    from Cons.prems False have "List = (kept @ [c]) @ Nodes"
      "\<forall>c \<in> set (kept @ [c]). EvtchnFileObject c \<noteq> FO" by simp_all
    from Cons.IH [OF this] False show ?thesis by simp
  next
    case True
    with Cons.prems have "c \<notin> set kept" by auto
    then have rm: "RemoveEntryList c List = kept @ Nodes"
      using Cons.prems(1) by (simp add: RemoveEntryList_def remove1_append)
    from Cons.IH [OF rm Cons.prems(2)] True show ?thesis
      by (simp add: rm InsertTailList_def)
  qed
qed

lemma Cleanup_free_result:
  "Cleanup_free ToFree Fdo = Fdo\<lparr>trace := trace Fdo @ concat (map EvtchnFree_events ToFree)\<rparr>"
  by (induction ToFree arbitrary: Fdo) (simp_all add: EvtchnFree_trace)

lemmas status_defs = STATUS_SUCCESS_def STATUS_PENDING_def STATUS_UNSUCCESSFUL_def
  STATUS_INVALID_PARAMETER_def STATUS_NO_MEMORY_def STATUS_INVALID_BUFFER_SIZE_def
  STATUS_NOT_FOUND_def STATUS_CANCELLED_def

section \<open>The walks on the linked lists\<close>

text \<open>Rings: how they split, where the links of an entry point, and which part of the
  memory a ring depends on.\<close>

lemma chain_append: "chain M a (xs @ y # ys) b = (chain M a xs y \<and> chain M y ys b)"
  by (induction xs arbitrary: a) auto

lemma chain_Flink: "chain M a xs b \<Longrightarrow> Flink (M a) = hd (xs @ [b])"
  by (cases xs) auto

lemma chain_Blink: "chain M a xs b \<Longrightarrow> Blink (M b) = last (a # xs)"
  by (induction xs arbitrary: a) auto

lemma chain_Blink_Flink:
  "chain M a xs b \<Longrightarrow> x \<in> set (a # xs) \<Longrightarrow> Blink (M (Flink (M x))) = x"
  by (induction xs arbitrary: a) auto

lemma chain_cong:
  "\<forall>x \<in> set (a # xs). Flink (M' x) = Flink (M x) \<Longrightarrow>
   \<forall>x \<in> set (xs @ [b]). Blink (M' x) = Blink (M x) \<Longrightarrow>
   chain M' a xs b = chain M a xs b"
  by (induction xs arbitrary: a) auto

lemma last_notin_butlast: "distinct xs \<Longrightarrow> x \<in> set (butlast xs) \<Longrightarrow> x \<noteq> last xs"
  by (induction xs) (auto split: if_splits dest: in_set_butlastD)

lemma chain_redirect:
  "chain M a xs c \<Longrightarrow>
   \<forall>x \<in> set (butlast (a # xs)). Flink (M' x) = Flink (M x) \<Longrightarrow>
   \<forall>x \<in> set xs. Blink (M' x) = Blink (M x) \<Longrightarrow>
   Flink (M' (last (a # xs))) = b \<Longrightarrow> Blink (M' b) = last (a # xs) \<Longrightarrow>
   chain M' a xs b"
proof (induction xs arbitrary: a)
  case Nil
  then show ?case by simp
next
  case (Cons x xs)
  from Cons.prems(1) have l: "Flink (M a) = x" "Blink (M x) = a" and c: "chain M x xs c"
    by simp_all
  have bl: "butlast (a # x # xs) = a # butlast (x # xs)" and la: "last (a # x # xs) = last (x # xs)"
    by simp_all
  from Cons.prems(2) have f: "Flink (M' a) = Flink (M a)"
    and fs: "\<forall>y \<in> set (butlast (x # xs)). Flink (M' y) = Flink (M y)"
    unfolding bl by simp_all
  from Cons.prems(3) have b: "Blink (M' x) = Blink (M x)"
    and bs: "\<forall>y \<in> set xs. Blink (M' y) = Blink (M y)" by simp_all
  from Cons.prems(4,5) have e: "Flink (M' (last (x # xs))) = b" "Blink (M' b) = last (x # xs)"
    unfolding la by simp_all
  from Cons.IH [OF c fs bs e] l f b show ?case by simp
qed

text \<open>The end test of the walks: on a ring, \<^verbatim>\<open>Node->Flink == ListHead.Flink\<close> holds for
  the list head and for no entry.\<close>

lemma is_list_walk_ends:
  assumes "is_list M ListHead Entries" "x \<in> set (ListHead # Entries)"
  shows "(Flink (M x) = Flink (M ListHead)) = (x = ListHead)"
proof
  assume eq: "Flink (M x) = Flink (M ListHead)"
  from assms have c: "chain M ListHead Entries ListHead" by (simp add: is_list_def)
  have "x = Blink (M (Flink (M x)))"
    by (rule chain_Blink_Flink [OF c assms(2), symmetric])
  also have "\<dots> = Blink (M (Flink (M ListHead)))"
    by (simp only: eq)
  also have "\<dots> = ListHead"
    by (rule chain_Blink_Flink [OF c]) simp
  finally show "x = ListHead" .
next
  assume "x = ListHead"
  then show "Flink (M x) = Flink (M ListHead)" by (simp only:)
qed

text \<open>\<^verbatim>\<open>RemoveEntryList\<close> takes an entry out of its ring and \<^verbatim>\<open>InsertTailList\<close> puts one
  at the end of a ring; neither changes another ring.\<close>

lemma RemoveEntryList_links_Flink:
  "Flink (RemoveEntryList_links M c x) = (if x = Blink (M c) then Flink (M c) else Flink (M x))"
  by (simp add: RemoveEntryList_links_def Let_def)

lemma RemoveEntryList_links_Blink:
  "Blink (RemoveEntryList_links M c x) = (if x = Flink (M c) then Blink (M c) else Blink (M x))"
  by (simp add: RemoveEntryList_links_def Let_def)


lemma chain_RemoveEntryList:
  assumes c: "chain M a (pre @ e # post) b"
    and d: "distinct (a # pre @ e # post)"
    and b: "b \<notin> set (pre @ e # post)"
  shows "chain (RemoveEntryList_links M e) a (pre @ post) b"
proof -
  let ?M' = "RemoveEntryList_links M e"
  from c have c1: "chain M a pre e" and c2: "chain M e post b"
    by (simp_all add: chain_append)
  have p: "Blink (M e) = last (a # pre)" by (rule chain_Blink [OF c1])
  have n: "Flink (M e) = hd (post @ [b])" by (rule chain_Flink [OF c2])
  have p_in: "last (a # pre) \<in> set (a # pre)" by (rule last_in_set) simp
  have n_in: "hd (post @ [b]) \<in> set (post @ [b])" by (rule hd_in_set) simp
  have F: "Flink (?M' x) = (if x = last (a # pre) then hd (post @ [b]) else Flink (M x))" for x
    by (simp only: RemoveEntryList_links_Flink p n)
  have B: "Blink (?M' x) = (if x = hd (post @ [b]) then last (a # pre) else Blink (M x))" for x
    by (simp only: RemoveEntryList_links_Blink p n)
  have d_pre: "distinct (a # pre)" using d by simp
  have not_last: "x \<noteq> last (a # pre)" if "x \<in> set (butlast (a # pre))" for x
    by (rule last_notin_butlast [OF d_pre that])
  have pre_not_n: "x \<noteq> hd (post @ [b])" if "x \<in> set pre" for x
  proof
    assume "x = hd (post @ [b])"
    with n_in have "x \<in> set post \<or> x = b" by auto
    with that d b show False by auto
  qed
  have redirect: "chain ?M' a pre (hd (post @ [b]))"
  proof (rule chain_redirect [OF c1])
    show "\<forall>x \<in> set (butlast (a # pre)). Flink (?M' x) = Flink (M x)"
      using not_last by (simp add: F)
    show "\<forall>x \<in> set pre. Blink (?M' x) = Blink (M x)"
      using pre_not_n by (simp add: B)
    show "Flink (?M' (last (a # pre))) = hd (post @ [b])" by (simp add: F)
    show "Blink (?M' (hd (post @ [b]))) = last (a # pre)" by (simp add: B)
  qed
  show ?thesis
  proof (cases post)
    case Nil
    with redirect show ?thesis by simp
  next
    case (Cons y ys)
    from c2 Cons have c3: "chain M y ys b" by simp
    have "chain ?M' y ys b = chain M y ys b"
    proof (rule chain_cong)
      show "\<forall>x \<in> set (y # ys). Flink (?M' x) = Flink (M x)"
      proof
        fix x assume "x \<in> set (y # ys)"
        with Cons have "x \<in> set post" by simp
        with d p_in have "x \<noteq> last (a # pre)" by auto
        then show "Flink (?M' x) = Flink (M x)" by (simp add: F)
      qed
      show "\<forall>x \<in> set (ys @ [b]). Blink (?M' x) = Blink (M x)"
      proof
        fix x assume "x \<in> set (ys @ [b])"
        with Cons d b have "x \<noteq> y" by auto
        with Cons show "Blink (?M' x) = Blink (M x)" by (simp add: B)
      qed
    qed
    with c3 redirect Cons show ?thesis by (simp add: chain_append)
  qed
qed

lemma is_list_RemoveEntryList:
  assumes "is_list M ListHead (pre @ e # post)"
  shows "is_list (RemoveEntryList_links M e) ListHead (pre @ post)"
proof -
  from assms have d: "distinct (ListHead # pre @ e # post)"
    and c: "chain M ListHead (pre @ e # post) ListHead" by (simp_all add: is_list_def)
  from d have "ListHead \<notin> set (pre @ e # post)" by simp
  from chain_RemoveEntryList [OF c d this] d show ?thesis by (simp add: is_list_def)
qed


lemma InsertTailList_links_Flink:
  "Flink (InsertTailList_links M ListHead e x) =
     (if x = Blink (M ListHead) then e else if x = e then ListHead else Flink (M x))"
  by (simp add: InsertTailList_links_def Let_def)

lemma InsertTailList_links_Blink:
  "Blink (InsertTailList_links M ListHead e x) =
     (if x = ListHead then e else if x = e then Blink (M ListHead) else Blink (M x))"
  by (simp add: InsertTailList_links_def Let_def)

lemma is_list_InsertTailList:
  assumes l: "is_list M ListHead ys" and e: "e \<notin> set (ListHead # ys)"
  shows "is_list (InsertTailList_links M ListHead e) ListHead (ys @ [e])"
proof -
  let ?M' = "InsertTailList_links M ListHead e"
  from l have d: "distinct (ListHead # ys)" and c: "chain M ListHead ys ListHead"
    by (simp_all add: is_list_def)
  have t: "Blink (M ListHead) = last (ListHead # ys)" by (rule chain_Blink [OF c])
  have t_in: "last (ListHead # ys) \<in> set (ListHead # ys)" by (rule last_in_set) simp
  with e have t_e: "last (ListHead # ys) \<noteq> e" by auto
  have F: "Flink (?M' x) = (if x = last (ListHead # ys) then e
                            else if x = e then ListHead else Flink (M x))" for x
    by (simp only: InsertTailList_links_Flink t)
  have B: "Blink (?M' x) = (if x = ListHead then e
                            else if x = e then last (ListHead # ys) else Blink (M x))" for x
    by (simp only: InsertTailList_links_Blink t)
  have "chain ?M' ListHead ys e"
  proof (rule chain_redirect [OF c])
    show "\<forall>x \<in> set (butlast (ListHead # ys)). Flink (?M' x) = Flink (M x)"
    proof
      fix x assume x: "x \<in> set (butlast (ListHead # ys))"
      from last_notin_butlast [OF d x] have "x \<noteq> last (ListHead # ys)" .
      moreover from in_set_butlastD [OF x] e have "x \<noteq> e" by auto
      ultimately show "Flink (?M' x) = Flink (M x)" by (simp add: F)
    qed
    show "\<forall>x \<in> set ys. Blink (?M' x) = Blink (M x)"
      using d e by (auto simp: B)
    show "Flink (?M' (last (ListHead # ys))) = e" by (simp add: F)
    show "Blink (?M' e) = last (ListHead # ys)" using e by (simp add: B)
  qed
  moreover have "chain ?M' e [] ListHead"
    using t_e by (simp add: F B)
  ultimately have "chain ?M' ListHead (ys @ [e]) ListHead" by (simp add: chain_append)
  with d e show ?thesis by (simp add: is_list_def)
qed

lemma chain_neighbours:
  assumes "chain M a xs b" "e \<in> set xs"
  shows "Blink (M e) \<in> set (a # xs)" "Flink (M e) \<in> set (xs @ [b])"
proof -
  from assms(2) obtain pre post where xs: "xs = pre @ e # post" by (auto dest: split_list)
  with assms(1) have c1: "chain M a pre e" and c2: "chain M e post b"
    by (simp_all add: chain_append)
  have "last (a # pre) \<in> set (a # pre)" by (rule last_in_set) simp
  with chain_Blink [OF c1] xs show "Blink (M e) \<in> set (a # xs)" by auto
  have "hd (post @ [b]) \<in> set (post @ [b])" by (rule hd_in_set) simp
  with chain_Flink [OF c2] xs show "Flink (M e) \<in> set (xs @ [b])" by auto
qed

lemma is_list_RemoveEntryList_other:
  assumes t: "is_list M ToFree ys" and l: "is_list M ListHead xs" and e: "e \<in> set xs"
    and disj: "set (ListHead # xs) \<inter> set (ToFree # ys) = {}"
  shows "is_list (RemoveEntryList_links M e) ToFree ys"
proof -
  from l have c: "chain M ListHead xs ListHead" by (simp add: is_list_def)
  from chain_neighbours [OF c e] have p: "Blink (M e) \<in> set (ListHead # xs)"
    and n: "Flink (M e) \<in> set (ListHead # xs)" by auto
  have "chain (RemoveEntryList_links M e) ToFree ys ToFree = chain M ToFree ys ToFree"
  proof (rule chain_cong)
    show "\<forall>x \<in> set (ToFree # ys). Flink (RemoveEntryList_links M e x) = Flink (M x)"
      using p disj by (auto simp: RemoveEntryList_links_Flink)
    show "\<forall>x \<in> set (ys @ [ToFree]). Blink (RemoveEntryList_links M e x) = Blink (M x)"
      using n disj by (auto simp: RemoveEntryList_links_Blink)
  qed
  with t show ?thesis by (simp add: is_list_def)
qed

lemma is_list_InsertTailList_other:
  assumes l: "is_list M ListHead xs" and t: "is_list M ToFree ys"
    and e: "e \<notin> set (ListHead # xs)"
    and disj: "set (ListHead # xs) \<inter> set (ToFree # ys) = {}"
  shows "is_list (InsertTailList_links M ToFree e) ListHead xs"
proof -
  from t have c: "chain M ToFree ys ToFree" by (simp add: is_list_def)
  have "last (ToFree # ys) \<in> set (ToFree # ys)" by (rule last_in_set) simp
  with chain_Blink [OF c] have b: "Blink (M ToFree) \<in> set (ToFree # ys)" by simp
  have "chain (InsertTailList_links M ToFree e) ListHead xs ListHead = chain M ListHead xs ListHead"
  proof (rule chain_cong)
    show "\<forall>x \<in> set (ListHead # xs). Flink (InsertTailList_links M ToFree e x) = Flink (M x)"
      using b e disj by (auto simp: InsertTailList_links_Flink)
    show "\<forall>x \<in> set (xs @ [ListHead]). Blink (InsertTailList_links M ToFree e x) = Blink (M x)"
      using e disj by (auto simp: InsertTailList_links_Blink)
  qed
  with l show ?thesis by (simp add: is_list_def)
qed

lemma is_list_next:
  assumes "is_list M ListHead (kept @ r # rest)"
  shows "Flink (M r) = hd (rest @ [ListHead])" "Flink (M r) \<noteq> Flink (M ListHead)"
proof -
  from assms have c: "chain M ListHead (kept @ r # rest) ListHead"
    and d: "distinct (ListHead # kept @ r # rest)" by (simp_all add: is_list_def)
  from c have "chain M r rest ListHead" by (simp add: chain_append)
  then show "Flink (M r) = hd (rest @ [ListHead])" by (rule chain_Flink)
  from d have "r \<noteq> ListHead" by auto
  with is_list_walk_ends [OF assms, of r] show "Flink (M r) \<noteq> Flink (M ListHead)" by simp
qed

lemma RemoveEntryList_links_outside:
  assumes l: "is_list M ListHead xs" and e: "e \<in> set xs" and x: "x \<notin> set (ListHead # xs)"
  shows "RemoveEntryList_links M e x = M x"
proof -
  from l have c: "chain M ListHead xs ListHead" by (simp add: is_list_def)
  from chain_neighbours [OF c e] x have "x \<noteq> Blink (M e)" "x \<noteq> Flink (M e)" by auto
  then show ?thesis by (simp add: RemoveEntryList_links_def Let_def)
qed

lemma InsertTailList_links_outside:
  assumes t: "is_list M ToFree ys" and x: "x \<notin> set (ToFree # ys)" "x \<noteq> e"
  shows "InsertTailList_links M ToFree e x = M x"
proof -
  from t have c: "chain M ToFree ys ToFree" by (simp add: is_list_def)
  have "last (ToFree # ys) \<in> set (ToFree # ys)" by (rule last_in_set) simp
  with chain_Blink [OF c] x have "x \<noteq> Blink (M ToFree)" "x \<noteq> ToFree" by auto
  with x show ?thesis by (simp add: InsertTailList_links_def Let_def)
qed

text \<open>The first loop of \<^verbatim>\<open>XenIfaceCleanup\<close> on a well-formed list: it returns, it has
  unlinked the entries of the file object and handed them to \<^verbatim>\<open>StoreFreeWatch\<close> in list
  order, the other entries are the list that is left, and no memory outside the list
  has changed.\<close>

lemma Cleanup_store_walk_result:
  assumes "is_list M ListHead (kept @ rest)" and "Node = hd (rest @ [ListHead])"
  shows "\<exists>M'. Cleanup_store_walk Object FileObject' ListHead M Node Freed
                 = Some (M', Freed @ filter (\<lambda>c. FileObject (Object c) = FileObject') rest) \<and>
               is_list M' ListHead (kept @ filter (\<lambda>c. FileObject (Object c) \<noteq> FileObject') rest) \<and>
               (\<forall>x. x \<notin> set (ListHead # kept @ rest) \<longrightarrow> M' x = M x)"
  using assms
proof (induction rest arbitrary: M kept Node Freed)
  case Nil
  then show ?case by (subst Cleanup_store_walk.simps) simp
next
  case (Cons r rest)
  note nx = is_list_next [OF Cons.prems(1)]
  from Cons.prems(2) have Node: "Node = r" by simp
  show ?case
  proof (cases "FileObject (Object r) = FileObject'")
    case False
    from Cons.prems(1) have "is_list M ListHead ((kept @ [r]) @ rest)" by simp
    from Cons.IH [OF this nx(1), of Freed] False nx show ?thesis
      by (subst Cleanup_store_walk.simps) (simp add: Node Let_def)
  next
    case True
    let ?M1 = "RemoveEntryList_links M r"
    from is_list_RemoveEntryList [OF Cons.prems(1)]
    have "is_list ?M1 ListHead (kept @ rest)" .
    from Cons.IH [OF this nx(1), of "Freed @ [r]"]
    obtain M' where M':
      "Cleanup_store_walk Object FileObject' ListHead ?M1 (Flink (M r)) (Freed @ [r])
         = Some (M', (Freed @ [r]) @ filter (\<lambda>c. FileObject (Object c) = FileObject') rest)"
      "is_list M' ListHead (kept @ filter (\<lambda>c. FileObject (Object c) \<noteq> FileObject') rest)"
      "\<forall>x. x \<notin> set (ListHead # kept @ rest) \<longrightarrow> M' x = ?M1 x"
      by blast
    have frame: "M' x = M x" if x: "x \<notin> set (ListHead # kept @ r # rest)" for x
    proof -
      from x M'(3) have "M' x = ?M1 x" by simp
      also have "\<dots> = M x"
        by (rule RemoveEntryList_links_outside [OF Cons.prems(1) _ x]) simp
      finally show ?thesis .
    qed
    from M'(1,2) frame True nx show ?thesis
      by (subst Cleanup_store_walk.simps) (simp add: Node Let_def)
  qed
qed

text \<open>The third loop, over the local list \<open>ToFree\<close>: it returns, it has handed every
  entry to \<^verbatim>\<open>EvtchnFree\<close> in list order, and the list is empty.\<close>

lemma Cleanup_free_walk_result:
  assumes "is_list M ToFree rest" and "Node = hd (rest @ [ToFree])"
  shows "\<exists>M'. Cleanup_free_walk ToFree M Node Freed = Some (M', Freed @ rest) \<and>
               is_list M' ToFree [] \<and>
               (\<forall>x. x \<notin> set (ToFree # rest) \<longrightarrow> M' x = M x)"
  using assms
proof (induction rest arbitrary: M Node Freed)
  case Nil
  then show ?case by (subst Cleanup_free_walk.simps) simp
next
  case (Cons r rest)
  let ?M1 = "RemoveEntryList_links M r"
  from Cons.prems(1) have l: "is_list M ToFree ([] @ r # rest)" by simp
  note nx = is_list_next [OF l]
  from Cons.prems(2) have Node: "Node = r" by simp
  from is_list_RemoveEntryList [OF l]
  have "is_list ?M1 ToFree rest" by simp
  from Cons.IH [OF this nx(1), of "Freed @ [r]"]
  obtain M' where M':
    "Cleanup_free_walk ToFree ?M1 (Flink (M r)) (Freed @ [r]) = Some (M', (Freed @ [r]) @ rest)"
    "is_list M' ToFree []"
    "\<forall>x. x \<notin> set (ToFree # rest) \<longrightarrow> M' x = ?M1 x"
    by blast
  have frame: "M' x = M x" if x: "x \<notin> set (ToFree # r # rest)" for x
  proof -
    from x M'(3) have "M' x = ?M1 x" by simp
    also have "\<dots> = M x"
      by (rule RemoveEntryList_links_outside [OF Cons.prems(1) _ x]) simp
    finally show ?thesis .
  qed
  from M'(1,2) frame nx show ?case
    by (subst Cleanup_free_walk.simps) (simp add: Node Let_def)
qed

text \<open>The second loop: the entries of the file object move from the channel list to
  \<open>ToFree\<close>, in list order.\<close>

lemma Cleanup_evtchn_walk_result:
  assumes "is_list M ListHead (kept @ rest)" and "is_list M ToFree ys"
    and "set (ListHead # kept @ rest) \<inter> set (ToFree # ys) = {}"
    and "Node = hd (rest @ [ListHead])"
  shows "\<exists>M'. Cleanup_evtchn_walk Object FileObject' ListHead ToFree M Node = Some M' \<and>
               is_list M' ListHead
                 (kept @ filter (\<lambda>c. EvtchnFileObject (Object c) \<noteq> FileObject') rest) \<and>
               is_list M' ToFree
                 (ys @ filter (\<lambda>c. EvtchnFileObject (Object c) = FileObject') rest) \<and>
               (\<forall>x. x \<notin> set (ListHead # kept @ rest) \<union> set (ToFree # ys) \<longrightarrow> M' x = M x)"
  using assms
proof (induction rest arbitrary: M kept ys Node)
  case Nil
  then show ?case by (subst Cleanup_evtchn_walk.simps) simp
next
  case (Cons r rest)
  note nx = is_list_next [OF Cons.prems(1)]
  from Cons.prems(4) have Node: "Node = r" by simp
  show ?case
  proof (cases "EvtchnFileObject (Object r) = FileObject'")
    case False
    from Cons.prems(1) have l: "is_list M ListHead ((kept @ [r]) @ rest)" by simp
    from Cons.prems(3) have disj: "set (ListHead # (kept @ [r]) @ rest) \<inter> set (ToFree # ys) = {}"
      by simp
    from Cons.IH [OF l Cons.prems(2) disj nx(1)] False nx show ?thesis
      by (subst Cleanup_evtchn_walk.simps) (simp add: Node Let_def)
  next
    case True
    let ?M1 = "RemoveEntryList_links M r"
    let ?M2 = "InsertTailList_links ?M1 ToFree r"
    from Cons.prems(1) have d: "distinct (ListHead # kept @ r # rest)" by (simp add: is_list_def)
    have l1: "is_list ?M1 ListHead (kept @ rest)"
      by (rule is_list_RemoveEntryList [OF Cons.prems(1)])
    have t1: "is_list ?M1 ToFree ys"
      by (rule is_list_RemoveEntryList_other [OF Cons.prems(2) Cons.prems(1) _ Cons.prems(3)]) simp
    from Cons.prems(3) have disj1: "set (ListHead # kept @ rest) \<inter> set (ToFree # ys) = {}"
      by auto
    from d have r1: "r \<notin> set (ListHead # kept @ rest)" by auto
    from Cons.prems(3) have r2: "r \<notin> set (ToFree # ys)" by auto
    have l2: "is_list ?M2 ListHead (kept @ rest)"
      by (rule is_list_InsertTailList_other [OF l1 t1 r1 disj1])
    have t2: "is_list ?M2 ToFree (ys @ [r])"
      by (rule is_list_InsertTailList [OF t1 r2])
    from disj1 r1 have disj2: "set (ListHead # kept @ rest) \<inter> set (ToFree # ys @ [r]) = {}"
      by auto
    from Cons.IH [OF l2 t2 disj2 nx(1)]
    obtain M' where M':
      "Cleanup_evtchn_walk Object FileObject' ListHead ToFree ?M2 (Flink (M r)) = Some M'"
      "is_list M' ListHead
         (kept @ filter (\<lambda>c. EvtchnFileObject (Object c) \<noteq> FileObject') rest)"
      "is_list M' ToFree
         ((ys @ [r]) @ filter (\<lambda>c. EvtchnFileObject (Object c) = FileObject') rest)"
      "\<forall>x. x \<notin> set (ListHead # kept @ rest) \<union> set (ToFree # ys @ [r]) \<longrightarrow> M' x = ?M2 x"
      by blast
    have frame: "M' x = M x"
      if x: "x \<notin> set (ListHead # kept @ r # rest) \<union> set (ToFree # ys)" for x
    proof -
      from x have x1: "x \<notin> set (ListHead # kept @ r # rest)" and x2: "x \<notin> set (ToFree # ys)"
        and x3: "x \<noteq> r" by auto
      from x M'(4) have "M' x = ?M2 x" by simp
      also have "\<dots> = ?M1 x"
        by (rule InsertTailList_links_outside [OF t1 x2 x3])
      also have "\<dots> = M x"
        by (rule RemoveEntryList_links_outside [OF Cons.prems(1) _ x1]) simp
      finally show ?thesis .
    qed
    from M'(1,2,3) frame True nx show ?thesis
      by (subst Cleanup_evtchn_walk.simps) (simp add: Node Let_def)
  qed
qed

text \<open>The same for lists of contexts, and the loops that only look for an entry.\<close>

lemma represents_distinct:
  assumes "represents M ListHead Object (kept @ r # rest)"
  shows "r \<notin> set kept"
proof
  assume "r \<in> set kept"
  then have "This r \<in> set (map This kept)" by simp
  moreover from assms have "distinct (map This (kept @ r # rest))"
    by (simp add: represents_def is_list_def)
  ultimately show False by simp
qed

lemma represents_RemoveEntryList:
  assumes "represents M ListHead Object (kept @ r # rest)"
  shows "represents (RemoveEntryList_links M (This r)) ListHead Object (kept @ rest)"
    and "RemoveEntryList r (kept @ r # rest) = kept @ rest"
proof -
  from assms have "is_list M ListHead (map This kept @ This r # map This rest)"
    by (simp add: represents_def)
  from is_list_RemoveEntryList [OF this] assms
  show "represents (RemoveEntryList_links M (This r)) ListHead Object (kept @ rest)"
    by (simp add: represents_def)
  from represents_distinct [OF assms]
  show "RemoveEntryList r (kept @ r # rest) = kept @ rest"
    by (simp add: RemoveEntryList_def remove1_append)
qed

lemma represents_next:
  assumes "represents M ListHead Object (kept @ r # rest)"
  shows "Flink (M (This r)) = hd (map This rest @ [ListHead])"
    and "Flink (M (This r)) \<noteq> Flink (M ListHead)"
    and "Object (This r) = r"
proof -
  from assms have l: "is_list M ListHead (map This kept @ This r # map This rest)"
    by (simp add: represents_def)
  from is_list_next [OF l]
  show "Flink (M (This r)) = hd (map This rest @ [ListHead])"
    and "Flink (M (This r)) \<noteq> Flink (M ListHead)" by simp_all
  from assms show "Object (This r) = r" by (simp add: represents_def)
qed

lemma represents_first:
  assumes "represents M ListHead Object Contexts"
  shows "Flink (M ListHead) = hd (map This Contexts @ [ListHead])"
proof -
  from assms have "chain M ListHead (map This Contexts) ListHead"
    by (simp add: represents_def is_list_def)
  then show ?thesis by (rule chain_Flink)
qed

lemma RemoveWatch_links_walk_continue:
  "Flink (M Node) \<noteq> Flink (M ListHead) \<Longrightarrow>
   Node \<noteq> In_Context \<or> FileObject (Object Node) \<noteq> FileObject' \<Longrightarrow>
   RemoveWatch_links_walk Object In_Context FileObject' ListHead M Node Context
     = RemoveWatch_links_walk Object In_Context FileObject' ListHead M (Flink (M Node)) Node"
  by (subst RemoveWatch_links_walk.simps) (simp add: Let_def)

lemma RemoveWatch_links_walk_match:
  "Flink (M Node) \<noteq> Flink (M ListHead) \<Longrightarrow>
   Node = In_Context \<Longrightarrow> FileObject (Object Node) = FileObject' \<Longrightarrow>
   RemoveWatch_links_walk Object In_Context FileObject' ListHead M Node Context
     = Some (Node, RemoveEntryList_links M Node)"
  by (subst RemoveWatch_links_walk.simps) (simp add: Let_def)

text \<open>The loop of \<^verbatim>\<open>IoctlStoreRemoveWatch\<close> returns, with the value of \<open>Context\<close> and
  the list that \<open>RemoveWatch_walk\<close> computes.\<close>

lemma RemoveWatch_links_walk_result:
  assumes "represents M ListHead Object (kept @ rest)"
    and "Node = hd (map This rest @ [ListHead])"
  shows "\<exists>M'. RemoveWatch_links_walk Object In_Context FileObject' ListHead M Node
                 (case Context of None \<Rightarrow> NULL | Some c \<Rightarrow> This c)
               = Some (case fst (RemoveWatch_walk In_Context FileObject' rest Context (kept @ rest)) of
                         None \<Rightarrow> NULL | Some c \<Rightarrow> This c, M') \<and>
             represents M' ListHead Object
               (snd (RemoveWatch_walk In_Context FileObject' rest Context (kept @ rest)))"
  using assms
proof (induction rest arbitrary: kept Context Node)
  case Nil
  then show ?case by (subst RemoveWatch_links_walk.simps) simp
next
  case (Cons r rest)
  note nx = represents_next [OF Cons.prems(1)]
  from Cons.prems(2) have Node: "Node = This r" by simp
  show ?case
  proof (cases "This r \<noteq> In_Context \<or> FileObject r \<noteq> FileObject'")
    case True
    then have c: "This r \<noteq> In_Context \<or> FileObject (Object (This r)) \<noteq> FileObject'"
      by (simp only: nx(3))
    from Cons.prems(1) have "represents M ListHead Object ((kept @ [r]) @ rest)" by simp
    from Cons.IH [OF this nx(1), of "Some r"] True show ?thesis
      unfolding Node RemoveWatch_links_walk_continue [where Object = Object and Node = "This r", OF nx(2) c] by (simp add: nx(1))
  next
    case False
    then have c: "This r = In_Context" "FileObject (Object (This r)) = FileObject'"
      by (simp_all only: nx(3)) simp_all
    from represents_RemoveEntryList [OF Cons.prems(1)] False show ?thesis
      unfolding Node RemoveWatch_links_walk_match [where Object = Object and Node = "This r", OF nx(2) c] by simp
  qed
qed

text \<open>The loop of \<^verbatim>\<open>EvtchnFindChannel\<close> returns what \<open>EvtchnFindChannel\<close> computes.\<close>

lemma EvtchnFindChannel_walk_result:
  assumes "represents M ListHead Object (kept @ rest)"
    and "Node = hd (map This rest @ [ListHead])"
  shows "EvtchnFindChannel_walk Object Port FileObject' ListHead M Node
           = Some (case EvtchnFindChannel rest Port FileObject' of
                     None \<Rightarrow> NULL | Some c \<Rightarrow> This c)"
  using assms
proof (induction rest arbitrary: kept Node)
  case Nil
  then show ?case by (subst EvtchnFindChannel_walk.simps) simp
next
  case (Cons r rest)
  note nx = represents_next [OF Cons.prems(1)]
  from Cons.prems(2) have Node: "Node = This r" by simp
  from Cons.prems(1) have "represents M ListHead Object ((kept @ [r]) @ rest)" by simp
  from Cons.IH [OF this nx(1)] nx show ?case
    by (subst EvtchnFindChannel_walk.simps) (simp add: Node Let_def)
qed

lemma filter_This:
  assumes "list_all (\<lambda>c. Object (This c) = c) Contexts"
  shows "filter (\<lambda>a. P (Object a)) (map This Contexts) = map This (filter P Contexts)"
  using assms by (induction Contexts) simp_all

lemma represents_filter:
  "list_all (\<lambda>c. Object (This c) = c) Contexts \<Longrightarrow>
   list_all (\<lambda>c. Object (This c) = c) (filter P Contexts)"
  by (induction Contexts) simp_all

lemma represents_frame:
  assumes rep: "represents M ListHead Object Contexts"
    and same: "\<forall>x \<in> set (ListHead # map This Contexts). M' x = M x"
  shows "represents M' ListHead Object Contexts"
proof -
  have "chain M' ListHead (map This Contexts) ListHead = chain M ListHead (map This Contexts) ListHead"
    by (rule chain_cong) (use same in auto)
  with rep show ?thesis by (simp add: represents_def is_list_def)
qed

lemma Cleanup_store_walk_represents:
  assumes rep: "represents M ListHead Object Contexts"
  shows "\<exists>M'. Cleanup_store_walk Object FileObject' ListHead M (Flink (M ListHead)) []
                 = Some (M', map This (filter (\<lambda>c. FileObject c = FileObject') Contexts)) \<and>
               represents M' ListHead Object (filter (\<lambda>c. FileObject c \<noteq> FileObject') Contexts) \<and>
               (\<forall>x. x \<notin> set (ListHead # map This Contexts) \<longrightarrow> M' x = M x)"
proof -
  from rep have l: "is_list M ListHead ([] @ map This Contexts)"
    and obj: "list_all (\<lambda>c. Object (This c) = c) Contexts" by (simp_all add: represents_def)
  from Cleanup_store_walk_result [OF l represents_first [OF rep], of Object FileObject' "[]"]
  obtain M' where
    "Cleanup_store_walk Object FileObject' ListHead M (Flink (M ListHead)) []
       = Some (M', filter (\<lambda>c. FileObject (Object c) = FileObject') (map This Contexts))"
    "is_list M' ListHead (filter (\<lambda>c. FileObject (Object c) \<noteq> FileObject') (map This Contexts))"
    "\<forall>x. x \<notin> set (ListHead # map This Contexts) \<longrightarrow> M' x = M x"
    by auto
  then show ?thesis
    by (intro exI [of _ M'])
       (simp add: filter_This [OF obj, where P = "\<lambda>c. FileObject c = FileObject'"]
          filter_This [OF obj, where P = "\<lambda>c. FileObject c \<noteq> FileObject'"]
          represents_def represents_filter [OF obj])
qed

lemma Cleanup_evtchn_walk_represents:
  assumes rep: "represents M ListHead Object Contexts"
    and t: "is_list M ToFree []"
    and disj: "ToFree \<notin> set (ListHead # map This Contexts)"
  shows "\<exists>M'. Cleanup_evtchn_walk Object FileObject' ListHead ToFree M (Flink (M ListHead))
                 = Some M' \<and>
               represents M' ToFree Object (fst (Cleanup_detach FileObject' Contexts [] Contexts)) \<and>
               represents M' ListHead Object (snd (Cleanup_detach FileObject' Contexts [] Contexts)) \<and>
               (\<forall>x. x \<notin> set (ToFree # ListHead # map This Contexts) \<longrightarrow> M' x = M x)"
proof -
  from rep have l: "is_list M ListHead ([] @ map This Contexts)"
    and obj: "list_all (\<lambda>c. Object (This c) = c) Contexts" by (simp_all add: represents_def)
  from disj have d: "set (ListHead # [] @ map This Contexts) \<inter> set (ToFree # []) = {}" by simp
  have detach: "Cleanup_detach FileObject' Contexts [] Contexts =
      (filter (\<lambda>c. EvtchnFileObject c = FileObject') Contexts,
       filter (\<lambda>c. EvtchnFileObject c \<noteq> FileObject') Contexts)"
    using Cleanup_detach_result [of Contexts "[]" Contexts FileObject' "[]"] by simp
  from Cleanup_evtchn_walk_result [OF l t d represents_first [OF rep], of Object FileObject']
  obtain M' where
    "Cleanup_evtchn_walk Object FileObject' ListHead ToFree M (Flink (M ListHead)) = Some M'"
    "is_list M' ListHead
       (filter (\<lambda>c. EvtchnFileObject (Object c) \<noteq> FileObject') (map This Contexts))"
    "is_list M' ToFree
       (filter (\<lambda>c. EvtchnFileObject (Object c) = FileObject') (map This Contexts))"
    "\<forall>x. x \<notin> set (ToFree # ListHead # map This Contexts) \<longrightarrow> M' x = M x"
    by auto
  then show ?thesis
    by (intro exI [of _ M'])
       (simp add: detach filter_This [OF obj, where P = "\<lambda>c. EvtchnFileObject c = FileObject'"]
          filter_This [OF obj, where P = "\<lambda>c. EvtchnFileObject c \<noteq> FileObject'"]
          represents_def represents_filter [OF obj])
qed

lemma Cleanup_free_walk_represents:
  assumes rep: "represents M ToFree Object Contexts"
  shows "\<exists>M'. Cleanup_free_walk ToFree M (Flink (M ToFree)) [] = Some (M', map This Contexts) \<and>
               is_list M' ToFree [] \<and>
               (\<forall>x. x \<notin> set (ToFree # map This Contexts) \<longrightarrow> M' x = M x)"
proof -
  from rep have l: "is_list M ToFree (map This Contexts)" by (simp add: represents_def)
  from Cleanup_free_walk_result [OF l represents_first [OF rep], of "[]"]
  show ?thesis by simp
qed

lemma is_list_InitializeListHead:
  "is_list (InitializeListHead_links M ToFree) ToFree []"
  by (simp add: is_list_def InitializeListHead_links_def)

lemma represents_InitializeListHead:
  assumes "represents M ListHead Object Contexts" "ToFree \<notin> set (ListHead # map This Contexts)"
  shows "represents (InitializeListHead_links M ToFree) ListHead Object Contexts"
  by (rule represents_frame [OF assms(1)]) (use assms(2) in \<open>auto simp: InitializeListHead_links_def\<close>)

text \<open>What \<open>XenIfaceCleanup\<close> returns when the store removes the watches it is asked
  to remove.\<close>

lemma XenIfaceCleanup_result:
  assumes ok: "\<forall>c \<in> set (StoreWatchList Fdo).
              FileObject c = FileObject' \<longrightarrow> NT_SUCCESS (STORE_WatchRemove K (Watch c))"
  shows "XenIfaceCleanup K Fdo FileObject' =
      (True, Fdo\<lparr>StoreWatchList := filter (\<lambda>c. FileObject c \<noteq> FileObject') (StoreWatchList Fdo),
                EvtchnList := filter (\<lambda>c. EvtchnFileObject c \<noteq> FileObject') (EvtchnList Fdo),
                trace := trace Fdo
                  @ [Ev_KeAcquireSpinLock StoreWatchLock]
                  @ concat (map (StoreFreeWatch_events K)
                             (filter (\<lambda>c. FileObject c = FileObject') (StoreWatchList Fdo)))
                  @ [Ev_KeReleaseSpinLock StoreWatchLock,
                     Ev_KeAcquireSpinLock EvtchnLock, Ev_KeReleaseSpinLock EvtchnLock]
                  @ concat (map EvtchnFree_events
                             (filter (\<lambda>c. EvtchnFileObject c = FileObject') (EvtchnList Fdo)))\<rparr>)"
proof -
  let ?F1 = "log (Ev_KeAcquireSpinLock StoreWatchLock) Fdo"
  have w: "Cleanup_watches K FileObject' (StoreWatchList ?F1) ?F1 =
     (True, ?F1\<lparr>StoreWatchList := [] @ filter (\<lambda>c. FileObject c \<noteq> FileObject') (StoreWatchList ?F1),
             trace := trace ?F1 @ concat (map (StoreFreeWatch_events K)
                        (filter (\<lambda>c. FileObject c = FileObject') (StoreWatchList ?F1)))\<rparr>)"
    by (rule Cleanup_watches_result) (use ok in \<open>simp_all add: log_def\<close>)
  have d: "Cleanup_detach FileObject' L [] L =
     ([] @ filter (\<lambda>c. EvtchnFileObject c = FileObject') L,
      [] @ filter (\<lambda>c. EvtchnFileObject c \<noteq> FileObject') L)" for L
    by (rule Cleanup_detach_result) simp_all
  show ?thesis
    unfolding XenIfaceCleanup_def
    by (simp add: w d Let_def Cleanup_free_result) (simp add: log_def)
qed

lemma This_filter_disjoint:
  assumes "distinct (map This Contexts)"
  shows "set (map This (filter P Contexts)) \<inter> set (map This (filter (\<lambda>c. \<not> P c) Contexts)) = {}"
  using assms by (induction Contexts) auto

text \<open>The three loops of \<^verbatim>\<open>XenIfaceCleanup\<close> one after the other, on a memory that holds
  the two lists of the device extension: they return, the contexts handed to
  \<^verbatim>\<open>StoreFreeWatch\<close> and to \<^verbatim>\<open>EvtchnFree\<close> are those that the recursions over the lists
  tear down, in the same order, and the memory then holds the two lists that
  \<open>XenIfaceCleanup\<close> returns.\<close>

lemma XenIfaceCleanup_walks_refine:
  assumes s: "represents M StoreHead StoreObject (StoreWatchList Fdo)"
    and e: "represents M EvtchnHead EvtchnObject (EvtchnList Fdo)"
    and disj: "set (StoreHead # map This (StoreWatchList Fdo))
                 \<inter> set (EvtchnHead # map This (EvtchnList Fdo)) = {}"
    and t: "ToFree \<notin> set (StoreHead # map This (StoreWatchList Fdo))"
           "ToFree \<notin> set (EvtchnHead # map This (EvtchnList Fdo))"
    and ok: "\<forall>c \<in> set (StoreWatchList Fdo).
               FileObject c = FileObject' \<longrightarrow> NT_SUCCESS (STORE_WatchRemove K (Watch c))"
  shows "\<exists>M'. XenIfaceCleanup_walks StoreObject EvtchnObject FileObject' StoreHead EvtchnHead ToFree M
                 = Some (M', map This (filter (\<lambda>c. FileObject c = FileObject') (StoreWatchList Fdo)),
                         map This (filter (\<lambda>c. EvtchnFileObject c = FileObject') (EvtchnList Fdo))) \<and>
               represents M' StoreHead StoreObject
                 (StoreWatchList (snd (XenIfaceCleanup K Fdo FileObject'))) \<and>
               represents M' EvtchnHead EvtchnObject
                 (EvtchnList (snd (XenIfaceCleanup K Fdo FileObject')))"
proof -
  let ?Ws = "StoreWatchList Fdo" and ?Cs = "EvtchnList Fdo"
  let ?Kept = "filter (\<lambda>c. FileObject c \<noteq> FileObject') ?Ws"
  let ?Others = "filter (\<lambda>c. EvtchnFileObject c \<noteq> FileObject') ?Cs"
  let ?Owned = "filter (\<lambda>c. EvtchnFileObject c = FileObject') ?Cs"
  have sub_w: "set (map This ?Kept) \<subseteq> set (map This ?Ws)" by auto
  have sub_c: "set (map This ?Others) \<subseteq> set (map This ?Cs)" by auto
  have sub_o: "set (map This ?Owned) \<subseteq> set (map This ?Cs)" by auto
  from e have "distinct (map This ?Cs)" by (simp add: represents_def is_list_def)
  from This_filter_disjoint [OF this, of "\<lambda>c. EvtchnFileObject c = FileObject'"]
  have apart: "set (map This ?Owned) \<inter> set (map This ?Others) = {}" by simp
  from e have head_c: "EvtchnHead \<notin> set (map This ?Cs)" by (simp add: represents_def is_list_def)
  note facts = disj [unfolded list.set(2)] t [unfolded list.set(2)] sub_w sub_c sub_o apart head_c
  have detach: "Cleanup_detach FileObject' ?Cs [] ?Cs = (?Owned, ?Others)"
    using Cleanup_detach_result [of ?Cs "[]" ?Cs FileObject' "[]"] by simp
  from Cleanup_store_walk_represents [OF s, of FileObject']
  obtain M1 where M1:
    "Cleanup_store_walk StoreObject FileObject' StoreHead M (Flink (M StoreHead)) []
       = Some (M1, map This (filter (\<lambda>c. FileObject c = FileObject') ?Ws))"
    "represents M1 StoreHead StoreObject ?Kept"
    "\<forall>x. x \<notin> set (StoreHead # map This ?Ws) \<longrightarrow> M1 x = M x"
    by blast
  let ?M2 = "InitializeListHead_links M1 ToFree"
  have e1: "represents M1 EvtchnHead EvtchnObject ?Cs"
  proof (rule represents_frame [OF e], rule ballI)
    fix x assume "x \<in> set (EvtchnHead # map This ?Cs)"
    with facts have "x \<notin> set (StoreHead # map This ?Ws)" unfolding list.set(2) by blast
    with M1(3) show "M1 x = M x" by blast
  qed
  have e2: "represents ?M2 EvtchnHead EvtchnObject ?Cs"
    by (rule represents_InitializeListHead [OF e1 t(2)])
  have "ToFree \<notin> set (StoreHead # map This ?Kept)"
    using facts unfolding list.set(2) by blast
  then have s2: "represents ?M2 StoreHead StoreObject ?Kept"
    by (rule represents_InitializeListHead [OF M1(2)])
  from Cleanup_evtchn_walk_represents [OF e2 is_list_InitializeListHead t(2), of FileObject']
  obtain M3 where M3:
    "Cleanup_evtchn_walk EvtchnObject FileObject' EvtchnHead ToFree ?M2 (Flink (?M2 EvtchnHead))
       = Some M3"
    "represents M3 ToFree EvtchnObject ?Owned"
    "represents M3 EvtchnHead EvtchnObject ?Others"
    "\<forall>x. x \<notin> set (ToFree # EvtchnHead # map This ?Cs) \<longrightarrow> M3 x = ?M2 x"
    unfolding detach fst_conv snd_conv by blast
  have s3: "represents M3 StoreHead StoreObject ?Kept"
  proof (rule represents_frame [OF s2], rule ballI)
    fix x assume "x \<in> set (StoreHead # map This ?Kept)"
    with facts have "x \<notin> set (ToFree # EvtchnHead # map This ?Cs)" unfolding list.set(2) by blast
    with M3(4) show "M3 x = ?M2 x" by blast
  qed
  from Cleanup_free_walk_represents [OF M3(2)]
  obtain M4 where M4:
    "Cleanup_free_walk ToFree M3 (Flink (M3 ToFree)) [] = Some (M4, map This ?Owned)"
    "\<forall>x. x \<notin> set (ToFree # map This ?Owned) \<longrightarrow> M4 x = M3 x"
    by blast
  have s4: "represents M4 StoreHead StoreObject ?Kept"
  proof (rule represents_frame [OF s3], rule ballI)
    fix x assume "x \<in> set (StoreHead # map This ?Kept)"
    with facts have "x \<notin> set (ToFree # map This ?Owned)" unfolding list.set(2) by blast
    with M4(2) show "M4 x = M3 x" by blast
  qed
  have e4: "represents M4 EvtchnHead EvtchnObject ?Others"
  proof (rule represents_frame [OF M3(3)], rule ballI)
    fix x assume "x \<in> set (EvtchnHead # map This ?Others)"
    with facts have "x \<notin> set (ToFree # map This ?Owned)" unfolding list.set(2) by blast
    with M4(2) show "M4 x = M3 x" by blast
  qed
  have "XenIfaceCleanup_walks StoreObject EvtchnObject FileObject' StoreHead EvtchnHead ToFree M
      = Some (M4, map This (filter (\<lambda>c. FileObject c = FileObject') ?Ws), map This ?Owned)"
    by (simp add: XenIfaceCleanup_walks_def M1(1) M3(1) M4(1) Let_def)
  with s4 e4 show ?thesis
    by (intro exI [of _ M4]) (simp add: XenIfaceCleanup_result [OF ok])
qed

lemma sample_memory_represents:
  "represents sample_memory 100 sample_watches (StoreWatchList owned_watch_Fdo)"
  "represents sample_memory 200 sample_channels (EvtchnList owned_watch_Fdo)"
  by (simp_all add: represents_def is_list_def sample_memory_def sample_watches_def
      sample_channels_def owned_watch_Fdo_def empty_Fdo_def)

lemma single_watch_memory_represents:
  "represents single_watch_memory 100 sample_watches (StoreWatchList watch_Fdo)"
  by (simp add: represents_def is_list_def single_watch_memory_def sample_watches_def
      watch_Fdo_def empty_Fdo_def)

text \<open>The walks on the sample lists: file object 11 owns the watches at 5000 and 5002 and
  the channel at 6001.\<close>

lemma XenIfaceCleanup_walks_sample:
  "\<exists>M'. XenIfaceCleanup_walks sample_watches sample_channels 11 100 200 300 sample_memory
           = Some (M', [5000, 5002], [6001]) \<and>
         represents M' 100 sample_watches (StoreWatchList cleaned_Fdo) \<and>
         represents M' 200 sample_channels (EvtchnList cleaned_Fdo)"
proof -
  have ok: "\<forall>c \<in> set (StoreWatchList owned_watch_Fdo).
      FileObject c = 11 \<longrightarrow> NT_SUCCESS (STORE_WatchRemove sample_kernel (Watch c))"
    by (simp add: sample_kernel_def NT_SUCCESS_def STATUS_SUCCESS_def)
  have disj: "set (100 # map This (StoreWatchList owned_watch_Fdo))
      \<inter> set (200 # map This (EvtchnList owned_watch_Fdo)) = {}"
    "300 \<notin> set (100 # map This (StoreWatchList owned_watch_Fdo))"
    "300 \<notin> set (200 # map This (EvtchnList owned_watch_Fdo))"
    by (simp_all add: owned_watch_Fdo_def empty_Fdo_def)
  from XenIfaceCleanup_walks_refine [OF sample_memory_represents disj ok]
  show ?thesis
    by (simp add: XenIfaceCleanup_result [OF ok])
       (simp add: owned_watch_Fdo_def cleaned_Fdo_def empty_Fdo_def)
qed

text \<open>The loop of \<^verbatim>\<open>IoctlStoreRemoveWatch\<close> on a list with the one watch at 5000, which
  file object 11 owns, for a request of file object 12 with \<^verbatim>\<open>In->Context\<close> = 5000: the
  body runs once and takes the \<^verbatim>\<open>continue\<close>, the loop ends, and \<open>Context\<close> is 5000 with
  nothing unlinked.\<close>

lemma RemoveWatch_links_walk_sample:
  "RemoveWatch_links_walk sample_watches 5000 12 100 single_watch_memory
     (Flink (single_watch_memory 100)) NULL = Some (5000, single_watch_memory)"
proof -
  have a: "Flink (single_watch_memory 100) = 5000" "Flink (single_watch_memory 5000) = 100"
    by (simp_all add: single_watch_memory_def)
  have b: "FileObject (sample_watches 5000) = 11" by (simp add: sample_watches_def)
  show ?thesis
    unfolding a
    by (subst RemoveWatch_links_walk.simps, simp add: a b Let_def)
       (subst RemoveWatch_links_walk.simps, simp add: a)
qed

section \<open>Shares and revocations in a trace\<close>

lemma pages_shared_simps [simp]:
  "pages_shared [] = []"
  "pages_shared (xs @ ys) = pages_shared xs @ pages_shared ys"
  "pages_shared (e # ys) = shared_entry e @ pages_shared ys"
  by (simp_all add: pages_shared_def)

lemma pages_revoked_simps [simp]:
  "pages_revoked [] = []"
  "pages_revoked (xs @ ys) = pages_revoked xs @ pages_revoked ys"
  "pages_revoked (e # ys) = revoked_entry e @ pages_revoked ys"
  by (simp_all add: pages_revoked_def)

lemma foreign_mapped_simps [simp]:
  "foreign_mapped [] = []"
  "foreign_mapped (xs @ ys) = foreign_mapped xs @ foreign_mapped ys"
  "foreign_mapped (e # ys) = mapped_address e @ foreign_mapped ys"
  by (simp_all add: foreign_mapped_def)

lemma foreign_unmapped_simps [simp]:
  "foreign_unmapped [] = []"
  "foreign_unmapped (xs @ ys) = foreign_unmapped xs @ foreign_unmapped ys"
  "foreign_unmapped (e # ys) = unmapped_address e @ foreign_unmapped ys"
  by (simp_all add: foreign_unmapped_def)

lemma length_granted_entries [simp]: "length (granted_entries K k) = k"
  by (simp add: granted_entries_def)

lemmas entry_defs = shared_entry_def revoked_entry_def mapped_address_def unmapped_address_def


lemma projections_revoke_events:
  "pages_revoked (revoke_events K es) = es"
  "pages_shared (revoke_events K es) = []"
  "foreign_mapped (revoke_events K es) = []"
  "foreign_unmapped (revoke_events K es) = []"
  by (induction es) (simp_all add: revoke_events_def entry_defs)








lemma gnttab_notify_result:
  "\<exists>evs. gnttab_notify Fdo Context = Fdo\<lparr>trace := trace Fdo @ evs\<rparr> \<and>
     pages_revoked evs = [] \<and> pages_shared evs = [] \<and>
     foreign_mapped evs = [] \<and> foreign_unmapped evs = []"
proof -
  have notify: "\<exists>evs. snd (EvtchnNotify F Port FO) = F\<lparr>trace := trace F @ evs\<rparr> \<and>
     pages_revoked evs = [] \<and> pages_shared evs = [] \<and>
     foreign_mapped evs = [] \<and> foreign_unmapped evs = []" for F Port FO
  proof (cases "EvtchnFindChannel (EvtchnList F) Port FO")
    case None
    then have "snd (EvtchnNotify F Port FO) = F\<lparr>trace := trace F
        @ [Ev_KeAcquireSpinLock EvtchnLock, Ev_KeReleaseSpinLock EvtchnLock]\<rparr>"
      by (simp add: EvtchnNotify_def Let_def log_def)
    then show ?thesis by (intro exI conjI) (assumption, simp_all add: entry_defs)
  next
    case (Some c)
    then have "snd (EvtchnNotify F Port FO) = F\<lparr>trace := trace F
        @ [Ev_KeAcquireSpinLock EvtchnLock, Ev_EvtchnSend (Channel c),
           Ev_KeReleaseSpinLock EvtchnLock]\<rparr>"
      by (simp add: EvtchnNotify_def Let_def log_def)
    then show ?thesis by (intro exI conjI) (assumption, simp_all add: entry_defs)
  qed
  let ?e = "Ev_NotifyOffsetCleared (KernelVa Context) (NotifyOffset Context)"
  show ?thesis
  proof (cases "XENIFACE_GNTTAB_USE_NOTIFY_OFFSET \<in> Flags Context")
    case off: True
    show ?thesis
    proof (cases "XENIFACE_GNTTAB_USE_NOTIFY_PORT \<in> Flags Context")
      case True
      from notify [of "Fdo\<lparr>trace := trace Fdo @ [?e]\<rparr>" "NotifyPort Context" NULL]
      obtain evs where evs: "snd (EvtchnNotify (Fdo\<lparr>trace := trace Fdo @ [?e]\<rparr>) (NotifyPort Context) NULL)
           = Fdo\<lparr>trace := trace Fdo @ ([?e] @ evs)\<rparr>"
          "pages_revoked evs = []" "pages_shared evs = []"
          "foreign_mapped evs = []" "foreign_unmapped evs = []"
        by auto
      from off True evs(1) have "gnttab_notify Fdo Context = Fdo\<lparr>trace := trace Fdo @ ([?e] @ evs)\<rparr>"
        by (simp add: gnttab_notify_def Let_def log_def)
      then show ?thesis
        by (intro exI conjI) (assumption, simp_all add: evs entry_defs)
    next
      case False
      with off have "gnttab_notify Fdo Context = Fdo\<lparr>trace := trace Fdo @ [?e]\<rparr>"
        by (simp add: gnttab_notify_def Let_def log_def)
      then show ?thesis by (intro exI conjI) (assumption, simp_all add: entry_defs)
    qed
  next
    case off: False
    show ?thesis
    proof (cases "XENIFACE_GNTTAB_USE_NOTIFY_PORT \<in> Flags Context")
      case True
      from notify [of Fdo "NotifyPort Context" NULL] off True show ?thesis
        by (simp add: gnttab_notify_def Let_def)
    next
      case False
      with off have "gnttab_notify Fdo Context = Fdo\<lparr>trace := trace Fdo @ []\<rparr>"
        by (simp add: gnttab_notify_def Let_def)
      then show ?thesis by (intro exI conjI) (assumption, simp_all)
    qed
  qed
qed

lemma GnttabFreeGrant_result:
  assumes run: "GnttabFreeGrant K Fdo Context = (True, Fdo')"
    and len: "length (GrantsArray Context) = unat (NumberPages Context)"
  shows "\<exists>evs. Fdo' = Fdo\<lparr>trace := trace Fdo @ evs\<rparr> \<and> pages_revoked evs = GrantsArray Context \<and>
           pages_shared evs = [] \<and> foreign_mapped evs = [] \<and> foreign_unmapped evs = []"
proof -
  from gnttab_notify_result [of Fdo Context]
  obtain pre where pre: "gnttab_notify Fdo Context = Fdo\<lparr>trace := trace Fdo @ pre\<rparr>"
     "pages_revoked pre = []" "pages_shared pre = []" "foreign_mapped pre = []" "foreign_unmapped pre = []"
    by auto
  let ?u = "Ev_MmUnmapLockedPages (UserVa Context) (Mdl Context)"
  let ?tr = "trace Fdo @ pre @ [?u]"
  obtain ok tr where st: "stop_sharing K (unat (NumberPages Context)) 0 (GrantsArray Context) ?tr = (ok, tr)"
    by (cases "stop_sharing K (unat (NumberPages Context)) 0 (GrantsArray Context) ?tr") auto
  with run pre(1) have ok: ok
    by (cases ok) (simp_all add: GnttabFreeGrant_def Let_def log_def)
  with stop_sharing_result [of "unat (NumberPages Context)" "GrantsArray Context" 0 K ?tr] st len
  have tr: "tr = ?tr @ revoke_events K (GrantsArray Context)" by simp
  from run pre(1) st ok
  have "Fdo' = Fdo\<lparr>trace := trace Fdo @ (pre @ [?u] @ revoke_events K (GrantsArray Context)
                                            @ Permit_releases Context)\<rparr>"
    by (simp add: GnttabFreeGrant_def Let_def log_def tr Permit_releases_def)
  then show ?thesis
    by (intro exI conjI) (assumption, simp_all add: pre projections_revoke_events entry_defs
        Permit_releases_def)
qed






lemma events_since_update:
  "events_since Fdo (Fdo\<lparr>trace := trace Fdo @ evs\<rparr>) = evs"
  by (simp add: events_since_def)

lemma Revoke_result:
  assumes run: "IoctlGnttabRevokeForeignAccess A K Fdo RequestId' InLen OutLen
                  = (Return STATUS_SUCCESS, Fdo')"
  shows "\<exists>PendingIrp Context.
           CsqPeekNextIrp (IrpQueue Fdo)
             \<lparr>Type = XENIFACE_CONTEXT_GRANT, Process = PsGetCurrentProcess K, RequestId = RequestId'\<rparr>
             = Some (PendingIrp, GrantContext Context) \<and>
           IrpQueue Fdo' = remove1 (PendingIrp, GrantContext Context) (IrpQueue Fdo) \<and>
           (length (GrantsArray Context) = unat (NumberPages Context) \<longrightarrow>
              pages_revoked (events_since Fdo Fdo') = GrantsArray Context)"
proof -
  let ?id = "\<lparr>Type = XENIFACE_CONTEXT_GRANT, Process = PsGetCurrentProcess K, RequestId = RequestId'\<rparr>"
  from run have size: "unat InLen = sizeof_REVOKE_FOREIGN_ACCESS_IN A"
    by (auto simp: IoctlGnttabRevokeForeignAccess_def status_defs split: if_splits)
  from run size obtain PendingIrp c where pk: "CsqPeekNextIrp (IrpQueue Fdo) ?id = Some (PendingIrp, c)"
    by (cases "CsqPeekNextIrp (IrpQueue Fdo) ?id")
       (auto simp: IoctlGnttabRevokeForeignAccess_def IoCsqRemoveNextIrp_def status_defs)
  from run size pk obtain Context where c: "c = GrantContext Context"
    by (cases c) (auto simp: IoctlGnttabRevokeForeignAccess_def IoCsqRemoveNextIrp_def
        as_GRANT_CONTEXT_def)
  let ?Fdo1 = "Fdo\<lparr>IrpQueue := remove1 (PendingIrp, c) (IrpQueue Fdo)\<rparr>"
  from run size pk c obtain Fdo2 where free: "GnttabFreeGrant K ?Fdo1 Context = (True, Fdo2)"
    and Fdo': "Fdo' = log (Ev_IoCompleteRequest PendingIrp STATUS_SUCCESS) Fdo2"
    by (cases "GnttabFreeGrant K ?Fdo1 Context")
       (auto simp: IoctlGnttabRevokeForeignAccess_def IoCsqRemoveNextIrp_def as_GRANT_CONTEXT_def
        split: bool.splits)
  show ?thesis
  proof (intro exI conjI impI)
    show "CsqPeekNextIrp (IrpQueue Fdo) ?id = Some (PendingIrp, GrantContext Context)"
      using pk c by simp
    have q: "IrpQueue Fdo2 = remove1 (PendingIrp, c) (IrpQueue Fdo)"
      using free by (auto simp: GnttabFreeGrant_def Let_def log_def gnttab_notify_def EvtchnNotify_def
          split: prod.splits bool.splits option.splits if_splits)
    then show "IrpQueue Fdo' = remove1 (PendingIrp, GrantContext Context) (IrpQueue Fdo)"
      using Fdo' c by (simp add: log_def)
  next
    assume "length (GrantsArray Context) = unat (NumberPages Context)"
    from GnttabFreeGrant_result [OF free this]
    obtain evs where "Fdo2 = ?Fdo1\<lparr>trace := trace ?Fdo1 @ evs\<rparr>" "pages_revoked evs = GrantsArray Context"
      by auto
    with Fdo' show "pages_revoked (events_since Fdo Fdo') = GrantsArray Context"
      by (simp add: log_def events_since_def entry_defs)
  qed
qed





lemma stop_sharing_ok:
  assumes "n = length Gs" and "\<forall>p<n. NT_SUCCESS (GNTTAB_RevokeForeignAccess K (Gs ! p))"
  shows "stop_sharing K n 0 Gs tr = (True, tr @ revoke_events K Gs)"
  using stop_sharing_result [of n Gs 0 K tr] assms by (simp add: prod_eq_iff)

lemma Revoke_sample_run:
  "IoctlGnttabRevokeForeignAccess sample_abi sample_kernel granted_Fdo 77 8 0 =
     (Return STATUS_SUCCESS,
      granted_Fdo\<lparr>IrpQueue := [],
        trace := trace granted_Fdo @
          [Ev_MmUnmapLockedPages 8500 8400,
           Ev_RevokeForeignAccess 9000 STATUS_SUCCESS,
           Ev_RevokeForeignAccess 9001 STATUS_SUCCESS,
           Ev_RevokeForeignAccess 9002 STATUS_SUCCESS,
           Ev_IoFreeMdl 8400, Ev_ExFreePoolWithTag 8300, Ev_ExFreePoolWithTag 8200,
           Ev_ExFreePoolWithTag 8000,
           Ev_IoCompleteRequest 500 STATUS_SUCCESS]\<rparr>)"
proof -
  have ok: "\<forall>p<3. NT_SUCCESS (GNTTAB_RevokeForeignAccess sample_kernel ([9000, 9001, 9002] ! p))"
    by (simp add: sample_kernel_def NT_SUCCESS_def STATUS_SUCCESS_def)
  have st: "stop_sharing sample_kernel 3 0 [9000, 9001, 9002] tr
      = (True, tr @ revoke_events sample_kernel [9000, 9001, 9002])" for tr
    by (rule stop_sharing_ok) (use ok in simp_all)
  have rv: "GNTTAB_RevokeForeignAccess sample_kernel e = STATUS_SUCCESS" for e
    by (simp add: sample_kernel_def)
  have pid: "PsGetCurrentProcess sample_kernel = 1000" by (simp add: sample_kernel_def)
  show ?thesis
    by (simp add: IoctlGnttabRevokeForeignAccess_def granted_Fdo_eq sample_abi_def pid
        IoCsqRemoveNextIrp_def CsqPeekNextIrp_def context_Id_def sample_grant_context_def
        as_GRANT_CONTEXT_def GnttabFreeGrant_def gnttab_notify_def Let_def log_def st
        revoke_events_def rv)
qed

section \<open>The status and the queue\<close>

text \<open>A request whose page the bus rejects, in general and on the sample input.\<close>

lemma PermitForeignAccess_rejected:
  assumes reach: "Permit_reaches_sharing A K Fdo In InLen OutLen"
    and k: "k < unat (In_NumberPages In)"
    and accepted: "\<forall>p<k. NT_SUCCESS (fst (GNTTAB_PermitForeignAccess K p))"
    and rejected: "\<not> NT_SUCCESS (fst (GNTTAB_PermitForeignAccess K k))"
    and revocable: "\<forall>p<k. NT_SUCCESS (GNTTAB_RevokeForeignAccess K (snd (GNTTAB_PermitForeignAccess K p)))"
  shows "IoctlGnttabPermitForeignAccess A K Fdo In InLen OutLen Irp =
     (Return (fst (GNTTAB_PermitForeignAccess K k)),
      Fdo\<lparr>trace := trace Fdo @ Permit_allocations K (In_NumberPages In)
                 @ permit_events K 0 (Suc k)
                 @ revoke_events K (rev (granted_entries K k))
                 @ Permit_releases (Permit_Context K In)\<rparr>)"
proof -
  let ?n = "unat (In_NumberPages In)"
  let ?zero = "replicate ?n NULL"
  let ?arr = "store_entries K 0 (Suc k) ?zero"
  let ?before = "trace Fdo @ Permit_allocations K (In_NumberPages In)"
  have share: "share_pages K ?n 0 ?zero ?before =
      (Some (fst (GNTTAB_PermitForeignAccess K k)), k, ?arr, ?before @ permit_events K 0 (Suc k))"
    using k accepted rejected by (rule share_pages_rejected)
  have tk: "take k ?arr = granted_entries K k"
    using k by (simp add: take_store_entries_Suc)
  have nth: "?arr ! p = snd (GNTTAB_PermitForeignAccess K p)" if "p < k" for p
  proof -
    from that k have "?arr ! p = take k ?arr ! p" by simp
    also have "\<dots> = snd (GNTTAB_PermitForeignAccess K p)"
      using that by (simp add: tk granted_entries_def)
    finally show ?thesis .
  qed
  have kl: "k \<le> length ?arr" using k by simp
  have rv: "revoke_shared K ?arr k tr = (True, tr @ revoke_events K (rev (granted_entries K k)))" for tr
    using revoke_shared_result [OF kl, of K tr] revocable nth tk by (simp add: prod_eq_iff)
  have GA: "GrantsArray (Permit_Context K In) = ?zero" "NumberPages (Permit_Context K In) = In_NumberPages In"
    by (simp_all add: Permit_Context_def Let_def)
  show ?thesis
    unfolding Permit_to_sharing [OF reach] Permit_share_and_queue_def
    by (simp add: GA share Permit_fail8_def rv Permit_fail7_def Permit_fail6_def Permit_fail4_def log_def
        Permit_releases_def)
qed


















section \<open>The ids in the queue\<close>

text \<open>Insertion and removal keep the ids in the queue pairwise different, and then a
  removed id is no longer found.\<close>

lemma CsqPeekNextIrp_removed:
  assumes d: "distinct (map (\<lambda>Irp. context_Id (snd Irp)) Queue)"
    and pk: "CsqPeekNextIrp Queue PeekContext = Some Irp"
  shows "CsqPeekNextIrp (remove1 Irp Queue) PeekContext = None"
proof -
  from pk have mem: "Irp \<in> set Queue" and id: "context_Id (snd Irp) = PeekContext"
    by (auto simp: CsqPeekNextIrp_def find_Some_iff)
  have "\<forall>x \<in> set (remove1 Irp Queue). context_Id (snd x) \<noteq> PeekContext"
  proof
    fix x assume x: "x \<in> set (remove1 Irp Queue)"
    from d have dq: "distinct Queue" by (simp add: distinct_map)
    with x have "x \<in> set Queue" "x \<noteq> Irp" by auto
    with d mem have "context_Id (snd x) \<noteq> context_Id (snd Irp)"
      by (auto simp: distinct_map inj_on_def)
    with id show "context_Id (snd x) \<noteq> PeekContext" by simp
  qed
  then show ?thesis by (simp add: CsqPeekNextIrp_None_iff)
qed

lemma IoCsqInsertIrpEx_distinct:
  assumes "distinct (map (\<lambda>Irp. context_Id (snd Irp)) Queue)"
  shows "distinct (map (\<lambda>Irp. context_Id (snd Irp)) (snd (IoCsqInsertIrpEx Queue Irp)))"
  using assms by (auto simp: IoCsqInsertIrpEx_def CsqPeekNextIrp_None_iff)

lemma IoCsqRemoveNextIrp_distinct:
  assumes "distinct (map (\<lambda>Irp. context_Id (snd Irp)) Queue)"
  shows "distinct (map (\<lambda>Irp. context_Id (snd Irp)) (snd (IoCsqRemoveNextIrp Queue PeekContext)))"
  using assms by (auto simp: IoCsqRemoveNextIrp_def distinct_map split: option.splits
      intro: inj_on_subset dest: notin_set_remove1)

section \<open>Unwinding a rejected share\<close>

text \<open>Claim C2. Let a \<^verbatim>\<open>PermitForeignAccess\<close> request get as far as the sharing loop, let
  the bus accept the pages \<open>0\<close> to \<open>k - 1\<close> and reject page \<open>k\<close> (any \<open>k\<close> below the
  page count), and let the bus revoke the entries it gave out. Then the handler returns
  the status the bus reported for page \<open>k\<close>; after the bus calls for the pages \<open>0\<close> to
  \<open>k\<close> it revokes the entries of the pages \<open>k - 1\<close> down to \<open>0\<close>, in that order,
  frees the MDL, the kernel buffer, the grant array and the context, and does nothing
  else: the queue and the lists of the device extension are as they were.\<close>

theorem PermitForeignAccess_rejected_page_unwinds:
  assumes reach: "Permit_reaches_sharing A K Fdo In InLen OutLen"
    and k: "k < unat (In_NumberPages In)"
    and accepted: "\<forall>p<k. NT_SUCCESS (fst (GNTTAB_PermitForeignAccess K p))"
    and rejected: "\<not> NT_SUCCESS (fst (GNTTAB_PermitForeignAccess K k))"
    and revocable: "\<forall>p<k. NT_SUCCESS (GNTTAB_RevokeForeignAccess K (snd (GNTTAB_PermitForeignAccess K p)))"
  shows "IoctlGnttabPermitForeignAccess A K Fdo In InLen OutLen Irp =
     (Return (fst (GNTTAB_PermitForeignAccess K k)),
      Fdo\<lparr>trace := trace Fdo @ Permit_allocations K (In_NumberPages In)
                 @ permit_events K 0 (Suc k)
                 @ revoke_events K (rev (granted_entries K k))
                 @ Permit_releases (Permit_Context K In)\<rparr>)"
  using assms by (rule PermitForeignAccess_rejected)

theorem PermitForeignAccess_rejected_page_unwinds_witness:
  "Permit_reaches_sharing sample_abi rejecting_kernel empty_Fdo (sample_request 4 {} 0) 32 0 \<and>
   NT_SUCCESS (fst (GNTTAB_PermitForeignAccess rejecting_kernel 0)) \<and>
   NT_SUCCESS (fst (GNTTAB_PermitForeignAccess rejecting_kernel 1)) \<and>
   \<not> NT_SUCCESS (fst (GNTTAB_PermitForeignAccess rejecting_kernel 2)) \<and>
   IoctlGnttabPermitForeignAccess sample_abi rejecting_kernel empty_Fdo (sample_request 4 {} 0) 32 0 500 =
     (Return STATUS_UNSUCCESSFUL,
      empty_Fdo\<lparr>trace :=
        [Ev_ExAllocatePoolWithTag Pool_GRANT_CONTEXT 8000,
         Ev_ExAllocatePoolWithTag (Pool_Grants 4) 8200,
         Ev_ExAllocatePoolWithTag (Pool_KernelVa 16384) 8300,
         Ev_IoAllocateMdl 8300 16384 8400,
         Ev_PermitForeignAccess 0 STATUS_SUCCESS 9000,
         Ev_PermitForeignAccess 1 STATUS_SUCCESS 9001,
         Ev_PermitForeignAccess 2 STATUS_UNSUCCESSFUL NULL,
         Ev_RevokeForeignAccess 9001 STATUS_SUCCESS,
         Ev_RevokeForeignAccess 9000 STATUS_SUCCESS,
         Ev_IoFreeMdl 8400, Ev_ExFreePoolWithTag 8300,
         Ev_ExFreePoolWithTag 8200, Ev_ExFreePoolWithTag 8000]\<rparr>)"
proof -
  have reach: "Permit_reaches_sharing sample_abi rejecting_kernel empty_Fdo (sample_request 4 {} 0) 32 0"
    by (simp add: Permit_reaches_sharing_def sample_abi_def rejecting_kernel_def sample_kernel_def
        empty_Fdo_def sample_request_def gnttab_parameters_invalid_def PAGE_SIZE_def Permit_Context_def
        CsqPeekNextIrp_def NULL_def Let_def)
  have k: "2 < unat (In_NumberPages (sample_request 4 {} 0))"
    by (simp add: sample_request_def)
  have ok: "\<forall>p<2. NT_SUCCESS (fst (GNTTAB_PermitForeignAccess rejecting_kernel p))"
    by (simp add: rejecting_kernel_def sample_kernel_def NT_SUCCESS_def STATUS_SUCCESS_def)
  have bad: "\<not> NT_SUCCESS (fst (GNTTAB_PermitForeignAccess rejecting_kernel 2))"
    by (simp add: rejecting_kernel_def sample_kernel_def NT_SUCCESS_def STATUS_UNSUCCESSFUL_def)
  have rv: "\<forall>p<2. NT_SUCCESS (GNTTAB_RevokeForeignAccess rejecting_kernel
              (snd (GNTTAB_PermitForeignAccess rejecting_kernel p)))"
    by (simp add: rejecting_kernel_def sample_kernel_def NT_SUCCESS_def STATUS_SUCCESS_def)
  have upt: "[0 ..< (3::nat)] = [0, 1, 2]" "[0 ..< (2::nat)] = [0, 1]"
    by (simp_all add: upt_conv_Cons)
  from PermitForeignAccess_rejected_page_unwinds [OF reach k ok bad rv, of 500] reach ok bad
  show ?thesis
    by (simp add: Permit_allocations_def permit_events_def revoke_events_def granted_entries_def
        Permit_releases_def Permit_Context_def upt rejecting_kernel_def sample_kernel_def
        sample_request_def PAGE_SIZE_def Let_def empty_Fdo_def NT_SUCCESS_def STATUS_SUCCESS_def
        STATUS_UNSUCCESSFUL_def)
qed

section \<open>The page count at its upper bound\<close>

text \<open>Claim C4, at the failing input \<open>NumberPages = 2^20\<close>. With offset notification
  asked for (offset 0), both \<^verbatim>\<open>IoctlGnttabPermitForeignAccess\<close> and
  \<^verbatim>\<open>IoctlGnttabMapForeignPages\<close> return \<^verbatim>\<open>STATUS_INVALID_PARAMETER\<close>; without it, the
  shared buffer that \<^verbatim>\<open>IoctlGnttabPermitForeignAccess\<close> asks the pool for has
  \<^verbatim>\<open>NumberPages * PAGE_SIZE = 0\<close> bytes (shown with a pool that refuses it, so that the
  handler stops there).\<close>

theorem gnttab_page_count_2_20_overflows:
  "fst (IoctlGnttabPermitForeignAccess sample_abi sample_kernel empty_Fdo
          (sample_request (1024 * 1024) {XENIFACE_GNTTAB_USE_NOTIFY_OFFSET} 0) 32 0 500)
     = Return STATUS_INVALID_PARAMETER \<and>
   fst (IoctlGnttabMapForeignPages sample_abi sample_kernel empty_Fdo
          (sample_map_request (1024 * 1024) {XENIFACE_GNTTAB_USE_NOTIFY_OFFSET} 0 []) 36 0 500)
     = Return STATUS_INVALID_PARAMETER \<and>
   IoctlGnttabPermitForeignAccess sample_abi exhausted_kernel empty_Fdo
          (sample_request (1024 * 1024) {} 0) 32 0 500
     = (Return STATUS_NO_MEMORY,
        empty_Fdo\<lparr>trace :=
          [Ev_ExAllocatePoolWithTag Pool_GRANT_CONTEXT 8000,
           Ev_ExAllocatePoolWithTag (Pool_Grants 1048576) 8200,
           Ev_ExAllocatePoolWithTag (Pool_KernelVa 0) NULL,
           Ev_ExFreePoolWithTag 8200, Ev_ExFreePoolWithTag 8000]\<rparr>)"
  by (simp add: IoctlGnttabPermitForeignAccess_def IoctlGnttabMapForeignPages_def sample_abi_def
      sample_request_def sample_map_request_def sample_kernel_def exhausted_kernel_def
      gnttab_parameters_invalid_def PAGE_SIZE_def Let_def NULL_def log_def empty_Fdo_def
      FindGnttabIrp_def CsqPeekNextIrp_def Permit_fail6_def Permit_fail4_def)

theorem gnttab_page_count_2_20_overflows_witness:
  "fst (IoctlGnttabPermitForeignAccess sample_abi sample_kernel empty_Fdo
          (sample_request (1024 * 1024) {XENIFACE_GNTTAB_USE_NOTIFY_OFFSET} 0) 32 0 500)
     \<noteq> Return STATUS_PENDING"
  using gnttab_page_count_2_20_overflows by (simp add: status_defs)

section \<open>The notify offset check\<close>

text \<open>Claim C5, at the failing input \<open>NumberPages = 2^20\<close>, \<open>NotifyOffset = 0\<close>,
  offset notification asked for. The offset is below the exact product
  \<open>2^20 * 4096 = 2^32\<close>, but the 32-bit product is 0, so the parameter check of
  \<^verbatim>\<open>IoctlGnttabPermitForeignAccess\<close> and \<^verbatim>\<open>IoctlGnttabMapForeignPages\<close> rejects the
  request.\<close>

theorem gnttab_notify_offset_check_wraps:
  "gnttab_parameters_invalid (1024 * 1024) {XENIFACE_GNTTAB_USE_NOTIFY_OFFSET} 0 \<and>
   unat (0 :: ULONG) < unat (1024 * 1024 :: ULONG) * unat PAGE_SIZE \<and>
   (1024 * 1024 :: ULONG) * PAGE_SIZE = 0"
  by (simp add: gnttab_parameters_invalid_def PAGE_SIZE_def)

section \<open>The size check of the unmap request\<close>

text \<open>Claim C7, at the failing input \<open>InLen = 9\<close> (the message has 8 bytes),
  \<open>OutLen = 0\<close>, with a map operation with the request id pending. The input block is
  not rejected: \<^verbatim>\<open>IoctlGnttabUnmapForeignPages\<close> looks the operation up, removes it from
  the queue, tears it down and returns \<^verbatim>\<open>STATUS_SUCCESS\<close>.\<close>

theorem UnmapForeignPages_accepts_wrong_input_size:
  "unat (9 :: ULONG) \<noteq> sizeof_UNMAP_FOREIGN_PAGES_IN sample_abi \<and>
   IrpQueue pending_map_Fdo \<noteq> [] \<and>
   fst (IoctlGnttabUnmapForeignPages sample_abi sample_kernel pending_map_Fdo 77 9 0)
     = Return STATUS_SUCCESS \<and>
   IrpQueue (snd (IoctlGnttabUnmapForeignPages sample_abi sample_kernel pending_map_Fdo 77 9 0))
     = []"
  by (simp add: pending_map_Fdo_def IoctlGnttabMapForeignPages_def sample_abi_def
      sample_map_request_def sample_kernel_def gnttab_parameters_invalid_def PAGE_SIZE_def Let_def
      NULL_def log_def empty_Fdo_def FindGnttabIrp_def CsqPeekNextIrp_def Map_map_and_queue_def
      sizeof_ULONG_def IoCsqInsertIrpEx_def NT_SUCCESS_def status_defs context_Id_def
      IoctlGnttabUnmapForeignPages_def IoCsqRemoveNextIrp_def as_MAP_CONTEXT_def GnttabFreeMap_def
      gnttab_notify_def)

theorem UnmapForeignPages_accepts_wrong_input_size_witness:
  "fst (IoctlGnttabUnmapForeignPages sample_abi sample_kernel pending_map_Fdo 77 9 0)
     \<noteq> Return STATUS_INVALID_BUFFER_SIZE"
  using UnmapForeignPages_accepts_wrong_input_size by (simp add: status_defs)

section \<open>Removing a watch of another client\<close>

text \<open>Claim C8, at the failing input: the watch list holds one watch, the context at
  address 5000, owned by file object 11, and file object 12 asks to remove the watch
  5000. \<^verbatim>\<open>IoctlStoreRemoveWatch\<close> returns \<^verbatim>\<open>STATUS_SUCCESS\<close>: it removes the watch
  from the store, drops the event reference and frees the context, which is still
  linked in the watch list.\<close>

theorem RemoveWatch_frees_watch_of_other_client:
  "IoctlStoreRemoveWatch sample_abi sample_kernel watch_Fdo 5000 8 0 12
     = (Return STATUS_SUCCESS,
        watch_Fdo\<lparr>trace :=
          [Ev_KeAcquireSpinLock StoreWatchLock, Ev_KeReleaseSpinLock StoreWatchLock,
           Ev_StoreWatchRemove 5200 STATUS_SUCCESS, Ev_ObDereferenceObject 5100,
           Ev_ExFreePoolWithTag 5000]\<rparr>)"
  by (simp add: IoctlStoreRemoveWatch_def watch_Fdo_def sample_abi_def sample_kernel_def
      empty_Fdo_def log_def StoreFreeWatch_def NT_SUCCESS_def status_defs Let_def)

theorem RemoveWatch_frees_watch_of_other_client_witness:
  "fst (IoctlStoreRemoveWatch sample_abi sample_kernel watch_Fdo 5000 8 0 12)
     \<noteq> Return STATUS_NOT_FOUND \<and>
   map This (StoreWatchList (snd (IoctlStoreRemoveWatch sample_abi sample_kernel watch_Fdo 5000 8 0 12)))
     = [5000]"
  using RemoveWatch_frees_watch_of_other_client by (simp add: status_defs watch_Fdo_def empty_Fdo_def)

section \<open>A request id that is already pending\<close>

text \<open>Claim C3, as stated, at a concrete input: a grant of the calling process with the
  request id 77 is queued, and the pool cannot serve a context structure. A second
  \<^verbatim>\<open>IoctlGnttabPermitForeignAccess\<close> with the request id 77 returns
  \<^verbatim>\<open>STATUS_NO_MEMORY\<close>, not \<^verbatim>\<open>STATUS_INVALID_PARAMETER\<close>: the handler allocates the
  context before it looks the id up.\<close>

theorem PermitForeignAccess_duplicate_without_pool:
  "(500, GrantContext sample_grant_context) \<in> set (IrpQueue granted_Fdo) \<and>
   Id' sample_grant_context = \<lparr>Type = XENIFACE_CONTEXT_GRANT,
      Process = PsGetCurrentProcess starved_kernel, RequestId = In_RequestId (sample_request 5 {} 0)\<rparr> \<and>
   IoctlGnttabPermitForeignAccess sample_abi starved_kernel granted_Fdo (sample_request 5 {} 0) 32 0 501
     = (Return STATUS_NO_MEMORY,
        granted_Fdo\<lparr>trace := trace granted_Fdo @ [Ev_ExAllocatePoolWithTag Pool_GRANT_CONTEXT NULL]\<rparr>) \<and>
   STATUS_NO_MEMORY \<noteq> STATUS_INVALID_PARAMETER"
  by (simp add: granted_Fdo_eq sample_grant_context_def starved_kernel_def sample_kernel_def
      sample_request_def IoctlGnttabPermitForeignAccess_def sample_abi_def
      gnttab_parameters_invalid_def PAGE_SIZE_def Let_def log_def status_defs)

text \<open>Claim C3, amended. Let a grant operation of the calling process with the request
  id of the request be queued, and let the buffer lengths of the request be right. Then
  \<^verbatim>\<open>IoctlGnttabPermitForeignAccess\<close> fails: with \<^verbatim>\<open>STATUS_NO_MEMORY\<close> when the parameters
  of the request are valid and the pool does not serve the context structure, and with
  \<^verbatim>\<open>STATUS_INVALID_PARAMETER\<close> in every other case. The queue and both lists are as
  before; the handler has done nothing, or it has asked the pool in vain, or it has
  allocated the context structure and freed it again.\<close>

theorem PermitForeignAccess_duplicate_request_id:
  assumes size: "unat InLen = sizeof_PERMIT_FOREIGN_ACCESS_IN A" "OutLen = 0"
    and pending: "(Irp0, GrantContext Context0) \<in> set (IrpQueue Fdo)"
      "Id' Context0 = \<lparr>Type = XENIFACE_CONTEXT_GRANT, Process = PsGetCurrentProcess K,
                       RequestId = In_RequestId In\<rparr>"
  shows "fst (IoctlGnttabPermitForeignAccess A K Fdo In InLen OutLen Irp)
           = Return (if \<not> gnttab_parameters_invalid (In_NumberPages In) (In_Flags In) (In_NotifyOffset In)
                        \<and> ExAllocatePoolWithTag K Pool_GRANT_CONTEXT = NULL
                     then STATUS_NO_MEMORY else STATUS_INVALID_PARAMETER) \<and>
         IrpQueue (snd (IoctlGnttabPermitForeignAccess A K Fdo In InLen OutLen Irp)) = IrpQueue Fdo \<and>
         StoreWatchList (snd (IoctlGnttabPermitForeignAccess A K Fdo In InLen OutLen Irp))
           = StoreWatchList Fdo \<and>
         EvtchnList (snd (IoctlGnttabPermitForeignAccess A K Fdo In InLen OutLen Irp))
           = EvtchnList Fdo \<and>
         events_since Fdo (snd (IoctlGnttabPermitForeignAccess A K Fdo In InLen OutLen Irp))
           \<in> {[], [Ev_ExAllocatePoolWithTag Pool_GRANT_CONTEXT NULL],
               [Ev_ExAllocatePoolWithTag Pool_GRANT_CONTEXT (ExAllocatePoolWithTag K Pool_GRANT_CONTEXT),
                Ev_ExFreePoolWithTag (ExAllocatePoolWithTag K Pool_GRANT_CONTEXT)]}"
proof -
  from pending have "\<exists>Irp \<in> set (IrpQueue Fdo). context_Id (snd Irp) =
      \<lparr>Type = XENIFACE_CONTEXT_GRANT, Process = PsGetCurrentProcess K, RequestId = In_RequestId In\<rparr>"
    by (force simp: context_Id_def)
  then have found: "CsqPeekNextIrp (IrpQueue Fdo)
      \<lparr>Type = XENIFACE_CONTEXT_GRANT, Process = PsGetCurrentProcess K, RequestId = In_RequestId In\<rparr> \<noteq> None"
    by (simp add: CsqPeekNextIrp_None_iff)
  show ?thesis
  proof (cases "gnttab_parameters_invalid (In_NumberPages In) (In_Flags In) (In_NotifyOffset In)")
    case True
    with size show ?thesis by (simp add: IoctlGnttabPermitForeignAccess_def)
  next
    case valid: False
    show ?thesis
    proof (cases "ExAllocatePoolWithTag K Pool_GRANT_CONTEXT = NULL")
      case True
      with size valid show ?thesis
        by (simp add: IoctlGnttabPermitForeignAccess_def Let_def log_def)
    next
      case False
      with size valid found show ?thesis
        by (simp add: IoctlGnttabPermitForeignAccess_def Let_def FindGnttabIrp_def log_def
            Permit_fail4_def)
    qed
  qed
qed

theorem PermitForeignAccess_duplicate_request_id_witness:
  "unat (32 :: ULONG) = sizeof_PERMIT_FOREIGN_ACCESS_IN sample_abi \<and>
   fst (IoctlGnttabPermitForeignAccess sample_abi sample_kernel empty_Fdo (sample_request 3 {} 0) 32 0 500)
     = Return STATUS_PENDING \<and>
   fst (IoctlGnttabPermitForeignAccess sample_abi sample_kernel granted_Fdo (sample_request 5 {} 0) 32 0 501)
     = Return STATUS_INVALID_PARAMETER \<and>
   IrpQueue (snd (IoctlGnttabPermitForeignAccess sample_abi sample_kernel granted_Fdo
                    (sample_request 5 {} 0) 32 0 501))
     = [(500, GrantContext sample_grant_context)] \<and>
   fst (IoctlGnttabPermitForeignAccess sample_abi starved_kernel granted_Fdo (sample_request 5 {} 0) 32 0 501)
     = Return STATUS_NO_MEMORY \<and>
   IrpQueue (snd (IoctlGnttabPermitForeignAccess sample_abi starved_kernel granted_Fdo
                    (sample_request 5 {} 0) 32 0 501))
     = [(500, GrantContext sample_grant_context)] \<and>
   fst (IoctlGnttabPermitForeignAccess sample_abi starved_kernel granted_Fdo (sample_request 0 {} 0) 32 0 501)
     = Return STATUS_INVALID_PARAMETER"
proof -
  have size: "unat (32 :: ULONG) = sizeof_PERMIT_FOREIGN_ACCESS_IN sample_abi" "(0 :: ULONG) = 0"
    by (simp_all add: sample_abi_def)
  have pending: "(500, GrantContext sample_grant_context) \<in> set (IrpQueue granted_Fdo)"
    "Id' sample_grant_context = \<lparr>Type = XENIFACE_CONTEXT_GRANT,
        Process = PsGetCurrentProcess sample_kernel, RequestId = In_RequestId (sample_request n {} 0)\<rparr>"
    "Id' sample_grant_context = \<lparr>Type = XENIFACE_CONTEXT_GRANT,
        Process = PsGetCurrentProcess starved_kernel, RequestId = In_RequestId (sample_request n {} 0)\<rparr>"
    for n
    by (simp_all add: granted_Fdo_eq sample_grant_context_def sample_kernel_def starved_kernel_def
        sample_request_def)
  have first: "fst (IoctlGnttabPermitForeignAccess sample_abi sample_kernel empty_Fdo
      (sample_request 3 {} 0) 32 0 500) = Return STATUS_PENDING"
    using PermitForeignAccess_pending [OF sample_reaches_sharing sample_kernel_accepts, of 8500 500]
    by (simp add: sample_kernel_def NULL_def)
  have valid: "\<not> gnttab_parameters_invalid (In_NumberPages (sample_request 5 {} 0))
      (In_Flags (sample_request 5 {} 0)) (In_NotifyOffset (sample_request 5 {} 0))"
    "gnttab_parameters_invalid (In_NumberPages (sample_request 0 {} 0))
      (In_Flags (sample_request 0 {} 0)) (In_NotifyOffset (sample_request 0 {} 0))"
    by (simp_all add: gnttab_parameters_invalid_def sample_request_def)
  have pool: "ExAllocatePoolWithTag sample_kernel Pool_GRANT_CONTEXT \<noteq> NULL"
    "ExAllocatePoolWithTag starved_kernel Pool_GRANT_CONTEXT = NULL"
    by (simp_all add: sample_kernel_def starved_kernel_def NULL_def)
  from PermitForeignAccess_duplicate_request_id [OF size pending(1) pending(2), of 5 501] valid pool
  have a: "fst (IoctlGnttabPermitForeignAccess sample_abi sample_kernel granted_Fdo
        (sample_request 5 {} 0) 32 0 501) = Return STATUS_INVALID_PARAMETER"
    "IrpQueue (snd (IoctlGnttabPermitForeignAccess sample_abi sample_kernel granted_Fdo
        (sample_request 5 {} 0) 32 0 501)) = [(500, GrantContext sample_grant_context)]"
    by (simp_all add: granted_Fdo_eq)
  from PermitForeignAccess_duplicate_request_id [OF size pending(1) pending(3), of 5 501] valid pool
  have b: "fst (IoctlGnttabPermitForeignAccess sample_abi starved_kernel granted_Fdo
        (sample_request 5 {} 0) 32 0 501) = Return STATUS_NO_MEMORY"
    "IrpQueue (snd (IoctlGnttabPermitForeignAccess sample_abi starved_kernel granted_Fdo
        (sample_request 5 {} 0) 32 0 501)) = [(500, GrantContext sample_grant_context)]"
    by (simp_all add: granted_Fdo_eq)
  from PermitForeignAccess_duplicate_request_id [OF size pending(1) pending(3), of 0 501] valid pool
  have c: "fst (IoctlGnttabPermitForeignAccess sample_abi starved_kernel granted_Fdo
        (sample_request 0 {} 0) 32 0 501) = Return STATUS_INVALID_PARAMETER"
    by simp
  from size(1) first a b c show ?thesis by (intro conjI)
qed

section \<open>Reading the result of a grant\<close>

text \<open>Claim C6. A request whose input length is not that of the message returns
  \<^verbatim>\<open>STATUS_INVALID_BUFFER_SIZE\<close>. For a request of the right input length: if no queued
  operation has the id (grant, calling process, request id), \<^verbatim>\<open>IoctlGnttabGetGrantResult\<close>
  returns \<^verbatim>\<open>STATUS_NOT_FOUND\<close>; if the queue holds a grant context with the id, it returns
  \<^verbatim>\<open>STATUS_INVALID_BUFFER_SIZE\<close> unless \<open>OutLen\<close> is the size of the output header plus
  one \<^verbatim>\<open>ULONG\<close> for each page, and with that length it returns \<^verbatim>\<open>STATUS_SUCCESS\<close>, the
  user address, and one reference for each page, that of \<^verbatim>\<open>Context->Grants[Page]\<close>. In
  every case the device extension, and so the queue, is returned as it was. When the ids
  in the queue are pairwise different, as the insertion keeps them, and
  \<^verbatim>\<open>IoctlGnttabRevokeForeignAccess\<close> for the request id has succeeded, the request
  returns \<^verbatim>\<open>STATUS_NOT_FOUND\<close>.\<close>

theorem GetGrantResult_specification:
  "(unat InLen \<noteq> sizeof_GET_GRANT_RESULT_IN A
      \<longrightarrow> IoctlGnttabGetGrantResult A K Fdo RequestId' InLen OutLen
            = (Return STATUS_INVALID_BUFFER_SIZE, None, 0, Fdo)) \<and>
   (unat InLen = sizeof_GET_GRANT_RESULT_IN A \<longrightarrow>
      ((\<forall>Irp \<in> set (IrpQueue Fdo). context_Id (snd Irp)
            \<noteq> \<lparr>Type = XENIFACE_CONTEXT_GRANT, Process = PsGetCurrentProcess K, RequestId = RequestId'\<rparr>)
          \<longrightarrow> IoctlGnttabGetGrantResult A K Fdo RequestId' InLen OutLen
                = (Return STATUS_NOT_FOUND, None, 0, Fdo)) \<and>
      (CsqPeekNextIrp (IrpQueue Fdo)
            \<lparr>Type = XENIFACE_CONTEXT_GRANT, Process = PsGetCurrentProcess K, RequestId = RequestId'\<rparr>
            = Some (Irp, GrantContext Context)
          \<longrightarrow> (unat OutLen \<noteq> sizeof_GET_GRANT_RESULT_OUT A + sizeof_ULONG * unat (NumberPages Context)
                \<longrightarrow> IoctlGnttabGetGrantResult A K Fdo RequestId' InLen OutLen
                      = (Return STATUS_INVALID_BUFFER_SIZE, None, 0, Fdo)) \<and>
              (unat OutLen = sizeof_GET_GRANT_RESULT_OUT A + sizeof_ULONG * unat (NumberPages Context)
                \<longrightarrow> (\<exists>References.
                       IoctlGnttabGetGrantResult A K Fdo RequestId' InLen OutLen
                         = (Return STATUS_SUCCESS, Some (UserVa Context, References), OutLen, Fdo) \<and>
                       length References = unat (NumberPages Context) \<and>
                       (\<forall>Page < unat (NumberPages Context).
                          References ! Page = GNTTAB_GetReference K (GrantsArray Context ! Page))))) \<and>
      (distinct (map (\<lambda>Irp. context_Id (snd Irp)) (IrpQueue Fdo)) \<and>
       IoctlGnttabRevokeForeignAccess A K Fdo RequestId' RevokeInLen RevokeOutLen
         = (Return STATUS_SUCCESS, Revoked)
          \<longrightarrow> IoctlGnttabGetGrantResult A K Revoked RequestId' InLen OutLen
                = (Return STATUS_NOT_FOUND, None, 0, Revoked)))"
proof (intro conjI impI)
  assume "unat InLen \<noteq> sizeof_GET_GRANT_RESULT_IN A"
  then show "IoctlGnttabGetGrantResult A K Fdo RequestId' InLen OutLen
      = (Return STATUS_INVALID_BUFFER_SIZE, None, 0, Fdo)"
    by (simp add: IoctlGnttabGetGrantResult_def)
next
  assume "unat InLen = sizeof_GET_GRANT_RESULT_IN A"
    and "\<forall>Irp \<in> set (IrpQueue Fdo). context_Id (snd Irp)
      \<noteq> \<lparr>Type = XENIFACE_CONTEXT_GRANT, Process = PsGetCurrentProcess K, RequestId = RequestId'\<rparr>"
  then show "IoctlGnttabGetGrantResult A K Fdo RequestId' InLen OutLen
      = (Return STATUS_NOT_FOUND, None, 0, Fdo)"
    by (simp add: IoctlGnttabGetGrantResult_def Let_def CsqPeekNextIrp_None_iff [symmetric])
next
  assume "unat InLen = sizeof_GET_GRANT_RESULT_IN A"
    and "CsqPeekNextIrp (IrpQueue Fdo)
            \<lparr>Type = XENIFACE_CONTEXT_GRANT, Process = PsGetCurrentProcess K, RequestId = RequestId'\<rparr>
            = Some (Irp, GrantContext Context)"
    and "unat OutLen \<noteq> sizeof_GET_GRANT_RESULT_OUT A + sizeof_ULONG * unat (NumberPages Context)"
  then show "IoctlGnttabGetGrantResult A K Fdo RequestId' InLen OutLen
      = (Return STATUS_INVALID_BUFFER_SIZE, None, 0, Fdo)"
    by (simp add: IoctlGnttabGetGrantResult_def Let_def as_GRANT_CONTEXT_def)
next
  assume "unat InLen = sizeof_GET_GRANT_RESULT_IN A"
    and "CsqPeekNextIrp (IrpQueue Fdo)
            \<lparr>Type = XENIFACE_CONTEXT_GRANT, Process = PsGetCurrentProcess K, RequestId = RequestId'\<rparr>
            = Some (Irp, GrantContext Context)"
    and "unat OutLen = sizeof_GET_GRANT_RESULT_OUT A + sizeof_ULONG * unat (NumberPages Context)"
  then show "\<exists>References.
       IoctlGnttabGetGrantResult A K Fdo RequestId' InLen OutLen
         = (Return STATUS_SUCCESS, Some (UserVa Context, References), OutLen, Fdo) \<and>
       length References = unat (NumberPages Context) \<and>
       (\<forall>Page < unat (NumberPages Context).
          References ! Page = GNTTAB_GetReference K (GrantsArray Context ! Page))"
    by (simp add: IoctlGnttabGetGrantResult_def Let_def as_GRANT_CONTEXT_def)
next
  assume size: "unat InLen = sizeof_GET_GRANT_RESULT_IN A"
    and after: "distinct (map (\<lambda>Irp. context_Id (snd Irp)) (IrpQueue Fdo)) \<and>
       IoctlGnttabRevokeForeignAccess A K Fdo RequestId' RevokeInLen RevokeOutLen
         = (Return STATUS_SUCCESS, Revoked)"
  from Revoke_result [of A K Fdo RequestId' RevokeInLen RevokeOutLen Revoked] after
  obtain PendingIrp Context' where
    pk: "CsqPeekNextIrp (IrpQueue Fdo)
             \<lparr>Type = XENIFACE_CONTEXT_GRANT, Process = PsGetCurrentProcess K, RequestId = RequestId'\<rparr>
             = Some (PendingIrp, GrantContext Context')"
    and q: "IrpQueue Revoked = remove1 (PendingIrp, GrantContext Context') (IrpQueue Fdo)"
    by blast
  from after have d: "distinct (map (\<lambda>Irp. context_Id (snd Irp)) (IrpQueue Fdo))" by simp
  from CsqPeekNextIrp_removed [OF d pk] q size
  show "IoctlGnttabGetGrantResult A K Revoked RequestId' InLen OutLen
      = (Return STATUS_NOT_FOUND, None, 0, Revoked)"
    by (simp add: IoctlGnttabGetGrantResult_def Let_def)
qed

theorem GetGrantResult_specification_witness:
  "unat (9 :: ULONG) \<noteq> sizeof_GET_GRANT_RESULT_IN sample_abi \<and>
   unat (8 :: ULONG) = sizeof_GET_GRANT_RESULT_IN sample_abi \<and>
   IoctlGnttabGetGrantResult sample_abi sample_kernel granted_Fdo 77 9 28
     = (Return STATUS_INVALID_BUFFER_SIZE, None, 0, granted_Fdo) \<and>
   IoctlGnttabGetGrantResult sample_abi sample_kernel granted_Fdo 77 8 28
     = (Return STATUS_SUCCESS, Some (8500, [16, 17, 18]), 28, granted_Fdo) \<and>
   IoctlGnttabGetGrantResult sample_abi sample_kernel granted_Fdo 77 8 32
     = (Return STATUS_INVALID_BUFFER_SIZE, None, 0, granted_Fdo) \<and>
   IoctlGnttabGetGrantResult sample_abi sample_kernel granted_Fdo 78 8 28
     = (Return STATUS_NOT_FOUND, None, 0, granted_Fdo) \<and>
   distinct (map (\<lambda>Irp. context_Id (snd Irp)) (IrpQueue granted_Fdo)) \<and>
   IoctlGnttabRevokeForeignAccess sample_abi sample_kernel granted_Fdo 77 8 0
     = (Return STATUS_SUCCESS, revoked_Fdo) \<and>
   IoctlGnttabGetGrantResult sample_abi sample_kernel revoked_Fdo 77 8 28
     = (Return STATUS_NOT_FOUND, None, 0, revoked_Fdo)"
proof -
  have wrong: "unat (9 :: ULONG) \<noteq> sizeof_GET_GRANT_RESULT_IN sample_abi"
    and size: "unat (8 :: ULONG) = sizeof_GET_GRANT_RESULT_IN sample_abi"
    by (simp_all add: sample_abi_def)
  have pk: "CsqPeekNextIrp (IrpQueue granted_Fdo)
      \<lparr>Type = XENIFACE_CONTEXT_GRANT, Process = PsGetCurrentProcess sample_kernel, RequestId = 77\<rparr>
      = Some (500, GrantContext sample_grant_context)"
    by (simp add: granted_Fdo_eq CsqPeekNextIrp_def context_Id_def sample_grant_context_def
        sample_kernel_def)
  have absent: "\<forall>Irp \<in> set (IrpQueue granted_Fdo). context_Id (snd Irp)
      \<noteq> \<lparr>Type = XENIFACE_CONTEXT_GRANT, Process = PsGetCurrentProcess sample_kernel, RequestId = 78\<rparr>"
    by (simp add: granted_Fdo_eq context_Id_def sample_grant_context_def)
  have n: "unat (NumberPages sample_grant_context) = 3" "UserVa sample_grant_context = 8500"
    "GrantsArray sample_grant_context = [9000, 9001, 9002]"
    by (simp_all add: sample_grant_context_def)
  have d: "distinct (map (\<lambda>Irp. context_Id (snd Irp)) (IrpQueue granted_Fdo))"
    by (simp add: granted_Fdo_eq)
  have rv: "IoctlGnttabRevokeForeignAccess sample_abi sample_kernel granted_Fdo 77 8 0
     = (Return STATUS_SUCCESS, revoked_Fdo)"
    by (simp add: revoked_Fdo_def Revoke_sample_run)
  note wrong_size = GetGrantResult_specification [where InLen = 9 and A = sample_abi
      and K = sample_kernel and Fdo = granted_Fdo and RequestId' = 77 and OutLen = 28,
      THEN conjunct1, THEN mp, OF wrong]
  note not_queued = GetGrantResult_specification [where InLen = 8 and A = sample_abi
      and K = sample_kernel and Fdo = granted_Fdo and RequestId' = 78 and OutLen = 28,
      THEN conjunct2, THEN mp, OF size, THEN conjunct1, THEN mp, OF absent]
  note queued = GetGrantResult_specification [where InLen = 8 and A = sample_abi
      and K = sample_kernel and Fdo = granted_Fdo and RequestId' = 77 and Irp = 500
      and Context = sample_grant_context,
      THEN conjunct2, THEN mp, OF size, THEN conjunct2, THEN conjunct1, THEN mp, OF pk]
  note revoked = GetGrantResult_specification [where InLen = 8 and A = sample_abi
      and K = sample_kernel and Fdo = granted_Fdo and RequestId' = 77 and OutLen = 28
      and RevokeInLen = 8 and RevokeOutLen = 0 and Revoked = revoked_Fdo,
      THEN conjunct2, THEN mp, OF size, THEN conjunct2, THEN conjunct2, THEN mp,
      OF conjI [OF d rv]]
  have len: "unat (32 :: ULONG) \<noteq> sizeof_GET_GRANT_RESULT_OUT sample_abi
       + sizeof_ULONG * unat (NumberPages sample_grant_context)"
    "unat (28 :: ULONG) = sizeof_GET_GRANT_RESULT_OUT sample_abi
       + sizeof_ULONG * unat (NumberPages sample_grant_context)"
    by (simp_all add: n sample_abi_def sizeof_ULONG_def)
  note b = queued [of 32, THEN conjunct1, THEN mp, OF len(1)]
  from queued [of 28, THEN conjunct2, THEN mp, OF len(2)]
  obtain References where r: "IoctlGnttabGetGrantResult sample_abi sample_kernel granted_Fdo 77 8 28
         = (Return STATUS_SUCCESS, Some (8500, References), 28, granted_Fdo)"
      "length References = 3"
      "\<forall>Page < 3. References ! Page = GNTTAB_GetReference sample_kernel ([9000, 9001, 9002] ! Page)"
    unfolding n by blast
  from r(2) obtain x y z where xyz: "References = [x, y, z]"
    by (auto simp: length_Suc_conv numeral_3_eq_3)
  from r(3) have "References ! 0 = 16" "References ! 1 = 17" "References ! 2 = 18"
    by (simp_all add: sample_kernel_def)
  with xyz have "References = [16, 17, 18]" by simp
  with r(1) have c: "IoctlGnttabGetGrantResult sample_abi sample_kernel granted_Fdo 77 8 28
     = (Return STATUS_SUCCESS, Some (8500, [16, 17, 18]), 28, granted_Fdo)" by simp
  from wrong size wrong_size c b not_queued d rv revoked show ?thesis by (intro conjI)
qed

section \<open>Cleanup on close of a file object\<close>

text \<open>Claim C9. Let the store remove every watch of the file object that is asked of it.
  Then \<^verbatim>\<open>XenIfaceCleanup\<close> for a file object that owns \<open>N\<close> watches and \<open>M\<close> channels
  takes exactly these out of the two lists and tears each of them down once, in list
  order: the \<open>N\<close> watches between taking and releasing the watch lock, the \<open>M\<close>
  channels after the channel lock has been released (inside the lock they are only
  moved to the local list). A second \<^verbatim>\<open>XenIfaceCleanup\<close> for the same file object
  takes and releases the two locks and does nothing else.\<close>

theorem XenIfaceCleanup_tears_down_once:
  assumes removable: "\<forall>c \<in> set (StoreWatchList Fdo).
             FileObject c = FileObject' \<longrightarrow> NT_SUCCESS (STORE_WatchRemove K (Watch c))"
  shows "let watches = filter (\<lambda>c. FileObject c = FileObject') (StoreWatchList Fdo);
             channels = filter (\<lambda>c. EvtchnFileObject c = FileObject') (EvtchnList Fdo);
             Fdo' = Fdo\<lparr>StoreWatchList := filter (\<lambda>c. FileObject c \<noteq> FileObject') (StoreWatchList Fdo),
                        EvtchnList := filter (\<lambda>c. EvtchnFileObject c \<noteq> FileObject') (EvtchnList Fdo),
                        trace := trace Fdo
                          @ [Ev_KeAcquireSpinLock StoreWatchLock]
                          @ concat (map (StoreFreeWatch_events K) watches)
                          @ [Ev_KeReleaseSpinLock StoreWatchLock,
                             Ev_KeAcquireSpinLock EvtchnLock, Ev_KeReleaseSpinLock EvtchnLock]
                          @ concat (map EvtchnFree_events channels)\<rparr>
         in XenIfaceCleanup K Fdo FileObject' = (True, Fdo') \<and>
            XenIfaceCleanup K Fdo' FileObject' =
              (True, Fdo'\<lparr>trace := trace Fdo'
                 @ [Ev_KeAcquireSpinLock StoreWatchLock, Ev_KeReleaseSpinLock StoreWatchLock,
                    Ev_KeAcquireSpinLock EvtchnLock, Ev_KeReleaseSpinLock EvtchnLock]\<rparr>)"
proof -
  note run = XenIfaceCleanup_result
  have again: "\<forall>c \<in> set (filter (\<lambda>c. FileObject c \<noteq> FileObject') (StoreWatchList Fdo)).
              FileObject c = FileObject' \<longrightarrow> NT_SUCCESS (STORE_WatchRemove K (Watch c))"
    by simp
  have empty: "filter (\<lambda>c. FileObject c = FileObject')
                  (filter (\<lambda>c. FileObject c \<noteq> FileObject') (StoreWatchList Fdo)) = []"
    "filter (\<lambda>c. EvtchnFileObject c = FileObject')
                  (filter (\<lambda>c. EvtchnFileObject c \<noteq> FileObject') (EvtchnList Fdo)) = []"
    by (simp_all add: filter_empty_conv)
  show ?thesis
    unfolding Let_def
    by (rule conjI, rule run [OF removable], subst run) (simp_all add: empty)
qed

theorem XenIfaceCleanup_tears_down_once_witness:
  "NT_SUCCESS (STORE_WatchRemove sample_kernel 5200) \<and>
   NT_SUCCESS (STORE_WatchRemove sample_kernel 5202) \<and>
   XenIfaceCleanup sample_kernel owned_watch_Fdo 11 = (True, cleaned_Fdo) \<and>
   XenIfaceCleanup sample_kernel cleaned_Fdo 11 =
     (True, cleaned_Fdo\<lparr>trace := trace cleaned_Fdo
        @ [Ev_KeAcquireSpinLock StoreWatchLock, Ev_KeReleaseSpinLock StoreWatchLock,
           Ev_KeAcquireSpinLock EvtchnLock, Ev_KeReleaseSpinLock EvtchnLock]\<rparr>)"
proof -
  have ok: "NT_SUCCESS (STORE_WatchRemove sample_kernel w)" for w
    by (simp add: sample_kernel_def NT_SUCCESS_def STATUS_SUCCESS_def)
  then have removable: "\<forall>c \<in> set (StoreWatchList owned_watch_Fdo).
      FileObject c = 11 \<longrightarrow> NT_SUCCESS (STORE_WatchRemove sample_kernel (Watch c))"
    by simp
  have rm: "STORE_WatchRemove sample_kernel w = STATUS_SUCCESS" for w
    by (simp add: sample_kernel_def)
  from XenIfaceCleanup_tears_down_once [OF removable] ok
  show ?thesis
    by (simp add: Let_def owned_watch_Fdo_def cleaned_Fdo_def empty_Fdo_def
        StoreFreeWatch_events_def EvtchnFree_events_def rm)
qed

section \<open>Every share has its revocation\<close>




end
